theory Spec2Isabelle
  imports Main
begin

section \<open>Errors as values\<close>

text \<open>
  Every exception that the chain or one of its collaborators can raise is a value:
  \<open>ValueError\<close> for the static shape check and for mismatched structures,
  \<open>InvalidArgumentError\<close> for failed runtime assertions and for array operations
  applied to arrays of the wrong shape, \<open>IndexError\<close> for an index outside an axis, and
  \<open>CollaboratorError\<close> for whatever a transition function raises itself.
\<close>

datatype error =
    ValueError string
  | InvalidArgumentError string
  | IndexError string
  | CollaboratorError string

definition and_then :: "error + 'a \<Rightarrow> ('a \<Rightarrow> error + 'b) \<Rightarrow> error + 'b" where
  "and_then m f = (case m of Inl e \<Rightarrow> Inl e | Inr v \<Rightarrow> f v)"

section \<open>The array engine\<close>

text \<open>
  A tensor is its runtime shape (\<open>tf.shape(x)\<close>) and its elements in row-major order.
  The element type is a parameter: the operations only need \<open>0\<close>, \<open>+\<close> and \<open>-\<close>, so that
  they read the same for floating-point numbers and for exact arithmetic. A tensor is well
  formed when it has as many elements as its shape says.
\<close>

datatype 'a tensor = Tensor (shape: "nat list") (elems: "'a list")

definition wf_tensor :: "'a tensor \<Rightarrow> bool" where
  "wf_tensor t = (length (elems t) = prod_list (shape t))"

definition scalar :: "'a \<Rightarrow> 'a tensor" where
  "scalar v = Tensor [] [v]"

text \<open>The vector of the integers from \<open>a\<close> up to, and without, \<open>b\<close>.\<close>

definition trange :: "int \<Rightarrow> int \<Rightarrow> int tensor" where
  "trange a b = (let es = [a..b - 1] in Tensor [length es] es)"

text \<open>
  \<open>tf.range(a, b)\<close>, with the step 1: that vector when \<open>a \<le> b\<close>; a limit below the start
  is refused.
\<close>

definition tf_range :: "int \<Rightarrow> int \<Rightarrow> error + int tensor" where
  "tf_range a b =
     (if a \<le> b then Inr (trange a b)
      else Inl (InvalidArgumentError ''Requires start <= limit when delta > 0''))"

text \<open>\<open>tf.shape(x)\<close>: the runtime shape as a vector of integers.\<close>

definition tf_shape :: "'a tensor \<Rightarrow> int tensor" where
  "tf_shape x = Tensor [length (shape x)] (map int (shape x))"

text \<open>\<open>x[i]\<close> on the leading axis; an index outside the axis is an error.\<close>

definition tindex :: "nat \<Rightarrow> 'a tensor \<Rightarrow> error + 'a tensor" where
  "tindex i x =
     (case shape x of
        [] \<Rightarrow> Inl (IndexError ''index into a scalar'')
      | n # rest \<Rightarrow>
          if i < n
          then Inr (Tensor rest (take (prod_list rest) (drop (i * prod_list rest) (elems x))))
          else Inl (IndexError ''slice index out of bounds''))"

text \<open>
  Python's normalisation of a slice bound against an axis of extent \<open>n\<close>: a negative bound
  counts from the end, and the result is clipped to \<open>0 .. n\<close>.
\<close>

definition slice_bound :: "int \<Rightarrow> nat \<Rightarrow> nat" where
  "slice_bound b n = (if b < 0 then nat (max 0 (int n + b)) else min (nat b) n)"

definition slice_len :: "int \<Rightarrow> int \<Rightarrow> nat \<Rightarrow> nat" where
  "slice_len a b n = slice_bound b n - slice_bound a n"

text \<open>\<open>x[a:b]\<close> on the leading axis.\<close>

definition tslice :: "int \<Rightarrow> int \<Rightarrow> 'a tensor \<Rightarrow> error + 'a tensor" where
  "tslice a b x =
     (case shape x of
        [] \<Rightarrow> Inl (IndexError ''slice of a scalar'')
      | n # rest \<Rightarrow>
          Inr (Tensor (slice_len a b n # rest)
                 (take (slice_len a b n * prod_list rest)
                    (drop (slice_bound a n * prod_list rest) (elems x)))))"

text \<open>\<open>x[tf.newaxis, ...]\<close>.\<close>

definition expand_dims0 :: "'a tensor \<Rightarrow> 'a tensor" where
  "expand_dims0 x = Tensor (1 # shape x) (elems x)"

text \<open>\<open>tf.concat([x, y], axis=0)\<close>: both arrays have an axis 0 and agree on the others.\<close>

definition tconcat0 :: "'a tensor \<Rightarrow> 'a tensor \<Rightarrow> error + 'a tensor" where
  "tconcat0 x y =
     (case (shape x, shape y) of
        (n # rest, m # rest') \<Rightarrow>
          if rest = rest'
          then Inr (Tensor ((n + m) # rest) (elems x @ elems y))
          else Inl (InvalidArgumentError ''concat: shapes do not match'')
      | _ \<Rightarrow> Inl (InvalidArgumentError ''concat: scalar operand''))"

subsection \<open>Moving an axis\<close>

text \<open>
  An array of shape \<open>[o, n, m]\<close> read as \<open>[n, o, m]\<close>: the element at \<open>(t, a, i)\<close> of the
  result is the element at \<open>(a, t, i)\<close> of the argument.
\<close>

definition swap_blocks :: "nat \<Rightarrow> nat \<Rightarrow> nat \<Rightarrow> 'a list \<Rightarrow> 'a list" where
  "swap_blocks o' n m xs =
     map (\<lambda>k. xs ! ((((k div m) mod o') * n + k div (o' * m)) * m + k mod m))
       [0..<o' * n * m]"

definition to_front :: "nat \<Rightarrow> 'b list \<Rightarrow> 'b list" where
  "to_front p s = s ! p # take p s @ drop (Suc p) s"

definition from_front :: "nat \<Rightarrow> 'b list \<Rightarrow> 'b list" where
  "from_front p s = (case s of [] \<Rightarrow> [] | n # rest \<Rightarrow> take p rest @ n # drop p rest)"

definition axis_to_front :: "nat \<Rightarrow> 'a tensor \<Rightarrow> 'a tensor" where
  "axis_to_front p x =
     Tensor (to_front p (shape x))
       (swap_blocks (prod_list (take p (shape x))) (shape x ! p)
          (prod_list (drop (Suc p) (shape x))) (elems x))"

definition axis_from_front :: "nat \<Rightarrow> 'a tensor \<Rightarrow> 'a tensor" where
  "axis_from_front p x =
     Tensor (from_front p (shape x))
       (swap_blocks (hd (shape x)) (prod_list (take p (tl (shape x))))
          (prod_list (drop p (tl (shape x)))) (elems x))"

text \<open>
  Modelled from the spec: \<open>distribution_util.move_dimension\<close> is not part of the sources at
  hand. The spec has the step axis moved to the leftmost position and back, the other axes
  keeping their order; a negative index counts from the end of the shape, and an index
  outside the rank is an error of the transposition.
\<close>

definition move_dimension :: "'a tensor \<Rightarrow> int \<Rightarrow> int \<Rightarrow> error + 'a tensor" where
  "move_dimension x source_idx dest_idx =
     (let ndims = int (length (shape x));
          src = (if source_idx < 0 then ndims + source_idx else source_idx);
          dst = (if dest_idx < 0 then ndims + dest_idx else dest_idx)
      in if src < 0 \<or> ndims \<le> src \<or> dst < 0 \<or> ndims \<le> dst
         then Inl (InvalidArgumentError ''transpose: axis out of range'')
         else if src = dst then Inr x
         else Inr (axis_from_front (nat dst) (axis_to_front (nat src) x)))"

subsection \<open>Elementwise arithmetic and reductions\<close>

text \<open>
  Broadcasting of two shapes, aligned at the right: extents agree, or one of them is 1.
  The shapes are given reversed.
\<close>

fun broadcast_rev :: "nat list \<Rightarrow> nat list \<Rightarrow> nat list option" where
  "broadcast_rev [] bs = Some bs"
| "broadcast_rev as [] = Some as"
| "broadcast_rev (a # as) (b # bs) =
     (if a = b \<or> b = 1 then map_option ((#) a) (broadcast_rev as bs)
      else if a = 1 then map_option ((#) b) (broadcast_rev as bs)
      else None)"

definition broadcast_shapes :: "nat list \<Rightarrow> nat list \<Rightarrow> nat list option" where
  "broadcast_shapes s t = map_option rev (broadcast_rev (rev s) (rev t))"

text \<open>The multi-index of position \<open>k\<close> in a row-major array of shape \<open>s\<close>, and back.\<close>

fun unravel :: "nat list \<Rightarrow> nat \<Rightarrow> nat list" where
  "unravel [] k = []"
| "unravel (d # ds) k = (k div prod_list ds) mod d # unravel ds k"

fun ravel :: "nat list \<Rightarrow> nat list \<Rightarrow> nat" where
  "ravel (d # ds) (i # is) = i * prod_list ds + ravel ds is"
| "ravel _ _ = 0"

text \<open>
  The position, in an array of shape \<open>s\<close>, that broadcasting reads for the multi-index
  \<open>idx\<close> of the result: the trailing axes, and index 0 along an axis of extent 1.
\<close>

definition broadcast_pos :: "nat list \<Rightarrow> nat list \<Rightarrow> nat" where
  "broadcast_pos s idx =
     ravel s (map2 (\<lambda>d i. if d = 1 then 0 else i) s (drop (length idx - length s) idx))"

text \<open>
  A binary elementwise operation (\<open>x + y\<close>, \<open>x - y\<close>, \<open>x == y\<close>). Arrays of one shape are combined
  position by position; arrays of different shapes are broadcast, which fails when the
  shapes cannot be.
\<close>

definition tensor_binop ::
  "('a \<Rightarrow> 'b \<Rightarrow> 'c) \<Rightarrow> 'a tensor \<Rightarrow> 'b tensor \<Rightarrow> error + 'c tensor" where
  "tensor_binop f x y =
     (if shape x = shape y
      then Inr (Tensor (shape x) (map2 f (elems x) (elems y)))
      else
        (case broadcast_shapes (shape x) (shape y) of
           None \<Rightarrow> Inl (InvalidArgumentError ''incompatible shapes'')
         | Some s \<Rightarrow>
             Inr (Tensor s
                    (map (\<lambda>k. f (elems x ! broadcast_pos (shape x) (unravel s k))
                                 (elems y ! broadcast_pos (shape y) (unravel s k)))
                       [0..<prod_list s]))))"

definition tensor_add :: "'a::plus tensor \<Rightarrow> 'a tensor \<Rightarrow> error + 'a tensor" where
  "tensor_add = tensor_binop (+)"


text \<open>The slices of an array along its leading axis, each as its list of elements.\<close>

definition rows :: "'a tensor \<Rightarrow> 'a list list" where
  "rows x =
     map (\<lambda>i. take (prod_list (tl (shape x))) (drop (i * prod_list (tl (shape x))) (elems x)))
       [0..<hd (shape x)]"

text \<open>\<open>tf.reduce_sum(x, axis=0)\<close>: the slices are added up, from a tensor of zeros.\<close>

definition reduce_sum :: "'a::{zero,plus} tensor \<Rightarrow> error + 'a tensor" where
  "reduce_sum x =
     (case shape x of
        [] \<Rightarrow> Inl (InvalidArgumentError ''reduction axis 0 of a scalar'')
      | n # rest \<Rightarrow>
          Inr (Tensor rest (foldl (map2 (+)) (replicate (prod_list rest) 0) (rows x))))"

text \<open>
  Modelled from the spec: \<open>tfp_math.reduce_kahan_sum\<close> is not part of the sources at hand.
  The spec has compensated accumulation track a running round-off correction term next to
  the running total; the chain reads the total (\<open>.value\<close>) of the result.
\<close>

fun kahan_step :: "'a::{plus,minus} \<times> 'a \<Rightarrow> 'a \<Rightarrow> 'a \<times> 'a" where
  "kahan_step (running, correction) v =
     (let y = v - correction; t = running + y in (t, (t - running) - y))"

definition reduce_kahan_sum :: "'a::{zero,plus,minus} tensor \<Rightarrow> error + 'a tensor" where
  "reduce_kahan_sum x =
     (case shape x of
        [] \<Rightarrow> Inl (InvalidArgumentError ''reduction axis 0 of a scalar'')
      | n # rest \<Rightarrow>
          Inr (Tensor rest
                 (map fst (foldl (map2 kahan_step) (replicate (prod_list rest) (0, 0)) (rows x)))))"

section \<open>Structured state\<close>

text \<open>
  A state is a nest of tensors (\<open>tf.nest\<close>): a leaf, or a sequence of nests; a mapping is
  the sequence of its values in the order of its keys, which is the order in which
  \<open>tf.nest.flatten\<close> lists them. \<open>map_structure\<close> applies a function that may fail to
  every leaf, from left to right.
\<close>

datatype 'a nest = Leaf 'a | Nest "'a nest list"

fun flatten :: "'a nest \<Rightarrow> 'a list" where
  "flatten (Leaf a) = [a]"
| "flatten (Nest ns) = concat (map flatten ns)"

fun map_structure :: "('a \<Rightarrow> error + 'b) \<Rightarrow> 'a nest \<Rightarrow> error + 'b nest"
  and map_structure_list :: "('a \<Rightarrow> error + 'b) \<Rightarrow> 'a nest list \<Rightarrow> error + 'b nest list" where
  "map_structure f (Leaf a) = and_then (f a) (\<lambda>b. Inr (Leaf b))"
| "map_structure f (Nest ns) = and_then (map_structure_list f ns) (\<lambda>ms. Inr (Nest ms))"
| "map_structure_list f [] = Inr []"
| "map_structure_list f (n # ns) =
     and_then (map_structure f n) (\<lambda>m.
     and_then (map_structure_list f ns) (\<lambda>ms. Inr (m # ms)))"

fun zip_nest :: "'a nest \<Rightarrow> 'b nest \<Rightarrow> ('a \<times> 'b) nest option"
  and zip_nest_list :: "'a nest list \<Rightarrow> 'b nest list \<Rightarrow> ('a \<times> 'b) nest list option" where
  "zip_nest (Leaf a) (Leaf b) = Some (Leaf (a, b))"
| "zip_nest (Nest ns) (Nest ms) = map_option Nest (zip_nest_list ns ms)"
| "zip_nest (Leaf a) (Nest ms) = None"
| "zip_nest (Nest ns) (Leaf b) = None"
| "zip_nest_list [] [] = Some []"
| "zip_nest_list (n # ns) (m # ms) =
     (case zip_nest n m of
        None \<Rightarrow> None
      | Some k \<Rightarrow> map_option ((#) k) (zip_nest_list ns ms))"
| "zip_nest_list [] (m # ms) = None"
| "zip_nest_list (n # ns) [] = None"

text \<open>
  \<open>tf.nest.map_structure(f, a, b)\<close> first checks that the two nests have one structure,
  and then applies the function to the pairs of leaves.
\<close>

definition map_structure2 ::
  "('a \<Rightarrow> 'b \<Rightarrow> error + 'c) \<Rightarrow> 'a nest \<Rightarrow> 'b nest \<Rightarrow> error + 'c nest" where
  "map_structure2 f a b =
     (case zip_nest a b of
        None \<Rightarrow> Inl (ValueError ''The two structures don't have the same nested structure.'')
      | Some z \<Rightarrow> map_structure (\<lambda>(x, y). f x y) z)"

section \<open>Collaborators\<close>

text \<open>
  The part of the distribution interface that the chain consumes. A seed is a value of
  the type \<open>'s\<close>; \<open>dist_sample\<close> takes the sample shape and the seed. The event shape is
  a nest of shapes with the structure of a sample.
\<close>

record ('a, 's) distribution =
  dist_sample :: "nat list \<Rightarrow> 's \<Rightarrow> 'a tensor nest"
  dist_experimental_sample_and_log_prob :: "nat list \<Rightarrow> 's \<Rightarrow> 'a tensor nest \<times> 'a tensor"
  dist_log_prob :: "'a tensor nest \<Rightarrow> 'a tensor"
  dist_event_shape_tensor :: "nat list nest"

text \<open>
  \<open>samplers.split_seed(seed, n=2, salt=...)\<close> is a parameter of the sampling functions:
  it takes the salt, if any, and the seed, and returns the two child seeds.
\<close>

type_synonym 's split_seed = "string option \<Rightarrow> 's \<Rightarrow> 's \<times> 's"

section \<open>The chain\<close>

text \<open>
  The attributes that \<open>__init__\<close> stores. \<open>num_steps\<close> is the current value of the step
  count, and \<open>num_steps_is_ref\<close> tells whether it was given as a reference (a variable or
  a deferred tensor, read anew by each operation) rather than as a fixed value.
\<close>

record ('a, 's) markov_chain =
  initial_state_prior :: "('a, 's) distribution"
  transition_fn :: "int tensor \<Rightarrow> 'a tensor nest \<Rightarrow> error + ('a, 's) distribution"
  num_steps :: int
  num_steps_is_ref :: bool
  experimental_use_kahan_sum :: bool
  validate_args :: bool

definition sum_fn :: "('a::{zero,plus,minus}, 's) markov_chain \<Rightarrow> 'a tensor \<Rightarrow> error + 'a tensor" where
  "sum_fn mc = (if experimental_use_kahan_sum mc then reduce_kahan_sum else reduce_sum)"

definition step_axes :: "('a, 's) markov_chain \<Rightarrow> int nest" where
  "step_axes mc =
     map_nest (\<lambda>nd. - (1 + int nd))
       (map_nest length (dist_event_shape_tensor (initial_state_prior mc)))"

subsection \<open>Sampling\<close>

text \<open>
  \<open>getattr(dist, sample_attr)\<close>: either \<open>sample\<close>, or \<open>experimental_sample_and_log_prob\<close>,
  whose result is the pair of the sample and of its log-density, a nest of two parts.
\<close>

datatype sample_attr = Sample | Experimental_sample_and_log_prob

definition call_sample_attr ::
  "sample_attr \<Rightarrow> ('a, 's) distribution \<Rightarrow> nat list \<Rightarrow> 's \<Rightarrow> 'a tensor nest" where
  "call_sample_attr attr d sample_shape seed =
     (case attr of
        Sample \<Rightarrow> dist_sample d sample_shape seed
      | Experimental_sample_and_log_prob \<Rightarrow>
          (case dist_experimental_sample_and_log_prob d sample_shape seed of
             (x, lp) \<Rightarrow> Nest [x, Leaf lp]))"

text \<open>The parts \<open>x_and_lp[0]\<close> and \<open>x_and_lp[1]\<close> of such a pair.\<close>

fun pair_part0 :: "'a nest \<Rightarrow> error + 'a nest" where
  "pair_part0 (Nest (x # _)) = Inr x"
| "pair_part0 _ = Inl (IndexError ''not a pair'')"

fun pair_part1 :: "'a nest \<Rightarrow> error + 'a" where
  "pair_part1 (Nest (_ # Leaf lp # _)) = Inr lp"
| "pair_part1 _ = Inl (IndexError ''not a pair'')"

definition extract_sample_fn :: "bool \<Rightarrow> 'a nest \<Rightarrow> error + 'a nest" where
  "extract_sample_fn compute_log_prob r = (if compute_log_prob then pair_part0 r else Inr r)"

definition make_sample_loop_body ::
  "'s split_seed \<Rightarrow> (int tensor \<Rightarrow> 'a tensor nest \<Rightarrow> error + ('a, 's) distribution) \<Rightarrow>
   sample_attr \<Rightarrow> ('a tensor nest \<Rightarrow> error + 'a tensor nest) \<Rightarrow>
   's \<times> 'a tensor nest \<Rightarrow> int \<Rightarrow> error + 's \<times> 'a tensor nest" where
  "make_sample_loop_body split_seed transition attr extract_sample =
     (\<lambda>(seed, previous_result) step.
        and_then (extract_sample previous_result) (\<lambda>state.
        case split_seed None seed of
          (current_step_seed, seed') \<Rightarrow>
            and_then (transition (scalar (step - 1)) state) (\<lambda>d.
            Inr (seed', call_sample_attr attr d [] current_step_seed))))"

text \<open>
  \<open>tf.scan(fn, elems, initializer)\<close>: the loop body is run on each element in turn, from
  the initializer, each result being the accumulator of the next run, and the results are
  stacked, part by part, on a new leading axis. With no element, each stack has the
  shape of its part of the initializer behind an axis of extent 0.
\<close>

fun scan_steps :: "('acc \<Rightarrow> 'e \<Rightarrow> error + 'acc) \<Rightarrow> 'acc \<Rightarrow> 'e list \<Rightarrow> error + 'acc list" where
  "scan_steps body acc [] = Inr []"
| "scan_steps body acc (e # es) =
     and_then (body acc e) (\<lambda>acc'.
     and_then (scan_steps body acc' es) (\<lambda>rest. Inr (acc' # rest)))"

definition empty_stack :: "'a tensor \<Rightarrow> 'a tensor" where
  "empty_stack x = Tensor (0 # shape x) []"

fun stack_results :: "'a tensor nest \<Rightarrow> 'a tensor nest list \<Rightarrow> error + 'a tensor nest" where
  "stack_results stacked [] = Inr stacked"
| "stack_results stacked (r # rs) =
     and_then (map_structure2 (\<lambda>a b. tconcat0 a (expand_dims0 b)) stacked r) (\<lambda>stacked'.
     stack_results stacked' rs)"

definition tf_scan ::
  "('s \<times> 'a tensor nest \<Rightarrow> int \<Rightarrow> error + 's \<times> 'a tensor nest) \<Rightarrow> int tensor \<Rightarrow>
   's \<times> 'a tensor nest \<Rightarrow> error + 's list \<times> 'a tensor nest" where
  "tf_scan body xs initializer =
     and_then (scan_steps body initializer (elems xs)) (\<lambda>outs.
     and_then (stack_results (map_nest empty_stack (snd initializer)) (map snd outs)) (\<lambda>stacked.
     Inr (map fst outs, stacked)))"

definition extract_lp_fn ::
  "('a::{zero,plus,minus}, 's) markov_chain \<Rightarrow> bool \<Rightarrow> 'a tensor nest \<Rightarrow> error + 'a tensor" where
  "extract_lp_fn mc compute_log_prob r =
     (if compute_log_prob then and_then (pair_part1 r) (sum_fn mc) else Inr (scalar 0))"

definition sample_and_log_prob_helper ::
  "'s split_seed \<Rightarrow> ('a::{zero,plus,minus}, 's) markov_chain \<Rightarrow> nat list \<Rightarrow> 's \<Rightarrow> bool \<Rightarrow>
   error + 'a tensor nest \<times> 'a tensor" where
  "sample_and_log_prob_helper split_seed mc sample_shape seed compute_log_prob =
     (case split_seed (Some ''markov_chain_sample'') seed of
        (prior_seed, loop_seed) \<Rightarrow>
          let attr = (if compute_log_prob then Experimental_sample_and_log_prob else Sample);
              prior_result = call_sample_attr attr (initial_state_prior mc) sample_shape prior_seed;
              loop_body = make_sample_loop_body split_seed (transition_fn mc) attr
                            (extract_sample_fn compute_log_prob)
          in and_then (tf_range 1 (num_steps mc)) (\<lambda>steps.
             and_then (tf_scan loop_body steps (loop_seed, prior_result)) (\<lambda>(_, results).
             and_then (map_structure2 (\<lambda>a b. tconcat0 (expand_dims0 a) b) prior_result results)
               (\<lambda>results'.
             and_then (extract_sample_fn compute_log_prob results') (\<lambda>samples.
             and_then (extract_lp_fn mc compute_log_prob results') (\<lambda>lp.
             and_then (map_structure2 (\<lambda>x axis. move_dimension x 0 axis) samples (step_axes mc))
               (\<lambda>samples'.
             Inr (samples', lp))))))))"

definition sample_n ::
  "'s split_seed \<Rightarrow> ('a::{zero,plus,minus}, 's) markov_chain \<Rightarrow> nat list \<Rightarrow> 's \<Rightarrow>
   error + 'a tensor nest" where
  "sample_n split_seed mc sample_shape seed =
     and_then (sample_and_log_prob_helper split_seed mc sample_shape seed False)
       (\<lambda>(samples, _). Inr samples)"

definition sample_and_log_prob ::
  "'s split_seed \<Rightarrow> ('a::{zero,plus,minus}, 's) markov_chain \<Rightarrow> nat list \<Rightarrow> 's \<Rightarrow>
   error + 'a tensor nest \<times> 'a tensor" where
  "sample_and_log_prob split_seed mc sample_shape seed =
     sample_and_log_prob_helper split_seed mc sample_shape seed True"

subsection \<open>Assertions\<close>

text \<open>
  An assertion is the result of running it. A function of the source that returns a list
  of assertions returns the list of these results; \<open>tf.control_dependencies\<close> runs them
  before the computation that they guard, and the first failure is the error of the whole.
\<close>

type_synonym assertion = "error + unit"

text \<open>
  \<open>assert_equal(x, y)\<close> compares two tensors as \<open>x == y\<close> does, elementwise and under
  broadcasting, and holds when every comparison does: so it holds when broadcasting
  leaves nothing to compare. Tensors that cannot be broadcast are an error of the
  comparison.
\<close>

definition assert_equal :: "'b tensor \<Rightarrow> 'b tensor \<Rightarrow> string \<Rightarrow> assertion" where
  "assert_equal x y message =
     and_then (tensor_binop (=) x y) (\<lambda>same.
     if list_all (\<lambda>b. b) (elems same) then Inr () else Inl (InvalidArgumentError message))"

definition assert_greater_equal :: "int \<Rightarrow> int \<Rightarrow> string \<Rightarrow> assertion" where
  "assert_greater_equal a b message = (if b \<le> a then Inr () else Inl (InvalidArgumentError message))"

fun control_dependencies :: "assertion list \<Rightarrow> error + unit" where
  "control_dependencies [] = Inr ()"
| "control_dependencies (a # as) = and_then a (\<lambda>_. control_dependencies as)"

text \<open>
  The static shape of a tensor (\<open>x.shape\<close> in the source, as opposed to \<open>tf.shape(x)\<close>) is
  what is known of its shape before it is computed: \<open>None\<close> is an unknown rank, and a
  dimension \<open>None\<close> is an unknown extent. What is known of which tensor is up to the array
  engine and to the mode in which it runs, so the functions that read \<open>x.shape\<close> take it as
  a parameter, \<open>static_shape\<close>. A static shape describes a runtime shape when it leaves the
  rank unknown, or has the same rank and each extent is unknown or the actual one.
\<close>

type_synonym tshape = "nat option list option"

definition static_describes :: "tshape \<Rightarrow> nat list \<Rightarrow> bool" where
  "static_describes st s =
     (case st of
        None \<Rightarrow> True
      | Some ds \<Rightarrow> list_all2 (\<lambda>d n. d = None \<or> d = Some n) ds s)"

text \<open>
  Modelled from the spec: \<open>tensorshape_util\<close> is not part of the sources at hand. Two
  static shapes are compatible when a tensor can have both: one of the ranks is unknown,
  or the ranks agree and so do the extents that both shapes know. A static shape is fully
  defined when its rank and all its extents are known.
\<close>

fun dims_compatible :: "nat option list \<Rightarrow> nat option list \<Rightarrow> bool" where
  "dims_compatible [] [] = True"
| "dims_compatible (Some a # as) (Some b # bs) = (a = b \<and> dims_compatible as bs)"
| "dims_compatible (_ # as) (_ # bs) = dims_compatible as bs"
| "dims_compatible _ _ = False"

definition is_compatible_with :: "tshape \<Rightarrow> tshape \<Rightarrow> bool" where
  "is_compatible_with s t =
     (case (s, t) of (Some ds, Some es) \<Rightarrow> dims_compatible ds es | _ \<Rightarrow> True)"

definition is_fully_defined :: "tshape \<Rightarrow> bool" where
  "is_fully_defined s = (case s of None \<Rightarrow> False | Some ds \<Rightarrow> list_all (\<lambda>d. d \<noteq> None) ds)"

text \<open>
  \<open>_assert_same_shape\<close>: incompatible static shapes raise at once; otherwise the runtime
  shapes \<open>tf.shape(x)\<close> and \<open>tf.shape(y)\<close> are compared by \<open>assert_equal\<close>, an assertion
  that is made only under \<open>validate_args\<close> and only when the static shapes do not settle
  the matter. (The source appends the two shapes to the message of the \<open>ValueError\<close>; the
  model keeps the message alone.)
\<close>

definition assert_same_shape ::
  "('a tensor \<Rightarrow> tshape) \<Rightarrow> 'a tensor \<Rightarrow> 'a tensor \<Rightarrow> string \<Rightarrow> bool \<Rightarrow>
   error + assertion list" where
  "assert_same_shape static_shape x y message validate =
     (if \<not> is_compatible_with (static_shape x) (static_shape y)
      then Inl (ValueError message)
      else Inr (if validate \<and> \<not> (is_fully_defined (static_shape x) \<and>
                                   is_fully_defined (static_shape y))
                then [assert_equal (tf_shape x) (tf_shape y) message]
                else []))"

definition parameter_control_dependencies :: "('a, 's) markov_chain \<Rightarrow> bool \<Rightarrow> assertion list" where
  "parameter_control_dependencies mc is_init =
     (if \<not> validate_args mc then []
      else if is_init \<noteq> num_steps_is_ref mc
           then [assert_greater_equal (num_steps mc) 1 ''Argument `num_steps` must be at least 1.'']
           else [])"

text \<open>\<open>ps.shape(x)[k]\<close>, the index \<open>k\<close> counting from the end when it is negative.\<close>

definition shape_at :: "'a tensor \<Rightarrow> int \<Rightarrow> error + int" where
  "shape_at x k =
     (let r = int (length (shape x)); i = (if k < 0 then r + k else k)
      in if 0 \<le> i \<and> i < r then Inr (int (shape x ! nat i))
         else Inl (IndexError ''shape index out of range''))"

definition sample_control_dependencies ::
  "('a, 's) markov_chain \<Rightarrow> 'a tensor nest \<Rightarrow> error + assertion list" where
  "sample_control_dependencies mc x =
     (if \<not> validate_args mc then Inr []
      else and_then (map_structure2 shape_at x (step_axes mc)) (\<lambda>parts.
           Inr (map (\<lambda>n. assert_equal (scalar n) (scalar (num_steps mc))
                           ''Input shape does not match the expected num_steps.'')
                  (flatten parts))))"

subsection \<open>Log-density\<close>

definition log_prob_parts ::
  "('a, 's) markov_chain \<Rightarrow> 'a tensor nest \<Rightarrow> error + 'a tensor \<times> 'a tensor" where
  "log_prob_parts mc x =
     and_then (map_structure2 (\<lambda>t ax. move_dimension t ax 0) x (step_axes mc)) (\<lambda>x'.
     and_then (map_structure (tindex 0) x') (\<lambda>x0.
     let prior_lp = dist_log_prob (initial_state_prior mc) x0 in
     and_then (case flatten x' of
                 [] \<Rightarrow> Inl (IndexError ''list index out of range'')
               | t # _ \<Rightarrow> (case shape t of
                             [] \<Rightarrow> Inl (IndexError ''list index out of range'')
                           | n # _ \<Rightarrow> Inr (int n))) (\<lambda>n.
     and_then (tf_range 0 (n - 1)) (\<lambda>steps.
     and_then (map_structure (tslice 0 (n - 1)) x') (\<lambda>previous.
     and_then (transition_fn mc steps previous) (\<lambda>d.
     and_then (map_structure (tslice 1 n) x') (\<lambda>current.
     Inr (prior_lp, dist_log_prob d current))))))))"

definition shape_message :: string where
  "shape_message =
     ''The shape of the `log_prob` returned by the transition distribution does not match the `log_prob` from the initial state prior. This indicates that the transition distribution's batch shape is incorrect. Please ensure that `initial_state_prior.batch_shape == transition_fn(0, initial_state_prior.sample()).batch_shape`.''"

definition log_prob ::
  "('a tensor \<Rightarrow> tshape) \<Rightarrow> ('a::{zero,plus,minus}, 's) markov_chain \<Rightarrow> 'a tensor nest \<Rightarrow>
   error + 'a tensor" where
  "log_prob static_shape mc x =
     and_then (log_prob_parts mc x) (\<lambda>(prior_lp, transition_lps).
     and_then (sum_fn mc transition_lps) (\<lambda>transition_lp.
     and_then (assert_same_shape static_shape prior_lp transition_lp shape_message
                 (validate_args mc))
       (\<lambda>assertions.
     and_then (control_dependencies assertions) (\<lambda>_.
     tensor_add prior_lp transition_lp))))"


subsection \<open>The public operations\<close>

text \<open>
  Modelled from the spec: the base class of the distributions, which dispatches the public
  operations to the methods above, is not part of the sources at hand. By the spec a
  failure surfaces at the call where it is detected: construction runs the parameter
  assertions with \<open>is_init\<close> set, and each later operation runs them with \<open>is_init\<close>
  cleared, \<open>log_prob\<close> running the assertions on its argument as well.
\<close>

definition MarkovChain_init ::
  "('a, 's) distribution \<Rightarrow> (int tensor \<Rightarrow> 'a tensor nest \<Rightarrow> error + ('a, 's) distribution) \<Rightarrow>
   int \<Rightarrow> bool \<Rightarrow> bool \<Rightarrow> bool \<Rightarrow> error + ('a, 's) markov_chain" where
  "MarkovChain_init prior transition n n_is_ref use_kahan_sum validate =
     (let mc = \<lparr>initial_state_prior = prior, transition_fn = transition, num_steps = n,
                 num_steps_is_ref = n_is_ref, experimental_use_kahan_sum = use_kahan_sum,
                 validate_args = validate\<rparr>
      in and_then (control_dependencies (parameter_control_dependencies mc True)) (\<lambda>_. Inr mc))"

definition Distribution_sample ::
  "'s split_seed \<Rightarrow> ('a::{zero,plus,minus}, 's) markov_chain \<Rightarrow> nat list \<Rightarrow> 's \<Rightarrow>
   error + 'a tensor nest" where
  "Distribution_sample split_seed mc sample_shape seed =
     and_then (control_dependencies (parameter_control_dependencies mc False)) (\<lambda>_.
     sample_n split_seed mc sample_shape seed)"

definition Distribution_log_prob ::
  "('a tensor \<Rightarrow> tshape) \<Rightarrow> ('a::{zero,plus,minus}, 's) markov_chain \<Rightarrow> 'a tensor nest \<Rightarrow>
   error + 'a tensor" where
  "Distribution_log_prob static_shape mc x =
     and_then (control_dependencies (parameter_control_dependencies mc False)) (\<lambda>_.
     and_then (sample_control_dependencies mc x) (\<lambda>value_assertions.
     and_then (control_dependencies value_assertions) (\<lambda>_.
     log_prob static_shape mc x)))"

section \<open>Auxiliary notions\<close>

text \<open>The position of an axis given by an index that may count from the end.\<close>

definition norm_axis :: "nat \<Rightarrow> int \<Rightarrow> int" where
  "norm_axis r ax = (if ax < 0 then int r + ax else ax)"

text \<open>
  A nest of tensors is the stack of a list of nests when indexing its leading axis at
  \<open>t\<close> gives the \<open>t\<close>-th nest of the list, each leaf being well formed with a leading
  axis as long as the list.
\<close>

definition is_stack :: "'a tensor nest \<Rightarrow> 'a tensor nest list \<Rightarrow> bool" where
  "is_stack X xs \<longleftrightarrow>
     (\<forall>t<length xs. map_structure (tindex t) X = Inr (xs ! t)) \<and>
     pred_nest (\<lambda>a. wf_tensor a \<and> shape a \<noteq> [] \<and> hd (shape a) = length xs) X"

section \<open>Example chains\<close>

text \<open>
  A walk on the integers, with natural numbers as seeds. The prior draws the seed itself,
  with log-density five times the state; a step adds its seed to the previous state, and
  has the log-density \<open>y - 2 x - t\<close> of moving from \<open>x\<close> to \<open>y\<close> at step \<open>t\<close>. All of it is
  elementwise, each step repeated over the elements of its state, so that the transition
  takes a scalar step with one state as well as a vector of steps with a stack of states.
\<close>

definition example_split :: "nat split_seed" where
  "example_split salt s = (case salt of None \<Rightarrow> (2 * s + 1, 2 * s + 2) | Some _ \<Rightarrow> (3 * s + 1, 3 * s + 2))"

definition constant_tensor :: "nat list \<Rightarrow> 'a \<Rightarrow> 'a tensor" where
  "constant_tensor s v = Tensor s (replicate (prod_list s) v)"

definition leaf_map :: "('a tensor \<Rightarrow> 'a tensor) \<Rightarrow> 'a tensor nest \<Rightarrow> 'a tensor" where
  "leaf_map f y = (case y of Leaf t \<Rightarrow> f t | Nest _ \<Rightarrow> Tensor [] [])"

definition example_prior :: "(int, nat) distribution" where
  "example_prior =
     \<lparr>dist_sample = (\<lambda>sample_shape seed. Leaf (constant_tensor sample_shape (int seed))),
      dist_experimental_sample_and_log_prob =
        (\<lambda>sample_shape seed. (Leaf (constant_tensor sample_shape (int seed)),
                               constant_tensor sample_shape (5 * int seed))),
      dist_log_prob = leaf_map (\<lambda>y. Tensor (shape y) (map (\<lambda>v. 5 * v) (elems y))),
      dist_event_shape_tensor = Leaf []\<rparr>"

definition example_step_sample :: "int tensor \<Rightarrow> nat \<Rightarrow> int tensor" where
  "example_step_sample x seed = Tensor (shape x) (map (\<lambda>v. v + int seed) (elems x))"

definition example_step_log_prob :: "int tensor \<Rightarrow> int tensor \<Rightarrow> int tensor \<Rightarrow> int tensor" where
  "example_step_log_prob steps x y =
     Tensor (shape y)
       (map (\<lambda>(v, u, t). v - 2 * u - t)
          (zip (elems y) (zip (elems x)
             (concat (map (replicate (length (elems y) div length (elems steps))) (elems steps))))))"

definition example_transition :: "int tensor \<Rightarrow> int tensor nest \<Rightarrow> error + (int, nat) distribution" where
  "example_transition steps state =
     (case state of
        Leaf x \<Rightarrow>
          Inr \<lparr>dist_sample = (\<lambda>_ seed. Leaf (example_step_sample x seed)),
               dist_experimental_sample_and_log_prob =
                 (\<lambda>_ seed. (Leaf (example_step_sample x seed),
                             example_step_log_prob steps x (example_step_sample x seed))),
               dist_log_prob = leaf_map (example_step_log_prob steps x),
               dist_event_shape_tensor = Leaf []\<rparr>
      | Nest _ \<Rightarrow> Inl (CollaboratorError ''the state is a single tensor''))"

definition example_chain :: "int \<Rightarrow> bool \<Rightarrow> bool \<Rightarrow> bool \<Rightarrow> (int, nat) markov_chain" where
  "example_chain n n_is_ref use_kahan_sum validate =
     \<lparr>initial_state_prior = example_prior, transition_fn = example_transition, num_steps = n,
      num_steps_is_ref = n_is_ref, experimental_use_kahan_sum = use_kahan_sum,
      validate_args = validate\<rparr>"

text \<open>
  A transition whose log-density has a batch axis of extent 2 that the prior does not
  have.
\<close>

definition wide_transition :: "int tensor \<Rightarrow> int tensor nest \<Rightarrow> error + (int, nat) distribution" where
  "wide_transition steps state =
     Inr \<lparr>dist_sample = (\<lambda>_ seed. state),
          dist_experimental_sample_and_log_prob = (\<lambda>_ seed. (state, constant_tensor [2] 0)),
          dist_log_prob = (\<lambda>y. constant_tensor (shape steps @ [2]) 1),
          dist_event_shape_tensor = Leaf []\<rparr>"

definition wide_chain :: "bool \<Rightarrow> (int, nat) markov_chain" where
  "wide_chain validate =
     \<lparr>initial_state_prior = example_prior, transition_fn = wide_transition, num_steps = 2,
      num_steps_is_ref = False, experimental_use_kahan_sum = False, validate_args = validate\<rparr>"

text \<open>What the array engine knows statically: everything, or nothing.\<close>

definition eager_static :: "'a tensor \<Rightarrow> tshape" where
  "eager_static t = Some (map Some (shape t))"

definition unknown_static :: "'a tensor \<Rightarrow> tshape" where
  "unknown_static t = None"

text \<open>
  The first statement of \<open>log_prob_parts\<close>: the trajectory with the step axis of each leaf
  moved to the front.
\<close>

definition step_major :: "('a, 's) markov_chain \<Rightarrow> 'a tensor nest \<Rightarrow> error + 'a tensor nest" where
  "step_major mc x = map_structure2 (\<lambda>t ax. move_dimension t ax 0) x (step_axes mc)"

text \<open>Every leaf has a leading axis of extent \<open>n\<close>.\<close>

definition leading_extent :: "nat \<Rightarrow> 'a tensor nest \<Rightarrow> bool" where
  "leading_extent n X = pred_nest (\<lambda>a. shape a \<noteq> [] \<and> hd (shape a) = n) X"

text \<open>
  The transition log-densities of a step-major trajectory \<open>X\<close> of \<open>n\<close> steps. As
  \<open>log_prob_parts\<close> computes them: by one call of the transition function on
  \<open>tf.range(n-1)\<close> and the slices \<open>x[:n-1]\<close> of each leaf, evaluated at the slices
  \<open>x[1:n]\<close>. And in the words of the spec, for one step \<open>t\<close>: as
  \<open>transition(t, x\<^sub>t).log_prob(x\<^sub>t\<^sub>+\<^sub>1)\<close>, the states being read off the trajectory by
  indexing.
\<close>

definition vectorized_lps ::
  "(int tensor \<Rightarrow> 'a tensor nest \<Rightarrow> error + ('a, 's) distribution) \<Rightarrow> 'a tensor nest \<Rightarrow> nat \<Rightarrow>
   error + 'a tensor" where
  "vectorized_lps transition X n =
     and_then (tf_range 0 (int n - 1)) (\<lambda>steps.
     and_then (map_structure (tslice 0 (int n - 1)) X) (\<lambda>previous.
     and_then (transition steps previous) (\<lambda>d.
     and_then (map_structure (tslice 1 (int n)) X) (\<lambda>current.
     Inr (dist_log_prob d current)))))"

definition stepwise_lp ::
  "(int tensor \<Rightarrow> 'a tensor nest \<Rightarrow> error + ('a, 's) distribution) \<Rightarrow> 'a tensor nest \<Rightarrow> nat \<Rightarrow>
   error + 'a tensor" where
  "stepwise_lp transition X t =
     and_then (map_structure (tindex t) X) (\<lambda>previous.
     and_then (transition (scalar (int t)) previous) (\<lambda>d.
     and_then (map_structure (tindex (Suc t)) X) (\<lambda>current.
     Inr (dist_log_prob d current))))"

text \<open>
  Static shapes are sound when the static shape of each tensor describes its runtime
  shape.
\<close>

definition sound_static :: "('a tensor \<Rightarrow> tshape) \<Rightarrow> bool" where
  "sound_static static_shape = (\<forall>t. static_describes (static_shape t) (shape t))"

text \<open>The tensor of zeros of a shape.\<close>

definition zeros :: "nat list \<Rightarrow> 'a::zero tensor" where
  "zeros s = Tensor s (replicate (prod_list s) 0)"

text \<open>
  The walk on the integers with a transition that takes no empty vector of steps, in a
  chain of one step.
\<close>

definition strict_transition :: "int tensor \<Rightarrow> int tensor nest \<Rightarrow> error + (int, nat) distribution" where
  "strict_transition steps state =
     (if elems steps = [] then Inl (CollaboratorError ''no step to take'')
      else example_transition steps state)"

definition strict_chain :: "(int, nat) markov_chain" where
  "strict_chain =
     \<lparr>initial_state_prior = example_prior, transition_fn = strict_transition, num_steps = 1,
      num_steps_is_ref = False, experimental_use_kahan_sum = False, validate_args = False\<rparr>"

text \<open>Running a function on each index of a list in turn, up to the first failure.\<close>

fun collect :: "(nat \<Rightarrow> error + 'b) \<Rightarrow> nat list \<Rightarrow> error + 'b list" where
  "collect f [] = Inr []"
| "collect f (t # ts) = and_then (f t) (\<lambda>r. and_then (collect f ts) (\<lambda>rs. Inr (r # rs)))"

text \<open>
  The recurrence of the sampler in the words of the spec, for the plain \<open>sample\<close>: the
  loop seed that remains after step \<open>t\<close> and the draw \<open>x\<^sub>t\<close>. The seed is split into the
  prior seed and the loop seed, and \<open>x\<^sub>0\<close> is drawn from the prior with the prior seed; for
  \<open>t \<ge> 1\<close> the loop seed is split into the step seed and the new loop seed, and \<open>x\<^sub>t\<close> is
  drawn from \<open>transition(t-1, x\<^sub>t\<^sub>-\<^sub>1)\<close> with the step seed.
\<close>

fun chain_draw ::
  "'s split_seed \<Rightarrow> ('a, 's) markov_chain \<Rightarrow> nat list \<Rightarrow> 's \<Rightarrow> nat \<Rightarrow> error + 's \<times> 'a tensor nest" where
  "chain_draw split_seed mc sample_shape seed 0 =
     (case split_seed (Some ''markov_chain_sample'') seed of
        (prior_seed, loop_seed) \<Rightarrow>
          Inr (loop_seed, dist_sample (initial_state_prior mc) sample_shape prior_seed))"
| "chain_draw split_seed mc sample_shape seed (Suc t) =
     and_then (chain_draw split_seed mc sample_shape seed t) (\<lambda>(loop_seed, x).
     case split_seed None loop_seed of
       (step_seed, loop_seed') \<Rightarrow>
         and_then (transition_fn mc (scalar (int t)) x) (\<lambda>d.
         Inr (loop_seed', dist_sample d [] step_seed)))"

text \<open>
  The same recurrence for either attribute of the distributions, as the helper runs it:
  the results are samples, or pairs of a sample and its log-density.
\<close>

fun chain_result ::
  "'s split_seed \<Rightarrow> ('a, 's) markov_chain \<Rightarrow> bool \<Rightarrow> nat list \<Rightarrow> 's \<Rightarrow> nat \<Rightarrow>
   error + 's \<times> 'a tensor nest" where
  "chain_result split_seed mc compute_log_prob sample_shape seed 0 =
     (case split_seed (Some ''markov_chain_sample'') seed of
        (prior_seed, loop_seed) \<Rightarrow>
          Inr (loop_seed,
               call_sample_attr
                 (if compute_log_prob then Experimental_sample_and_log_prob else Sample)
                 (initial_state_prior mc) sample_shape prior_seed))"
| "chain_result split_seed mc compute_log_prob sample_shape seed (Suc t) =
     and_then (chain_result split_seed mc compute_log_prob sample_shape seed t) (\<lambda>acc.
       make_sample_loop_body split_seed (transition_fn mc)
         (if compute_log_prob then Experimental_sample_and_log_prob else Sample)
         (extract_sample_fn compute_log_prob) acc (int (Suc t)))"

text \<open>
  The results of the steps stacked on a new leading axis, as the helper does it: the
  results of the loop are stacked from the empty stack, and the first result is put in
  front of them.
\<close>

fun stack_draws :: "'a tensor nest list \<Rightarrow> error + 'a tensor nest" where
  "stack_draws [] = Inl (ValueError ''nothing to stack'')"
| "stack_draws (r0 # rs) =
     and_then (stack_results (map_nest empty_stack r0) rs) (\<lambda>stacked.
     map_structure2 (\<lambda>a b. tconcat0 (expand_dims0 a) b) r0 stacked)"

text \<open>
  The log-density of the draw \<open>x\<^sub>t\<close> of the recurrence under the distribution that it is
  drawn from: the prior for \<open>x\<^sub>0\<close>, and \<open>transition(t-1, x\<^sub>t\<^sub>-\<^sub>1)\<close> for a later one.
\<close>

fun draw_lp ::
  "'s split_seed \<Rightarrow> ('a, 's) markov_chain \<Rightarrow> nat list \<Rightarrow> 's \<Rightarrow> nat \<Rightarrow> error + 'a tensor" where
  "draw_lp split_seed mc sample_shape seed 0 =
     and_then (chain_draw split_seed mc sample_shape seed 0) (\<lambda>(_, x).
     Inr (dist_log_prob (initial_state_prior mc) x))"
| "draw_lp split_seed mc sample_shape seed (Suc t) =
     and_then (chain_draw split_seed mc sample_shape seed t) (\<lambda>(_, x).
     and_then (transition_fn mc (scalar (int t)) x) (\<lambda>d.
     and_then (chain_draw split_seed mc sample_shape seed (Suc t)) (\<lambda>(_, x').
     Inr (dist_log_prob d x'))))"

text \<open>
  What the chain asks of a distribution: its joint sample and log-density are its sample
  and the log-density of that sample, and both are well-formed tensors. A chain is proper
  when its prior is, and so is each distribution that its transition function returns for
  a single step and a well-formed state.
\<close>

definition proper_dist :: "('a, 's) distribution \<Rightarrow> bool" where
  "proper_dist d =
     (\<forall>sample_shape seed.
        dist_experimental_sample_and_log_prob d sample_shape seed =
          (dist_sample d sample_shape seed, dist_log_prob d (dist_sample d sample_shape seed)) \<and>
        pred_nest wf_tensor (dist_sample d sample_shape seed) \<and>
        wf_tensor (dist_log_prob d (dist_sample d sample_shape seed)))"

definition proper_chain :: "('a, 's) markov_chain \<Rightarrow> bool" where
  "proper_chain mc =
     (proper_dist (initial_state_prior mc) \<and>
      (\<forall>t x d. pred_nest wf_tensor x \<and> transition_fn mc (scalar t) x = Inr d \<longrightarrow> proper_dist d))"

text \<open>
  A nest \<open>A\<close> holds the \<open>k\<close> slices of the step-major trajectory \<open>X\<close> from the step \<open>a\<close>
  on: leaf by leaf, it is a well-formed tensor of leading extent \<open>k\<close> whose slice at \<open>i\<close>
  is the slice of \<open>X\<close> at \<open>a + i\<close>.
\<close>

definition is_rows :: "'a tensor nest \<Rightarrow> 'a tensor nest \<Rightarrow> nat \<Rightarrow> nat \<Rightarrow> bool" where
  "is_rows A X a k =
     rel_nest (\<lambda>u x. wf_tensor u \<and> shape u = k # tl (shape x) \<and>
                      (\<forall>i<k. tindex i u = tindex (a + i) x)) A X"

text \<open>
  What the chain asks of the batching of a transition function, for a step-major
  trajectory \<open>X\<close> of \<open>n\<close> steps and the batch shape \<open>s\<close>. Let \<open>A\<close> hold the slices
  \<open>x\<^sub>0 .. x\<^sub>n\<^sub>-\<^sub>2\<close> of \<open>X\<close> and \<open>B\<close> the slices \<open>x\<^sub>1 .. x\<^sub>n\<^sub>-\<^sub>1\<close>. The transition function
  vectorizes when its call on the vector of the steps \<open>0 .. n-2\<close> and on \<open>A\<close> returns a
  distribution whose log-density at \<open>B\<close> is a well-formed tensor of shape \<open>[n-1] + s\<close>, the
  slice of which at each \<open>t\<close> is the log-density \<open>transition(t, x\<^sub>t).log_prob(x\<^sub>t\<^sub>+\<^sub>1)\<close> of the
  single step.
\<close>

definition vectorizes ::
  "(int tensor \<Rightarrow> 'a tensor nest \<Rightarrow> error + ('a, 's) distribution) \<Rightarrow> 'a tensor nest \<Rightarrow> nat \<Rightarrow>
   'a tensor nest \<Rightarrow> 'a tensor nest \<Rightarrow> nat list \<Rightarrow> bool" where
  "vectorizes transition X n A B s =
     (is_rows A X 0 (n - 1) \<and> is_rows B X 1 (n - 1) \<and>
      (case transition (Tensor [n - 1] (map int [0..<n - 1])) A of
         Inl _ \<Rightarrow> False
       | Inr d \<Rightarrow>
           wf_tensor (dist_log_prob d B) \<and> shape (dist_log_prob d B) = (n - 1) # s \<and>
           (\<forall>t<n - 1. stepwise_lp transition X t = tindex t (dist_log_prob d B))))"

section \<open>An arithmetic with round-off\<close>

text \<open>
  Integers whose sums and differences are cut to a multiple of ten from a hundred on: a
  small arithmetic in which an addition loses its low digit, and in which the plain and
  the compensated sum of a tensor differ.
\<close>

definition coarse_round :: "int \<Rightarrow> int" where
  "coarse_round v = (if \<bar>v\<bar> < 100 then v else 10 * (v div 10))"

datatype coarse = Coarse (amount: int)

instantiation coarse :: "{zero, plus, minus}"
begin

definition zero_coarse :: coarse where
  "zero_coarse = Coarse 0"

definition plus_coarse :: "coarse \<Rightarrow> coarse \<Rightarrow> coarse" where
  "plus_coarse a b = Coarse (coarse_round (amount a + amount b))"

definition minus_coarse :: "coarse \<Rightarrow> coarse \<Rightarrow> coarse" where
  "minus_coarse a b = Coarse (coarse_round (amount a - amount b))"

instance ..

end



section \<open>Sampling over collaborators that need not be functions\<close>

text \<open>
  The sampler once more, as a relation between its arguments and the outcomes that are
  possible, over collaborators that may draw on a state of their own. \<open>split\<close> relates a
  salt and a seed to each pair of child seeds that a call of \<open>split_seed\<close> may return, and
  \<open>draw\<close> relates a distribution, a sample shape and a seed to each value that a call of
  its \<open>sample\<close> may return. The seed is optional, as it is in the source: a call with
  \<open>seed=None\<close> leaves the randomness to the collaborator. The transition function is a
  pure function, as the spec has it. The loop of \<open>tf.scan\<close> over the steps and the whole
  of \<open>sample\<close> follow the source statement by statement.
\<close>

type_synonym 's split_rel = "string option \<Rightarrow> 's option \<Rightarrow> 's \<times> 's \<Rightarrow> bool"

type_synonym ('a, 's) draw_rel =
  "('a, 's) distribution \<Rightarrow> nat list \<Rightarrow> 's option \<Rightarrow> 'a tensor nest \<Rightarrow> bool"

inductive draws_rel ::
  "'s split_rel \<Rightarrow> ('a, 's) draw_rel \<Rightarrow> ('a, 's) markov_chain \<Rightarrow> 's \<Rightarrow> 'a tensor nest \<Rightarrow>
   int list \<Rightarrow> error + 'a tensor nest list \<Rightarrow> bool"
  for split :: "'s split_rel" and draw :: "('a, 's) draw_rel" and mc :: "('a, 's) markov_chain"
  where
  finished: "draws_rel split draw mc seed previous [] (Inr [])"
| failed: "split None (Some seed) (step_seed, seed') \<Longrightarrow>
         transition_fn mc (scalar (step - 1)) previous = Inl e \<Longrightarrow>
         draws_rel split draw mc seed previous (step # steps) (Inl e)"
| stepped: "split None (Some seed) (step_seed, seed') \<Longrightarrow>
         transition_fn mc (scalar (step - 1)) previous = Inr d \<Longrightarrow>
         draw d [] (Some step_seed) x \<Longrightarrow>
         draws_rel split draw mc seed' x steps rest \<Longrightarrow>
         draws_rel split draw mc seed previous (step # steps)
           (and_then rest (\<lambda>xs. Inr (x # xs)))"

inductive sample_rel ::
  "'s split_rel \<Rightarrow> ('a, 's) draw_rel \<Rightarrow> ('a, 's) markov_chain \<Rightarrow> nat list \<Rightarrow> 's option \<Rightarrow>
   error + 'a tensor nest \<Rightarrow> bool"
  for split :: "'s split_rel" and draw :: "('a, 's) draw_rel" and mc :: "('a, 's) markov_chain"
  where
  refused: "split (Some ''markov_chain_sample'') seed (prior_seed, loop_seed) \<Longrightarrow>
        draw (initial_state_prior mc) sample_shape (Some prior_seed) x0 \<Longrightarrow>
        tf_range 1 (num_steps mc) = Inl e \<Longrightarrow>
        sample_rel split draw mc sample_shape seed (Inl e)"
| run: "split (Some ''markov_chain_sample'') seed (prior_seed, loop_seed) \<Longrightarrow>
        draw (initial_state_prior mc) sample_shape (Some prior_seed) x0 \<Longrightarrow>
        tf_range 1 (num_steps mc) = Inr steps \<Longrightarrow>
        draws_rel split draw mc loop_seed x0 (elems steps) outs \<Longrightarrow>
        sample_rel split draw mc sample_shape seed
          (and_then outs (\<lambda>xs.
           and_then (stack_draws (x0 # xs)) (\<lambda>stacked.
           map_structure2 (\<lambda>x axis. move_dimension x 0 axis) stacked (step_axes mc))))"

text \<open>
  A collaborator is deterministic when a call with a seed has one outcome at most; nothing
  is asked of a call without a seed.
\<close>

definition deterministic_split :: "'s split_rel \<Rightarrow> bool" where
  "deterministic_split split =
     (\<forall>salt seed r r'. split salt (Some seed) r \<longrightarrow> split salt (Some seed) r' \<longrightarrow> r = r')"

definition deterministic_draw :: "('a, 's) draw_rel \<Rightarrow> bool" where
  "deterministic_draw draw =
     (\<forall>d sample_shape seed x x'.
        draw d sample_shape (Some seed) x \<longrightarrow> draw d sample_shape (Some seed) x' \<longrightarrow> x = x')"

text \<open>
  The collaborators of the functional model as relations: with a seed, a call returns what
  the function returns; without a seed, it returns what the function returns for a seed
  of the collaborator's choice.
\<close>

definition split_graph :: "'s split_seed \<Rightarrow> 's split_rel" where
  "split_graph split_seed =
     (\<lambda>salt seed r. case seed of Some s \<Rightarrow> r = split_seed salt s
                                 | None \<Rightarrow> \<exists>s. r = split_seed salt s)"

definition draw_graph :: "('a, 's) draw_rel" where
  "draw_graph =
     (\<lambda>d sample_shape seed x. case seed of Some s \<Rightarrow> x = dist_sample d sample_shape s
                                          | None \<Rightarrow> \<exists>s. x = dist_sample d sample_shape s)"

inductive_cases draws_rel_NilE: "draws_rel split draw mc seed previous [] r"
inductive_cases draws_rel_ConsE: "draws_rel split draw mc seed previous (step # steps) r"

section \<open>Lemmas\<close>

subsection \<open>Results and nests\<close>

lemma and_then_Inr [simp]: "and_then (Inr v) f = f v"
  by (simp add: and_then_def)

lemma and_then_Inl [simp]: "and_then (Inl e) f = Inl e"
  by (simp add: and_then_def)

lemma and_then_eq_Inr: "and_then m f = Inr r \<longleftrightarrow> (\<exists>v. m = Inr v \<and> f v = Inr r)"
  by (cases m) simp_all

lemma map_structure_rel:
  "map_structure f z = Inr c \<longleftrightarrow> rel_nest (\<lambda>x y. f x = Inr y) z c"
  "map_structure_list f zs = Inr cs \<longleftrightarrow> list_all2 (rel_nest (\<lambda>x y. f x = Inr y)) zs cs"
proof (induction f z and f zs arbitrary: c and cs rule: map_structure_map_structure_list.induct)
  case (1 f a)
  then show ?case by (cases c) (auto simp: and_then_eq_Inr)
next
  case (2 f ns)
  then show ?case by (cases c) (auto simp: and_then_eq_Inr)
next
  case (3 f)
  then show ?case by auto
next
  case (4 f n ns)
  then show ?case by (cases cs) (auto simp: and_then_eq_Inr)
qed

lemma zip_nest_SomeD:
  "zip_nest (a :: 'a nest) (b :: 'b nest) = Some z \<Longrightarrow> a = map_nest fst z \<and> b = map_nest snd z"
  "zip_nest_list (as :: 'a nest list) (bs :: 'b nest list) = Some zs \<Longrightarrow>
     as = map (map_nest fst) zs \<and> bs = map (map_nest snd) zs"
  by (induction a b and as bs arbitrary: z and zs rule: zip_nest_zip_nest_list.induct)
    (auto split: option.splits)

lemma zip_nest_map_fst_snd: "zip_nest (map_nest fst z) (map_nest snd z) = Some z"
proof (induction z)
  case (Leaf x)
  then show ?case by simp
next
  case (Nest zs)
  then have "zip_nest_list (map (map_nest fst) zs) (map (map_nest snd) zs) = Some zs"
    by (induction zs) auto
  then show ?case by simp
qed

lemma zip_nest_Some:
  "zip_nest a b = Some z \<longleftrightarrow> a = map_nest fst z \<and> b = map_nest snd z"
  using zip_nest_SomeD(1) zip_nest_map_fst_snd by blast

lemma map_structure2_Inr:
  "map_structure2 f a b = Inr c \<longleftrightarrow>
     (\<exists>z. a = map_nest fst z \<and> b = map_nest snd z \<and> rel_nest (\<lambda>p r. f (fst p) (snd p) = Inr r) z c)"
proof
  assume l: "map_structure2 f a b = Inr c"
  then obtain z where z: "zip_nest a b = Some z"
    by (cases "zip_nest a b") (auto simp: map_structure2_def)
  with l have "map_structure (\<lambda>(x, y). f x y) z = Inr c"
    by (simp add: map_structure2_def)
  then have "rel_nest (\<lambda>p r. f (fst p) (snd p) = Inr r) z c"
    by (simp add: map_structure_rel(1) case_prod_beta)
  with z show "\<exists>z. a = map_nest fst z \<and> b = map_nest snd z \<and>
      rel_nest (\<lambda>p r. f (fst p) (snd p) = Inr r) z c"
    by (auto simp: zip_nest_Some)
next
  assume "\<exists>z. a = map_nest fst z \<and> b = map_nest snd z \<and>
      rel_nest (\<lambda>p r. f (fst p) (snd p) = Inr r) z c"
  then obtain z where z: "zip_nest a b = Some z"
    and r: "rel_nest (\<lambda>p r. f (fst p) (snd p) = Inr r) z c"
    by (auto simp: zip_nest_Some)
  then show "map_structure2 f a b = Inr c"
    by (simp add: map_structure2_def map_structure_rel(1) case_prod_beta)
qed

lemma flatten_map_nest: "flatten (map_nest f n) = map f (flatten n)"
  by (induction n) (auto simp: map_concat intro: arg_cong [where f = concat])

lemma rel_nest_flatten: "rel_nest R a b \<Longrightarrow> list_all2 R (flatten a) (flatten b)"
proof (induction a arbitrary: b)
  case (Leaf x)
  then show ?case by (cases b) auto
next
  case (Nest ns)
  then obtain ms where b: "b = Nest ms" and r: "list_all2 (rel_nest R) ns ms"
    by (cases b) auto
  from r Nest.IH have "list_all2 (\<lambda>n m. list_all2 R (flatten n) (flatten m)) ns ms"
    by (induction rule: list_all2_induct) auto
  then have "list_all2 R (concat (map flatten ns)) (concat (map flatten ms))"
    by (induction rule: list_all2_induct) (auto intro: list_all2_appendI)
  with b show ?case by simp
qed

lemma set_nest_flatten: "set (flatten n) = set_nest n"
  by (induction n) auto

subsection \<open>Moving an axis and back\<close>

lemma block_index:
  fixes t u i b m :: nat
  assumes "i < m" "u < b"
  shows "((t * b + u) * m + i) div m = t * b + u"
    and "((t * b + u) * m + i) mod m = i"
    and "((t * b + u) * m + i) div (b * m) = t"
    and "(((t * b + u) * m + i) div m) mod b = u"
proof -
  show d: "((t * b + u) * m + i) div m = t * b + u"
    using assms by simp
  show "((t * b + u) * m + i) mod m = i"
    using assms by simp
  have "((t * b + u) * m + i) div (b * m) = ((t * b + u) * m + i) div m div b"
    by (metis div_mult2_eq mult.commute)
  then show "((t * b + u) * m + i) div (b * m) = t"
    using assms d by simp
  show "(((t * b + u) * m + i) div m) mod b = u"
    using assms d by simp
qed

lemma block_decompose:
  fixes k a b m :: nat
  assumes "k < a * b * m"
  obtains t u i where "k = (t * b + u) * m + i" "t < a" "u < b" "i < m"
proof -
  from assms have m: "0 < m" and b: "0 < b" by (auto intro: Nat.gr0I)
  let ?q = "k div m"
  have q: "?q < a * b"
    using assms m by (simp add: less_mult_imp_div_less)
  have "k = ((?q div b) * b + ?q mod b) * m + k mod m" by simp
  moreover have "?q div b < a"
    using q b by (simp add: less_mult_imp_div_less)
  moreover have "?q mod b < b" using b by simp
  moreover have "k mod m < m" using m by simp
  ultimately show ?thesis using that by blast
qed

lemma block_bound:
  fixes t u i a b m :: nat
  assumes "t < a" "u < b" "i < m"
  shows "(t * b + u) * m + i < a * b * m"
proof -
  have "t * b + u < a * b"
  proof -
    have "t * b + u < t * b + b" using assms by simp
    also have "\<dots> = (Suc t) * b" by simp
    also have "\<dots> \<le> a * b" using assms by (intro mult_le_mono1) simp
    finally show ?thesis .
  qed
  then have "(t * b + u) * m + i < (t * b + u) * m + m" using assms by simp
  also have "\<dots> = Suc (t * b + u) * m" by simp
  also have "\<dots> \<le> (a * b) * m" using \<open>t * b + u < a * b\<close> by (intro mult_le_mono1) simp
  finally show ?thesis .
qed

lemma length_swap_blocks [simp]: "length (swap_blocks a b m xs) = a * b * m"
  by (simp add: swap_blocks_def)

lemma swap_blocks_nth:
  assumes "t < b" "u < a" "i < m"
  shows "swap_blocks a b m xs ! ((t * a + u) * m + i) = xs ! ((u * b + t) * m + i)"
proof -
  have "(t * a + u) * m + i < b * a * m" using assms by (rule block_bound)
  then have "(t * a + u) * m + i < a * b * m" by (simp add: mult.commute)
  then show ?thesis
    using assms by (simp add: swap_blocks_def block_index del: upt_Suc)
qed

lemma swap_blocks_swap_blocks:
  assumes "length xs = a * b * m"
  shows "swap_blocks b a m (swap_blocks a b m xs) = xs"
proof (rule nth_equalityI)
  show "length (swap_blocks b a m (swap_blocks a b m xs)) = length xs"
    using assms by (simp add: mult.commute)
next
  fix k assume "k < length (swap_blocks b a m (swap_blocks a b m xs))"
  then have "k < a * b * m" by (simp add: mult.commute)
  then obtain t u i where k: "k = (t * b + u) * m + i" and b: "t < a" "u < b" "i < m"
    by (rule block_decompose)
  show "swap_blocks b a m (swap_blocks a b m xs) ! k = xs ! k"
    unfolding k using b by (simp add: swap_blocks_nth)
qed

lemma swap_blocks_one_left:
  assumes "length xs = b * m"
  shows "swap_blocks 1 b m xs = xs"
proof (rule nth_equalityI)
  show "length (swap_blocks 1 b m xs) = length xs" using assms by simp
next
  fix k assume "k < length (swap_blocks 1 b m xs)"
  then have "k < b * 1 * m" by simp
  then obtain t u i where k: "k = (t * 1 + u) * m + i" and b: "t < b" "u < 1" "i < m"
    by (rule block_decompose)
  show "swap_blocks 1 b m xs ! k = xs ! k"
    unfolding k using b swap_blocks_nth [of t b u 1 i m xs] by simp
qed

lemma swap_blocks_one_right:
  assumes "length xs = a * m"
  shows "swap_blocks a 1 m xs = xs"
proof -
  have "swap_blocks a 1 m (swap_blocks 1 a m xs) = xs"
    using assms by (intro swap_blocks_swap_blocks) simp
  moreover have "swap_blocks 1 a m xs = xs"
    using assms by (rule swap_blocks_one_left)
  ultimately show ?thesis by simp
qed

lemma prod_list_take_drop: "prod_list (take p s) * prod_list (drop p s) = prod_list (s :: nat list)"
  by (metis append_take_drop_id prod_list.append)

lemma to_front_from_front:
  "p \<le> length rest \<Longrightarrow> to_front p (from_front p (n # rest)) = n # rest"
  by (simp add: to_front_def from_front_def nth_append min_def)

lemma axis_to_front_0:
  assumes "wf_tensor y" "shape y \<noteq> []"
  shows "axis_to_front 0 y = y"
proof -
  obtain n rest where s: "shape y = n # rest" using assms(2) by (cases "shape y") auto
  have "swap_blocks 1 n (prod_list rest) (elems y) = elems y"
    using assms(1) s by (intro swap_blocks_one_left) (simp add: wf_tensor_def)
  then show ?thesis
    using s by (cases y) (simp add: axis_to_front_def to_front_def)
qed

lemma axis_from_front_0:
  assumes "wf_tensor y" "shape y \<noteq> []"
  shows "axis_from_front 0 y = y"
proof -
  obtain n rest where s: "shape y = n # rest" using assms(2) by (cases "shape y") auto
  have "swap_blocks n 1 (prod_list rest) (elems y) = elems y"
    using assms(1) s by (intro swap_blocks_one_right) (simp add: wf_tensor_def)
  then show ?thesis
    using s by (cases y) (simp add: axis_from_front_def from_front_def)
qed

lemma axis_to_front_from_front:
  assumes "wf_tensor y" "shape y = n # rest" "p \<le> length rest"
  shows "axis_to_front p (axis_from_front p y) = y"
proof -
  let ?a = "prod_list (take p rest)" and ?m = "prod_list (drop p rest)"
  have len: "length (elems y) = n * ?a * ?m"
    using assms(1,2) by (simp add: wf_tensor_def prod_list_take_drop mult.assoc)
  have sh: "shape (axis_from_front p y) = take p rest @ n # drop p rest"
    using assms(2) by (simp add: axis_from_front_def from_front_def)
  have "swap_blocks ?a n ?m (swap_blocks n ?a ?m (elems y)) = elems y"
    using len by (rule swap_blocks_swap_blocks)
  moreover have el: "elems (axis_from_front p y) = swap_blocks n ?a ?m (elems y)"
    using assms(2) by (simp add: axis_from_front_def)
  moreover have "take p (take p rest @ n # drop p rest) = take p rest"
    and "(take p rest @ n # drop p rest) ! p = n"
    and "drop (Suc p) (take p rest @ n # drop p rest) = drop p rest"
    using assms(3) by (simp_all add: nth_append)
  ultimately have "axis_to_front p (axis_from_front p y) = Tensor (n # rest) (elems y)"
    unfolding axis_to_front_def sh el to_front_def by simp
  then show ?thesis using assms(2) by (cases y) simp
qed

lemma wf_axis_from_front:
  assumes "wf_tensor y" "shape y = n # rest" "p \<le> length rest"
  shows "wf_tensor (axis_from_front p y)"
  using assms prod_list_take_drop [of p rest]
  by (simp add: wf_tensor_def axis_from_front_def from_front_def mult.assoc mult.left_commute)

lemma length_shape_axis_from_front:
  "shape y \<noteq> [] \<Longrightarrow> length (shape (axis_from_front p y)) = length (shape y)"
  by (cases "shape y") (auto simp: axis_from_front_def from_front_def)

lemma move_dimension_from_0:
  "move_dimension y 0 ax = Inr r \<longleftrightarrow>
     (let d = norm_axis (length (shape y)) ax
      in 0 \<le> d \<and> d < int (length (shape y)) \<and>
         r = (if d = 0 then y else axis_from_front (nat d) (axis_to_front 0 y)))"
  by (auto simp: move_dimension_def norm_axis_def Let_def)

lemma move_dimension_to_0:
  "move_dimension y ax 0 = Inr r \<longleftrightarrow>
     (let d = norm_axis (length (shape y)) ax
      in 0 \<le> d \<and> d < int (length (shape y)) \<and>
         r = (if d = 0 then y else axis_from_front 0 (axis_to_front (nat d) y)))"
  by (auto simp: move_dimension_def norm_axis_def Let_def)

lemma move_dimension_roundtrip:
  assumes wf: "wf_tensor y" and mv: "move_dimension y 0 ax = Inr r"
  shows "move_dimension r ax 0 = Inr y"
proof -
  define d where "d = norm_axis (length (shape y)) ax"
  from mv have d: "0 \<le> d" "d < int (length (shape y))"
    and r: "r = (if d = 0 then y else axis_from_front (nat d) (axis_to_front 0 y))"
    by (simp_all add: move_dimension_from_0 d_def Let_def)
  from d obtain n rest where s: "shape y = n # rest" by (cases "shape y") auto
  show ?thesis
  proof (cases "d = 0")
    case True
    with r d show ?thesis by (simp add: move_dimension_to_0 d_def [symmetric])
  next
    case False
    have y0: "axis_to_front 0 y = y" using wf s by (intro axis_to_front_0) simp_all
    from False r y0 have r': "r = axis_from_front (nat d) y" by simp
    have p: "nat d \<le> length rest" using d s by simp
    have lr: "length (shape r) = length (shape y)"
      unfolding r' using s by (intro length_shape_axis_from_front) simp
    have "axis_to_front (nat d) r = y"
      unfolding r' using wf s p by (rule axis_to_front_from_front)
    moreover have "axis_from_front 0 y = y" using wf s by (intro axis_from_front_0) simp_all
    ultimately show ?thesis
      using d False by (simp add: move_dimension_to_0 lr d_def [symmetric])
  qed
qed

subsection \<open>Stacks\<close>

lemma tindex_Inr:
  "tindex t a = Inr r \<longleftrightarrow>
     (\<exists>n rest. shape a = n # rest \<and> t < n \<and>
        r = Tensor rest (take (prod_list rest) (drop (t * prod_list rest) (elems a))))"
  by (auto simp: tindex_def split: list.splits)

lemma tconcat0_expand_right:
  "tconcat0 a (expand_dims0 b) = Inr c \<longleftrightarrow>
     (\<exists>n. shape a = n # shape b \<and> c = Tensor (Suc n # shape b) (elems a @ elems b))"
  by (auto simp: tconcat0_def expand_dims0_def split: list.splits)

lemma tconcat0_expand_left:
  "tconcat0 (expand_dims0 a) b = Inr c \<longleftrightarrow>
     (\<exists>n. shape b = n # shape a \<and> c = Tensor (Suc n # shape a) (elems a @ elems b))"
  by (auto simp: tconcat0_def expand_dims0_def split: list.splits)

lemma tindex_append_old:
  assumes "wf_tensor a" "shape a = n # s" "t < n"
  shows "tindex t (Tensor (Suc n # s) (elems a @ b)) = tindex t a"
proof -
  have "Suc t * prod_list s \<le> n * prod_list s" using assms(3) by (intro mult_le_mono1) simp
  then have "t * prod_list s + prod_list s \<le> length (elems a)"
    using assms(1,2) by (simp add: wf_tensor_def)
  then show ?thesis using assms(2,3) by (simp add: tindex_def)
qed

lemma tindex_append_new:
  assumes "wf_tensor a" "shape a = n # shape b" "wf_tensor b"
  shows "tindex n (Tensor (Suc n # shape b) (elems a @ elems b)) = Inr b"
  using assms by (cases b) (simp add: tindex_def wf_tensor_def)

lemma tindex_prepend_0:
  assumes "wf_tensor a"
  shows "tindex 0 (Tensor (Suc n # shape a) (elems a @ b)) = Inr a"
  using assms by (cases a) (simp add: tindex_def wf_tensor_def)

lemma tindex_prepend_Suc:
  assumes "wf_tensor a" "shape b = n # shape a"
  shows "tindex (Suc t) (Tensor (Suc n # shape a) (elems a @ elems b)) = tindex t b"
  using assms by (simp add: tindex_def wf_tensor_def)

lemma is_stack_empty: "is_stack (map_nest empty_stack x0) []"
  by (simp add: is_stack_def nest.pred_map comp_def empty_stack_def wf_tensor_def nest.pred_True)

lemma rel_nest_pred_left:
  assumes "rel_nest R a b" "pred_nest P a"
  shows "rel_nest (\<lambda>x y. P x \<and> R x y) a b"
  using assms by (auto simp: nest.pred_set elim!: nest.rel_mono_strong)


lemma rel_nest_compose:
  assumes "rel_nest R a b" "rel_nest S a c" "\<And>x y z. R x y \<Longrightarrow> S x z \<Longrightarrow> T y z"
  shows "rel_nest T b c"
proof -
  have "rel_nest (R\<inverse>\<inverse>) b a" using assms(1) by (simp add: nest.rel_flip)
  with assms(2) have "(rel_nest (R\<inverse>\<inverse>) OO rel_nest S) b c" by blast
  then have "rel_nest (R\<inverse>\<inverse> OO S) b c" by (simp add: nest.rel_compp)
  then show ?thesis by (rule nest.rel_mono_strong) (auto intro: assms(3))
qed

lemma rel_nest_pred_right:
  assumes "rel_nest R a b" "\<And>x y. R x y \<Longrightarrow> P y"
  shows "pred_nest P b"
proof -
  have "rel_set R (set_nest a) (set_nest b)"
    using assms(1) nest.set_transfer [of R] by (auto dest: rel_funD)
  then show ?thesis using assms(2) by (auto simp: nest.pred_set rel_set_def)
qed

lemma rel_nest_same: "rel_nest (\<lambda>x y. y = f x) a b \<longleftrightarrow> b = map_nest f a"
proof -
  have "rel_nest (\<lambda>x y. y = f x) a b \<longleftrightarrow> rel_nest (\<lambda>x y. f x = y) a b"
    by (rule arg_cong [where f = "\<lambda>R. rel_nest R a b"]) auto
  also have "\<dots> \<longleftrightarrow> rel_nest (=) (map_nest f a) b" by (simp add: nest.rel_map)
  finally show ?thesis by (auto simp: nest.rel_eq)
qed

lemma is_stack_append:
  assumes st: "is_stack X xs" and wf: "pred_nest wf_tensor x"
    and ms: "map_structure2 (\<lambda>a b. tconcat0 a (expand_dims0 b)) X x = Inr X'"
  shows "is_stack X' (xs @ [x])"
proof -
  let ?P = "\<lambda>p. wf_tensor (fst p) \<and> shape (fst p) \<noteq> [] \<and> hd (shape (fst p)) = length xs \<and>
                wf_tensor (snd p)"
  from ms obtain z where X: "X = map_nest fst z" and x: "x = map_nest snd z"
    and r: "rel_nest (\<lambda>p r. tconcat0 (fst p) (expand_dims0 (snd p)) = Inr r) z X'"
    by (auto simp: map_structure2_Inr)
  have "pred_nest ?P z"
    using st wf by (auto simp: is_stack_def X x nest.pred_set nest.set_map)
  with r have q: "rel_nest (\<lambda>p r. ?P p \<and> tconcat0 (fst p) (expand_dims0 (snd p)) = Inr r) z X'"
    by (rule rel_nest_pred_left)
  have pred: "pred_nest (\<lambda>a. wf_tensor a \<and> shape a \<noteq> [] \<and> hd (shape a) = length (xs @ [x])) X'"
    using q by (rule rel_nest_pred_right) (auto simp: tconcat0_expand_right wf_tensor_def)
  have old: "map_structure (tindex t) X' = Inr ((xs @ [x]) ! t)" if t: "t < length xs" for t
  proof -
    have "rel_nest (\<lambda>p r. tindex t (fst p) = Inr r) z (xs ! t)"
      using st t by (simp add: is_stack_def X map_structure_rel(1) nest.rel_map)
    with q have "rel_nest (\<lambda>a r. tindex t a = Inr r) X' (xs ! t)"
    proof (rule rel_nest_compose)
      fix p a r
      assume a: "?P p \<and> tconcat0 (fst p) (expand_dims0 (snd p)) = Inr a"
        and i: "tindex t (fst p) = Inr r"
      from a obtain n where s: "shape (fst p) = n # shape (snd p)"
        and a': "a = Tensor (Suc n # shape (snd p)) (elems (fst p) @ elems (snd p))"
        by (auto simp: tconcat0_expand_right)
      from a s have "n = length xs" by simp
      with a s t have "tindex t a = tindex t (fst p)"
        unfolding a' by (intro tindex_append_old) auto
      with i show "tindex t a = Inr r" by simp
    qed
    with t show ?thesis by (simp add: map_structure_rel(1) nth_append)
  qed
  have "rel_nest (\<lambda>p a. tindex (length xs) a = Inr (snd p)) z X'"
    using q
  proof (rule nest.rel_mono_strong)
    fix p a
    assume a: "?P p \<and> tconcat0 (fst p) (expand_dims0 (snd p)) = Inr a"
    then obtain n where s: "shape (fst p) = n # shape (snd p)"
      and a': "a = Tensor (Suc n # shape (snd p)) (elems (fst p) @ elems (snd p))"
      by (auto simp: tconcat0_expand_right)
    from a s have "n = length xs" by simp
    with a s show "tindex (length xs) a = Inr (snd p)"
      unfolding a' by (auto intro: tindex_append_new)
  qed
  then have "rel_nest (\<lambda>a b. tindex (length xs) a = Inr b) X' x"
    by (simp add: x nest.rel_map nest.rel_flip [symmetric, of _ X'] conversep_iff [abs_def])
  then have new: "map_structure (tindex (length xs)) X' = Inr x"
    by (simp add: map_structure_rel(1))
  show ?thesis
    unfolding is_stack_def
  proof (intro conjI allI impI)
    fix t assume "t < length (xs @ [x])"
    then consider "t < length xs" | "t = length xs" by force
    then show "map_structure (tindex t) X' = Inr ((xs @ [x]) ! t)"
      using old new by cases auto
  qed (rule pred)
qed


lemma is_stack_prepend:
  assumes st: "is_stack X xs" and wf: "pred_nest wf_tensor x0"
    and ms: "map_structure2 (\<lambda>a b. tconcat0 (expand_dims0 a) b) x0 X = Inr X'"
  shows "is_stack X' (x0 # xs)"
proof -
  let ?P = "\<lambda>p. wf_tensor (snd p) \<and> shape (snd p) \<noteq> [] \<and> hd (shape (snd p)) = length xs \<and>
                wf_tensor (fst p)"
  from ms obtain z where x0: "x0 = map_nest fst z" and X: "X = map_nest snd z"
    and r: "rel_nest (\<lambda>p r. tconcat0 (expand_dims0 (fst p)) (snd p) = Inr r) z X'"
    by (auto simp: map_structure2_Inr)
  have "pred_nest ?P z"
    using st wf by (auto simp: is_stack_def X x0 nest.pred_set nest.set_map)
  with r have q: "rel_nest (\<lambda>p r. ?P p \<and> tconcat0 (expand_dims0 (fst p)) (snd p) = Inr r) z X'"
    by (rule rel_nest_pred_left)
  have pred: "pred_nest (\<lambda>a. wf_tensor a \<and> shape a \<noteq> [] \<and> hd (shape a) = length (x0 # xs)) X'"
    using q by (rule rel_nest_pred_right) (auto simp: tconcat0_expand_left wf_tensor_def)
  have later: "map_structure (tindex (Suc t)) X' = Inr (xs ! t)" if t: "t < length xs" for t
  proof -
    have "rel_nest (\<lambda>p r. tindex t (snd p) = Inr r) z (xs ! t)"
      using st t by (simp add: is_stack_def X map_structure_rel(1) nest.rel_map)
    with q have "rel_nest (\<lambda>a r. tindex (Suc t) a = Inr r) X' (xs ! t)"
    proof (rule rel_nest_compose)
      fix p a r
      assume a: "?P p \<and> tconcat0 (expand_dims0 (fst p)) (snd p) = Inr a"
        and i: "tindex t (snd p) = Inr r"
      from a obtain n where s: "shape (snd p) = n # shape (fst p)"
        and a': "a = Tensor (Suc n # shape (fst p)) (elems (fst p) @ elems (snd p))"
        by (auto simp: tconcat0_expand_left)
      from a s have "tindex (Suc t) a = tindex t (snd p)"
        unfolding a' by (intro tindex_prepend_Suc) auto
      with i show "tindex (Suc t) a = Inr r" by simp
    qed
    then show ?thesis by (simp add: map_structure_rel(1))
  qed
  have "rel_nest (\<lambda>p a. tindex 0 a = Inr (fst p)) z X'"
    using q
  proof (rule nest.rel_mono_strong)
    fix p a
    assume a: "?P p \<and> tconcat0 (expand_dims0 (fst p)) (snd p) = Inr a"
    then obtain n where a': "a = Tensor (Suc n # shape (fst p)) (elems (fst p) @ elems (snd p))"
      by (auto simp: tconcat0_expand_left)
    from a show "tindex 0 a = Inr (fst p)"
      unfolding a' by (auto intro: tindex_prepend_0)
  qed
  then have "rel_nest (\<lambda>a b. tindex 0 a = Inr b) X' x0"
    by (simp add: x0 nest.rel_map nest.rel_flip [symmetric, of _ X'] conversep_iff [abs_def])
  then have first: "map_structure (tindex 0) X' = Inr x0"
    by (simp add: map_structure_rel(1))
  show ?thesis
    unfolding is_stack_def
  proof (intro conjI allI impI)
    fix t assume "t < length (x0 # xs)"
    then show "map_structure (tindex t) X' = Inr ((x0 # xs) ! t)"
      using first later by (cases t) auto
  qed (rule pred)
qed

lemma is_stack_stack_results:
  assumes "stack_results acc rs = Inr X" "is_stack acc ds" "\<forall>r\<in>set rs. pred_nest wf_tensor r"
  shows "is_stack X (ds @ rs)"
  using assms
proof (induction rs arbitrary: acc ds)
  case Nil
  then show ?case by simp
next
  case (Cons r rs)
  from Cons.prems(1) obtain acc'
    where a: "map_structure2 (\<lambda>a b. tconcat0 a (expand_dims0 b)) acc r = Inr acc'"
      and s: "stack_results acc' rs = Inr X"
    by (auto simp: and_then_eq_Inr)
  have "is_stack acc' (ds @ [r])"
    using Cons.prems(2) _ a by (rule is_stack_append) (use Cons.prems(3) in simp)
  with s have "is_stack X ((ds @ [r]) @ rs)"
    using Cons.prems(3) by (intro Cons.IH) auto
  then show ?case by simp
qed

subsection \<open>Assertions and static shapes\<close>


lemma control_dependencies_single [simp]: "control_dependencies [a] = a"
  by (cases a) simp_all

lemma fully_defined_describes:
  assumes "static_describes st s" "is_fully_defined st"
  shows "st = Some (map Some s)"
proof -
  from assms obtain ds where st: "st = Some ds"
    and a: "list_all (\<lambda>d. d \<noteq> None) ds" and r: "list_all2 (\<lambda>d n. d = None \<or> d = Some n) ds s"
    by (auto simp: static_describes_def is_fully_defined_def split: option.splits)
  from r a have "ds = map Some s"
    by (induction rule: list_all2_induct) auto
  with st show ?thesis by simp
qed

lemma dims_compatible_known: "dims_compatible (map Some s) (map Some t) \<longleftrightarrow> s = t"
proof (induction s arbitrary: t)
  case Nil
  then show ?case by (cases t) auto
next
  case (Cons a s)
  then show ?case by (cases t) auto
qed

lemma fully_defined_compatible:
  assumes "static_describes sx x" "static_describes sy y" "is_compatible_with sx sy"
    and "is_fully_defined sx" "is_fully_defined sy"
  shows "x = y"
  using assms fully_defined_describes [of sx x] fully_defined_describes [of sy y]
  by (simp add: is_compatible_with_def dims_compatible_known)

lemma and_then_assoc: "and_then (and_then m f) g = and_then m (\<lambda>v. and_then (f v) g)"
  by (cases m) simp_all

lemma map_structure_map_nest:
  assumes "\<And>a. a \<in> set_nest X \<Longrightarrow> f a = Inr (g a)"
  shows "map_structure f X = Inr (map_nest g X)"
proof -
  have "rel_nest (=) (map_nest g X) (map_nest g X)" by (simp add: nest.rel_eq)
  then have "rel_nest (\<lambda>a b. g a = b) X (map_nest g X)" by (simp add: nest.rel_map)
  then have "rel_nest (\<lambda>a b. f a = Inr b) X (map_nest g X)"
    by (rule nest.rel_mono_strong) (simp add: assms)
  then show ?thesis by (simp add: map_structure_rel(1))
qed

lemma tslice_total:
  "shape a \<noteq> [] \<Longrightarrow> tslice i j a =
     Inr (Tensor (slice_len i j (hd (shape a)) # tl (shape a))
            (take (slice_len i j (hd (shape a)) * prod_list (tl (shape a)))
               (drop (slice_bound i (hd (shape a)) * prod_list (tl (shape a))) (elems a))))"
  by (cases "shape a") (simp_all add: tslice_def)

lemma map_structure_tslice:
  assumes "leading_extent n X"
  shows "\<exists>Y. map_structure (tslice i j) X = Inr Y \<and> leading_extent (slice_len i j n) Y"
proof -
  let ?g = "\<lambda>a. Tensor (slice_len i j (hd (shape a)) # tl (shape a))
            (take (slice_len i j (hd (shape a)) * prod_list (tl (shape a)))
               (drop (slice_bound i (hd (shape a)) * prod_list (tl (shape a))) (elems a)))"
  have "map_structure (tslice i j) X = Inr (map_nest ?g X)"
    using assms by (intro map_structure_map_nest tslice_total) (simp add: leading_extent_def nest.pred_set)
  moreover have "leading_extent (slice_len i j n) (map_nest ?g X)"
    using assms by (simp add: leading_extent_def nest.pred_set nest.set_map)
  ultimately show ?thesis by blast
qed


lemma log_prob_parts_first_leaf:
  assumes "step_major mc x = Inr X" "flatten X = t # ts" "shape t = n # rest"
  shows "log_prob_parts mc x =
           and_then (map_structure (tindex 0) X) (\<lambda>x0.
           and_then (vectorized_lps (transition_fn mc) X n) (\<lambda>lps.
           Inr (dist_log_prob (initial_state_prior mc) x0, lps)))"
proof -
  have s: "map_structure2 (\<lambda>t ax. move_dimension t ax 0) x (step_axes mc) = Inr X"
    using assms(1) by (simp add: step_major_def)
  show ?thesis
    unfolding log_prob_parts_def s vectorized_lps_def
    by (simp add: assms(2,3) and_then_assoc Let_def)
qed

lemma log_prob_parts_step_major:
  assumes "step_major mc x = Inr X" "leading_extent n X" "flatten X \<noteq> []"
  shows "log_prob_parts mc x =
           and_then (map_structure (tindex 0) X) (\<lambda>x0.
           and_then (vectorized_lps (transition_fn mc) X n) (\<lambda>lps.
           Inr (dist_log_prob (initial_state_prior mc) x0, lps)))"
proof -
  from assms(3) obtain t ts where f: "flatten X = t # ts" by (cases "flatten X") auto
  then have "t \<in> set_nest X" by (metis list.set_intros(1) set_nest_flatten)
  with assms(2) have "shape t \<noteq> []" "hd (shape t) = n"
    by (auto simp: leading_extent_def nest.pred_set)
  then obtain rest where "shape t = n # rest" by (cases "shape t") auto
  with assms(1) f show ?thesis by (rule log_prob_parts_first_leaf)
qed

lemma describes_compatible:
  assumes "static_describes sx s" "static_describes sy s"
  shows "is_compatible_with sx sy"
proof (cases sx)
  case None
  then show ?thesis by (simp add: is_compatible_with_def)
next
  case sx: (Some ds)
  show ?thesis
  proof (cases sy)
    case None
    then show ?thesis by (simp add: is_compatible_with_def split: option.splits)
  next
    case sy: (Some es)
    from assms sx sy have "list_all2 (\<lambda>d n. d = None \<or> d = Some n) ds s"
      and "list_all2 (\<lambda>d n. d = None \<or> d = Some n) es s"
      by (simp_all add: static_describes_def)
    then have "dims_compatible ds es"
    proof (induction ds s arbitrary: es rule: list_all2_induct)
      case Nil
      then show ?case by simp
    next
      case (Cons d ds n s)
      then obtain e es' where es: "es = e # es'" by (cases es) auto
      with Cons show ?case by (cases d; cases e) auto
    qed
    with sx sy show ?thesis by (simp add: is_compatible_with_def)
  qed
qed

lemma sound_static_eager: "sound_static eager_static"
  by (simp add: sound_static_def eager_static_def static_describes_def list_all2_map1
      list_all2_same)

lemma sound_static_unknown: "sound_static unknown_static"
  by (simp add: sound_static_def unknown_static_def static_describes_def)

lemma list_all_map2_same: "list_all (\<lambda>b. b) (map2 (=) xs xs)"
  by (induction xs) simp_all

lemma assert_equal_same: "assert_equal x x message = Inr ()"
  by (simp add: assert_equal_def tensor_binop_def list_all_map2_same)

lemma assert_equal_scalar:
  "assert_equal (scalar a) (scalar b) message =
     (if a = b then Inr () else Inl (InvalidArgumentError message))"
  by (simp add: assert_equal_def tensor_binop_def scalar_def)

lemma assert_same_shape_ok:
  assumes "sound_static static_shape" "shape p = shape q"
  shows "and_then (assert_same_shape static_shape p q message validate) control_dependencies = Inr ()"
proof -
  have "static_describes (static_shape p) (shape p)" "static_describes (static_shape q) (shape q)"
    using assms(1) by (simp_all add: sound_static_def)
  then have "static_describes (static_shape p) (shape p)" "static_describes (static_shape q) (shape p)"
    by (simp_all only: assms(2))
  then have "is_compatible_with (static_shape p) (static_shape q)"
    by (rule describes_compatible)
  moreover have "tf_shape p = tf_shape q" using assms(2) by (simp add: tf_shape_def)
  ultimately show ?thesis
    by (simp add: assert_same_shape_def assert_equal_same)
qed

lemma log_prob_Inr:
  assumes "log_prob_parts mc x = Inr (p, lps)" "sum_fn mc lps = Inr q"
    and "sound_static static_shape" "shape p = shape q"
  shows "log_prob static_shape mc x = tensor_add p q"
proof -
  have "and_then (assert_same_shape static_shape p q shape_message (validate_args mc))
          (\<lambda>assertions. and_then (control_dependencies assertions) (\<lambda>_. tensor_add p q)) =
        and_then (and_then (assert_same_shape static_shape p q shape_message (validate_args mc))
          control_dependencies) (\<lambda>_. tensor_add p q)"
    by (simp add: and_then_assoc)
  also have "\<dots> = tensor_add p q"
    by (simp add: assert_same_shape_ok [OF assms(3,4)])
  finally show ?thesis using assms(1,2) by (simp add: log_prob_def)
qed

lemma log_prob_Inl:
  assumes "log_prob_parts mc x = Inl e"
  shows "log_prob static_shape mc x = Inl e"
  using assms by (simp add: log_prob_def)

lemma rows_empty: "shape x = 0 # s \<Longrightarrow> rows x = []"
  by (simp add: rows_def)

lemma sum_fn_empty:
  assumes "shape x = 0 # s"
  shows "sum_fn mc x = Inr (zeros s)"
  using assms by (simp add: sum_fn_def reduce_sum_def reduce_kahan_sum_def rows_empty zeros_def)

lemma map2_add_zero: "map2 (+) xs (replicate (length xs) (0 :: 'a :: monoid_add)) = xs"
  by (induction xs) auto

lemma tensor_add_zeros:
  fixes p :: "'a :: monoid_add tensor"
  assumes "wf_tensor p"
  shows "tensor_add p (zeros (shape p)) = Inr p"
  using assms map2_add_zero [of "elems p"]
  by (cases p) (simp add: tensor_add_def tensor_binop_def zeros_def wf_tensor_def)

lemma map_structure_tindex:
  assumes "leading_extent n X" "t < n"
  shows "\<exists>Y. map_structure (tindex t) X = Inr Y"
proof -
  have "map_structure (tindex t) X =
      Inr (map_nest (\<lambda>a. Tensor (tl (shape a))
        (take (prod_list (tl (shape a))) (drop (t * prod_list (tl (shape a))) (elems a)))) X)"
  proof (rule map_structure_map_nest)
    fix a assume "a \<in> set_nest X"
    with assms(1) have "shape a \<noteq> []" "hd (shape a) = n"
      by (auto simp: leading_extent_def nest.pred_set)
    with assms(2) show "tindex t a = Inr (Tensor (tl (shape a))
        (take (prod_list (tl (shape a))) (drop (t * prod_list (tl (shape a))) (elems a))))"
      by (cases "shape a") (auto simp: tindex_def)
  qed
  then show ?thesis by blast
qed

lemmas engine_defs =
  map_structure2_def move_dimension_def axis_to_front_def axis_from_front_def
  to_front_def from_front_def swap_blocks_def tindex_def tslice_def slice_len_def
  slice_bound_def trange_def tf_range_def leading_extent_def step_major_def step_axes_def

lemmas example_defs =
  example_chain_def example_prior_def example_transition_def example_step_log_prob_def
  example_step_sample_def leaf_map_def constant_tensor_def example_split_def

lemma control_dependencies_assert_equal:
  "control_dependencies (map (\<lambda>k. assert_equal (scalar k) (scalar n) message) ks) =
     (if \<forall>k\<in>set ks. k = n then Inr () else Inl (InvalidArgumentError message))"
  by (induction ks) (auto simp: assert_equal_scalar)

lemma shape_axis_to_0:
  assumes "move_dimension l ax 0 = Inr t"
  shows "shape t \<noteq> [] \<and> shape_at l ax = Inr (int (hd (shape t)))"
proof -
  define d where "d = norm_axis (length (shape l)) ax"
  from assms have d: "0 \<le> d" "d < int (length (shape l))"
    and t: "t = (if d = 0 then l else axis_from_front 0 (axis_to_front (nat d) l))"
    by (simp_all add: move_dimension_to_0 d_def Let_def)
  from d have ne: "shape l \<noteq> []" by auto
  have at: "shape_at l ax = Inr (int (shape l ! nat d))"
    using d by (simp add: shape_at_def Let_def d_def norm_axis_def)
  show ?thesis
  proof (cases "d = 0")
    case True
    with t ne at show ?thesis by (simp add: hd_conv_nth)
  next
    case False
    have "shape t = shape l ! nat d # take (nat d) (shape l) @ drop (Suc (nat d)) (shape l)"
      using t False by (simp add: axis_from_front_def axis_to_front_def to_front_def from_front_def)
    with at show ?thesis by simp
  qed
qed

lemma step_major_first_leaf:
  assumes "step_major mc x = Inr X" "flatten x = l # ls" "flatten (step_axes mc) = ax # axs"
  shows "\<exists>t ts. flatten X = t # ts \<and> move_dimension l ax 0 = Inr t"
proof -
  from assms(1) obtain z where x: "x = map_nest fst z" and a: "step_axes mc = map_nest snd z"
    and r: "rel_nest (\<lambda>p r. move_dimension (fst p) (snd p) 0 = Inr r) z X"
    by (auto simp: step_major_def map_structure2_Inr)
  from assms(2,3) x a obtain zs where z: "flatten z = (l, ax) # zs"
    by (cases "flatten z") (auto simp: flatten_map_nest)
  from r have "list_all2 (\<lambda>p r. move_dimension (fst p) (snd p) 0 = Inr r) (flatten z) (flatten X)"
    by (rule rel_nest_flatten)
  with z show ?thesis by (auto simp: list_all2_Cons1)
qed

lemma example_chain_sel:
  "initial_state_prior (example_chain n r k v) = example_prior"
  "transition_fn (example_chain n r k v) = example_transition"
  "num_steps (example_chain n r k v) = n"
  "num_steps_is_ref (example_chain n r k v) = r"
  "experimental_use_kahan_sum (example_chain n r k v) = k"
  "validate_args (example_chain n r k v) = v"
  by (simp_all add: example_chain_def)

lemma length_rows [simp]: "length (rows x) = hd (shape x)"
  by (simp add: rows_def)

lemma rows_nth:
  "t < hd (shape x) \<Longrightarrow>
     rows x ! t = take (prod_list (tl (shape x))) (drop (t * prod_list (tl (shape x))) (elems x))"
  by (simp add: rows_def)

lemma rows_length:
  assumes "wf_tensor x" "shape x = n # s" "r \<in> set (rows x)"
  shows "length r = prod_list s"
proof -
  from assms(3) obtain t where t: "t < n"
    and r: "r = take (prod_list s) (drop (t * prod_list s) (elems x))"
    using assms(2) by (auto simp: rows_def)
  have "Suc t * prod_list s \<le> n * prod_list s" using t by (intro mult_le_mono1) simp
  then have "t * prod_list s + prod_list s \<le> length (elems x)"
    using assms(1,2) by (simp add: wf_tensor_def)
  then show ?thesis unfolding r by simp
qed

lemma length_foldl_map2:
  assumes "length z = m" "\<forall>r\<in>set rs. length r = m"
  shows "length (foldl (map2 f) z rs) = m"
  using assms by (induction rs arbitrary: z) auto

lemma kahan_step_exact:
  fixes s v :: "'a :: ab_group_add"
  shows "kahan_step (s, 0) v = (s + v, 0)"
  by (simp add: Let_def)

lemma kahan_rows_exact:
  fixes acc :: "'a :: ab_group_add list"
  shows "foldl (map2 kahan_step) (map (\<lambda>s. (s, 0)) acc) rs =
           map (\<lambda>s. (s, 0)) (foldl (map2 (+)) acc rs)"
proof (induction rs arbitrary: acc)
  case Nil
  then show ?case by simp
next
  case (Cons r rs)
  have "map2 kahan_step (map (\<lambda>s. (s, 0)) acc) r = map (\<lambda>s. (s, 0)) (map2 (+) acc r)"
  proof (induction acc arbitrary: r)
    case Nil
    then show ?case by simp
  next
    case (Cons a acc)
    then show ?case by (cases r) (simp_all add: Let_def)
  qed
  then show ?case by (simp only: foldl_Cons Cons.IH)
qed

lemma reduce_kahan_sum_exact:
  fixes x :: "'a :: ab_group_add tensor"
  shows "reduce_kahan_sum x = reduce_sum x"
proof -
  have "replicate m (0 :: 'a, 0 :: 'a) = map (\<lambda>s. (s, 0)) (replicate m 0)" for m
    by simp
  then show ?thesis
    by (simp add: reduce_kahan_sum_def reduce_sum_def kahan_rows_exact comp_def
        del: map_replicate split: list.splits)
qed

lemma sum_fn_exact:
  fixes mc :: "('a :: ab_group_add, 's) markov_chain"
  shows "sum_fn mc = reduce_sum"
  by (auto simp: sum_fn_def reduce_kahan_sum_exact)

text \<open>the sum of the rows, position by position\<close>

lemma foldl_map2_nth:
  fixes z :: "'a :: monoid_add list"
  assumes "length z = m" "\<forall>r\<in>set rs. length r = m" "j < m"
  shows "foldl (map2 (+)) z rs ! j = z ! j + sum_list (map (\<lambda>r. r ! j) rs)"
  using assms
proof (induction rs arbitrary: z)
  case Nil
  then show ?case by simp
next
  case (Cons r rs)
  have "foldl (map2 (+)) (map2 (+) z r) rs ! j =
      map2 (+) z r ! j + sum_list (map (\<lambda>r. r ! j) rs)"
    using Cons.prems by (intro Cons.IH) auto
  then show ?case using Cons.prems by (simp add: add.assoc)
qed

lemma reduce_sum_nth:
  fixes x :: "'a :: monoid_add tensor"
  assumes "wf_tensor x" "shape x = n # s" "j < prod_list s"
  shows "\<exists>r. reduce_sum x = Inr r \<and> shape r = s \<and> length (elems r) = prod_list s \<and>
           elems r ! j = sum_list (map (\<lambda>row. row ! j) (rows x))"
proof -
  have l: "\<forall>r\<in>set (rows x). length r = prod_list s"
    using assms(1,2) by (auto intro: rows_length)
  have "foldl (map2 (+)) (replicate (prod_list s) 0) (rows x) ! j =
      replicate (prod_list s) 0 ! j + sum_list (map (\<lambda>r. r ! j) (rows x))"
    using l assms(3) by (intro foldl_map2_nth [where m = "prod_list s"]) auto
  moreover have "length (foldl (map2 (+)) (replicate (prod_list s) (0 :: 'a)) (rows x)) = prod_list s"
    using l by (intro length_foldl_map2) auto
  ultimately show ?thesis using assms(2,3) by (simp add: reduce_sum_def)
qed

lemma reduce_sum_wf:
  fixes x :: "'a :: {zero, plus} tensor"
  assumes "wf_tensor x" "shape x = n # s"
  shows "\<exists>r. reduce_sum x = Inr r \<and> shape r = s \<and> wf_tensor r"
proof -
  have l: "\<forall>r\<in>set (rows x). length r = prod_list s"
    using assms(1,2) by (auto intro: rows_length)
  have "length (foldl (map2 (+)) (replicate (prod_list s) (0 :: 'a)) (rows x)) = prod_list s"
    using l by (intro length_foldl_map2) auto
  then show ?thesis using assms(2) by (simp add: reduce_sum_def wf_tensor_def)
qed

lemma tensor_binop_same_shape:
  "shape a = shape b \<Longrightarrow> tensor_binop f a b = Inr (Tensor (shape a) (map2 f (elems a) (elems b)))"
  by (simp add: tensor_binop_def)


lemma reduce_sum_elems:
  fixes x :: "'a :: monoid_add tensor"
  assumes "wf_tensor x" "shape x = n # s"
  shows "reduce_sum x =
           Inr (Tensor s (map (\<lambda>j. sum_list (map (\<lambda>row. row ! j) (rows x))) [0..<prod_list s]))"
proof -
  have l: "\<forall>r\<in>set (rows x). length r = prod_list s"
    using assms(1,2) by (auto intro: rows_length)
  have len: "length (foldl (map2 (+)) (replicate (prod_list s) (0 :: 'a)) (rows x)) = prod_list s"
    using l by (intro length_foldl_map2) auto
  have "foldl (map2 (+)) (replicate (prod_list s) 0) (rows x) =
      map (\<lambda>j. sum_list (map (\<lambda>row. row ! j) (rows x))) [0..<prod_list s]"
  proof (rule nth_equalityI)
    fix j assume "j < length (foldl (map2 (+)) (replicate (prod_list s) (0 :: 'a)) (rows x))"
    then have j: "j < prod_list s" by (simp add: len)
    have "foldl (map2 (+)) (replicate (prod_list s) 0) (rows x) ! j =
        replicate (prod_list s) 0 ! j + sum_list (map (\<lambda>r. r ! j) (rows x))"
      using l j by (intro foldl_map2_nth [where m = "prod_list s"]) auto
    with j show "foldl (map2 (+)) (replicate (prod_list s) 0) (rows x) ! j =
        map (\<lambda>j. sum_list (map (\<lambda>row. row ! j) (rows x))) [0..<prod_list s] ! j"
      by simp
  qed (simp add: len)
  then show ?thesis using assms(2) by (simp add: reduce_sum_def)
qed

lemma tindex_rows:
  assumes "shape x = n # s" "t < n"
  shows "tindex t x = Inr (Tensor s (rows x ! t))"
  using assms by (simp add: tindex_def rows_def)

lemma sum_list_rows:
  fixes f :: "nat \<Rightarrow> 'a :: comm_monoid_add"
  shows "sum_list (map f [0..<k]) = (\<Sum>t = 1..<Suc k. f (t - 1))"
proof -
  have "sum_list (map f [0..<k]) = (\<Sum>t = 0..<k. f t)"
    by (simp add: interv_sum_list_conv_sum_set_nat)
  also have "\<dots> = (\<Sum>t = Suc 0..<Suc k. f (t - 1))"
    by (subst sum.shift_bounds_Suc_ivl) simp
  finally show ?thesis by (simp only: One_nat_def)
qed

lemma slice_lens:
  "0 < n \<Longrightarrow> slice_len 0 (int n - 1) n = n - 1"
  "0 < n \<Longrightarrow> slice_len 1 (int n) n = n - 1"
  by (auto simp: slice_len_def slice_bound_def)

lemma rows_nth_nth:
  assumes "wf_tensor x" "shape x = n # s" "t < n" "j < prod_list s"
  shows "rows x ! t ! j = elems x ! (t * prod_list s + j)"
proof -
  have "Suc t * prod_list s \<le> n * prod_list s" using assms(3) by (intro mult_le_mono1) simp
  then have "t * prod_list s + prod_list s \<le> length (elems x)"
    using assms(1,2) by (simp add: wf_tensor_def)
  then show ?thesis using assms(2,3,4) by (simp add: rows_def)
qed

lemma reduce_sum_closed:
  fixes x :: "'a :: comm_monoid_add tensor"
  assumes "wf_tensor x" "shape x = n # s"
  shows "reduce_sum x =
           Inr (Tensor s (map (\<lambda>j. \<Sum>t = 0..<n. elems x ! (t * prod_list s + j)) [0..<prod_list s]))"
proof -
  have "sum_list (map (\<lambda>row. row ! j) (rows x)) = (\<Sum>t = 0..<n. elems x ! (t * prod_list s + j))"
    if j: "j < prod_list s" for j
  proof -
    have "map (\<lambda>row. row ! j) (rows x) = map (\<lambda>t. elems x ! (t * prod_list s + j)) [0..<n]"
      using assms j by (intro nth_equalityI) (simp_all add: rows_nth_nth)
    then show ?thesis by (simp add: interv_sum_list_conv_sum_set_nat)
  qed
  then have "map (\<lambda>j. sum_list (map (\<lambda>row. row ! j) (rows x))) [0..<prod_list s] =
      map (\<lambda>j. \<Sum>t = 0..<n. elems x ! (t * prod_list s + j)) [0..<prod_list s]"
    by simp
  then show ?thesis using assms by (simp add: reduce_sum_elems)
qed


lemma upto_map_int: "[int a..int b - 1] = map int [a..<b]"
proof (induction b)
  case 0
  then show ?case by simp
next
  case (Suc b)
  show ?case
  proof (cases "a \<le> b")
    case True
    then have "[int a..int (Suc b) - 1] = [int a..int b - 1] @ [int b]"
      using upto_rec2 [of "int a" "int b"] by simp
    with Suc True show ?thesis by simp
  next
    case False
    then show ?thesis by simp
  qed
qed

lemma elems_trange_1: "elems (trange 1 n) = map int [1..<nat n]"
proof (cases "0 \<le> n")
  case True
  then show ?thesis using upto_map_int [of 1 "nat n"] by (simp add: trange_def Let_def)
next
  case False
  then show ?thesis by (simp add: trange_def Let_def)
qed

lemma scan_steps_collect:
  assumes "chain_result split_seed mc c sample_shape seed k = Inr acc"
  shows "scan_steps (make_sample_loop_body split_seed (transition_fn mc)
            (if c then Experimental_sample_and_log_prob else Sample) (extract_sample_fn c))
           acc (map int [Suc k..<n]) =
         collect (chain_result split_seed mc c sample_shape seed) [Suc k..<n]"
  using assms
proof (induction "n - Suc k" arbitrary: k acc)
  case 0
  then show ?case by simp
next
  case (Suc m)
  then have l: "[Suc k..<n] = Suc k # [Suc (Suc k)..<n]" by (simp add: upt_rec)
  let ?body = "make_sample_loop_body split_seed (transition_fn mc)
      (if c then Experimental_sample_and_log_prob else Sample) (extract_sample_fn c)"
  have step: "chain_result split_seed mc c sample_shape seed (Suc k) = ?body acc (int (Suc k))"
    using Suc.prems by simp
  show ?case
  proof (cases "?body acc (int (Suc k))")
    case (Inl e)
    with step show ?thesis by (simp add: l)
  next
    case (Inr acc')
    with step have "chain_result split_seed mc c sample_shape seed (Suc k) = Inr acc'" by simp
    then have "scan_steps ?body acc' (map int [Suc (Suc k)..<n]) =
        collect (chain_result split_seed mc c sample_shape seed) [Suc (Suc k)..<n]"
      using Suc.hyps(2) by (intro Suc.hyps(1)) simp_all
    with Inr step show ?thesis by (simp add: l)
  qed
qed

lemma sample_helper_invalid:
  assumes "num_steps mc < 1"
  shows "sample_and_log_prob_helper split_seed mc sample_shape seed c =
           Inl (InvalidArgumentError ''Requires start <= limit when delta > 0'')"
  using assms
  by (simp add: sample_and_log_prob_helper_def tf_range_def Let_def split: prod.splits)

lemma sample_helper_collect:
  assumes "1 \<le> num_steps mc"
  shows "sample_and_log_prob_helper split_seed mc sample_shape seed c =
     and_then (collect (chain_result split_seed mc c sample_shape seed)
                 [0..<nat (num_steps mc)]) (\<lambda>rs.
     and_then (stack_draws (map snd rs)) (\<lambda>results.
     and_then (extract_sample_fn c results) (\<lambda>samples.
     and_then (extract_lp_fn mc c results) (\<lambda>lp.
     and_then (map_structure2 (\<lambda>x axis. move_dimension x 0 axis) samples (step_axes mc))
       (\<lambda>samples'.
     Inr (samples', lp))))))"
proof -
  obtain prior_seed loop_seed
    where sp: "split_seed (Some ''markov_chain_sample'') seed = (prior_seed, loop_seed)"
    by (cases "split_seed (Some ''markov_chain_sample'') seed")
  let ?attr = "if c then Experimental_sample_and_log_prob else Sample"
  let ?r0 = "call_sample_attr ?attr (initial_state_prior mc) sample_shape prior_seed"
  let ?body = "make_sample_loop_body split_seed (transition_fn mc) ?attr (extract_sample_fn c)"
  have r0: "chain_result split_seed mc c sample_shape seed 0 = Inr (loop_seed, ?r0)"
    by (simp add: sp)
  have scan: "scan_steps ?body (loop_seed, ?r0) (elems (trange 1 (num_steps mc))) =
      collect (chain_result split_seed mc c sample_shape seed) [Suc 0..<nat (num_steps mc)]"
    using scan_steps_collect [OF r0] by (simp add: elems_trange_1)
  have l: "[0..<nat (num_steps mc)] = 0 # [Suc 0..<nat (num_steps mc)]"
    using assms by (simp add: upt_rec [of 0])
  show ?thesis
  proof (cases "collect (chain_result split_seed mc c sample_shape seed)
      [Suc 0..<nat (num_steps mc)]")
    case (Inl e)
    with scan r0 assms show ?thesis
      by (simp add: sample_and_log_prob_helper_def sp tf_scan_def l Let_def tf_range_def)
  next
    case (Inr outs)
    with scan r0 assms show ?thesis
      by (simp add: sample_and_log_prob_helper_def sp tf_scan_def l Let_def
          and_then_assoc tf_range_def)
  qed
qed

lemma chain_result_sample:
  "chain_result split_seed mc False sample_shape seed t = chain_draw split_seed mc sample_shape seed t"
proof (induction t)
  case 0
  then show ?case by (simp add: call_sample_attr_def)
next
  case (Suc t)
  have "make_sample_loop_body split_seed (transition_fn mc) Sample (extract_sample_fn False) acc
      (int (Suc t)) =
      (case acc of (loop_seed, x) \<Rightarrow>
         case split_seed None loop_seed of
           (step_seed, loop_seed') \<Rightarrow>
             and_then (transition_fn mc (scalar (int t)) x) (\<lambda>d.
             Inr (loop_seed', dist_sample d [] step_seed)))" for acc
    by (simp add: make_sample_loop_body_def extract_sample_fn_def call_sample_attr_def
        split: prod.splits)
  with Suc show ?case by simp
qed

lemma and_then_return [simp]: "and_then m Inr = m" "and_then m (\<lambda>v. Inr v) = m"
  by (cases m; simp)+

lemma is_stack_stack_draws:
  assumes "stack_draws rs = Inr R" "\<forall>r\<in>set rs. pred_nest wf_tensor r"
  shows "is_stack R rs"
proof (cases rs)
  case Nil
  with assms(1) show ?thesis by simp
next
  case (Cons r0 rest)
  with assms(1) obtain stacked
    where s: "stack_results (map_nest empty_stack r0) rest = Inr stacked"
      and c: "map_structure2 (\<lambda>a b. tconcat0 (expand_dims0 a) b) r0 stacked = Inr R"
    by (auto simp: and_then_eq_Inr)
  have "is_stack stacked ([] @ rest)"
    using s is_stack_empty by (rule is_stack_stack_results) (use assms(2) Cons in simp)
  then have st: "is_stack stacked rest" by simp
  have "pred_nest wf_tensor r0" using assms(2) Cons by simp
  with st have "is_stack R (r0 # rest)" using c by (rule is_stack_prepend)
  with Cons show ?thesis by simp
qed

lemma map_structure_comp:
  "map_structure f (map_nest h a) = map_structure (\<lambda>x. f (h x)) a"
proof (induction a)
  case (Leaf x)
  then show ?case by simp
next
  case (Nest ns)
  then have "map_structure_list f (map (map_nest h) ns) = map_structure_list (\<lambda>x. f (h x)) ns"
    by (induction ns) simp_all
  then show ?case by simp
qed

lemma zip_nest_map_right: "zip_nest a (map_nest g a) = Some (map_nest (\<lambda>x. (x, g x)) a)"
  by (simp add: zip_nest_Some nest.map_comp comp_def nest.map_ident)

lemma map_structure2_map_right:
  "map_structure2 f a (map_nest g a) = map_structure (\<lambda>x. f x (g x)) a"
  by (simp add: map_structure2_def zip_nest_map_right map_structure_comp)

lemma zip_nest_map_left:
  "zip_nest (map_nest g (a :: 'a nest)) (b :: 'b nest) =
     map_option (map_nest (\<lambda>p. (g (fst p), snd p))) (zip_nest a b)"
  "zip_nest_list (map (map_nest g) (as :: 'a nest list)) (bs :: 'b nest list) =
     map_option (map (map_nest (\<lambda>p. (g (fst p), snd p)))) (zip_nest_list as bs)"
  by (induction a b and as bs rule: zip_nest_zip_nest_list.induct)
    (auto simp: option.map_comp comp_def split: option.splits)

lemma map_structure2_map_left:
  "map_structure2 f (map_nest g a) b = map_structure2 (\<lambda>x. f (g x)) a b"
  by (cases "zip_nest a b")
    (simp_all add: map_structure2_def zip_nest_map_left(1) map_structure_comp case_prod_unfold)

lemma stack_draws_single: "stack_draws [x0] = Inr (map_nest expand_dims0 x0)"
proof -
  have "tconcat0 (expand_dims0 a) (empty_stack a) = Inr (expand_dims0 a)" for a :: "'a tensor"
    by (simp add: tconcat0_def expand_dims0_def empty_stack_def)
  then show ?thesis
    by (simp add: map_structure2_map_right map_structure_map_nest)
qed

lemma step_major_roundtrip:
  assumes "map_structure2 (\<lambda>x axis. move_dimension x 0 axis) S axes = Inr r"
    and "pred_nest wf_tensor S"
  shows "map_structure2 (\<lambda>t ax. move_dimension t ax 0) r axes = Inr S"
proof -
  from assms(1) obtain z where S: "S = map_nest fst z" and ax: "axes = map_nest snd z"
    and rel: "rel_nest (\<lambda>p r. move_dimension (fst p) 0 (snd p) = Inr r) z r"
    by (auto simp: map_structure2_Inr)
  from rel obtain w where w: "set_nest w \<subseteq> {(p, r). move_dimension (fst p) 0 (snd p) = Inr r}"
    and z: "map_nest fst w = z" and r: "map_nest snd w = r"
    by (auto simp: nest.in_rel)
  let ?z' = "map_nest (\<lambda>e. (snd e, snd (fst e))) w"
  have "rel_nest (\<lambda>e e'. move_dimension (snd e) (snd (fst e)) 0 = Inr (fst (fst e'))) w w"
  proof (rule nest.rel_refl_strong)
    fix e assume e: "e \<in> set_nest w"
    with w have "move_dimension (fst (fst e)) 0 (snd (fst e)) = Inr (snd e)" by auto
    moreover have "wf_tensor (fst (fst e))"
      using assms(2) e by (auto simp: S z [symmetric] nest.pred_set nest.set_map)
    ultimately show "move_dimension (snd e) (snd (fst e)) 0 = Inr (fst (fst e))"
      by (intro move_dimension_roundtrip)
  qed
  then have "rel_nest (\<lambda>p s. move_dimension (fst p) (snd p) 0 = Inr s) ?z' S"
    by (simp add: S z [symmetric] nest.rel_map)
  moreover have "r = map_nest fst ?z'" "axes = map_nest snd ?z'"
    by (simp_all add: r [symmetric] ax z [symmetric] nest.map_comp comp_def)
  ultimately show ?thesis unfolding map_structure2_Inr by blast
qed

lemma wf_expand_dims0: "wf_tensor (expand_dims0 a) = wf_tensor a"
  by (simp add: wf_tensor_def expand_dims0_def)

lemma tindex_expand_dims0: "wf_tensor a \<Longrightarrow> tindex 0 (expand_dims0 a) = Inr a"
  by (cases a) (simp add: tindex_def expand_dims0_def wf_tensor_def)

lemma map_structure_tindex_expand:
  assumes "pred_nest wf_tensor x0"
  shows "map_structure (tindex 0) (map_nest expand_dims0 x0) = Inr x0"
proof -
  have "map_structure (\<lambda>x. tindex 0 (expand_dims0 x)) x0 = Inr (map_nest (\<lambda>x. x) x0)"
    using assms by (intro map_structure_map_nest tindex_expand_dims0) (simp add: nest.pred_set)
  then show ?thesis by (simp add: map_structure_comp nest.map_ident)
qed


lemma sample_n_collect:
  assumes "1 \<le> num_steps mc"
  shows "sample_n split_seed mc sample_shape seed =
     and_then (collect (chain_draw split_seed mc sample_shape seed)
                 [0..<nat (num_steps mc)]) (\<lambda>draws.
     and_then (stack_draws (map snd draws)) (\<lambda>stacked.
     map_structure2 (\<lambda>x axis. move_dimension x 0 axis) stacked (step_axes mc)))"
proof -
  have "chain_result split_seed mc False sample_shape seed =
      chain_draw split_seed mc sample_shape seed"
    by (rule ext) (rule chain_result_sample)
  then show ?thesis
    by (simp add: sample_n_def sample_helper_collect [OF assms] extract_sample_fn_def
        extract_lp_fn_def and_then_assoc)
qed

lemma sample_n_invalid:
  assumes "num_steps mc < 1"
  shows "sample_n split_seed mc sample_shape seed =
           Inl (InvalidArgumentError ''Requires start <= limit when delta > 0'')"
  by (simp add: sample_n_def sample_helper_invalid [OF assms])

lemma elems_move_expand:
  assumes "wf_tensor a" "move_dimension (expand_dims0 a) 0 ax = Inr b"
  shows "elems b = elems a"
proof -
  let ?y = "expand_dims0 a"
  define d where "d = norm_axis (length (shape ?y)) ax"
  have wy: "wf_tensor ?y" using assms(1) by (simp add: wf_tensor_def expand_dims0_def)
  have sy: "shape ?y = 1 # shape a" by (simp add: expand_dims0_def)
  from assms(2) have d: "0 \<le> d" "d < int (length (shape ?y))"
    and b: "b = (if d = 0 then ?y else axis_from_front (nat d) (axis_to_front 0 ?y))"
    by (simp_all add: move_dimension_from_0 d_def Let_def)
  show ?thesis
  proof (cases "d = 0")
    case True
    with b show ?thesis by (simp add: expand_dims0_def)
  next
    case False
    have "axis_to_front 0 ?y = ?y" using wy sy by (intro axis_to_front_0) simp_all
    with b False have b': "b = axis_from_front (nat d) ?y" by simp
    have "length (elems a) =
        prod_list (take (nat d) (shape a)) * prod_list (drop (nat d) (shape a))"
      using assms(1) by (simp add: wf_tensor_def prod_list_take_drop)
    then have "swap_blocks 1 (prod_list (take (nat d) (shape a)))
        (prod_list (drop (nat d) (shape a))) (elems a) = elems a"
      by (rule swap_blocks_one_left)
    then show ?thesis
      unfolding b' by (simp add: axis_from_front_def expand_dims0_def)
  qed
qed

lemma collect_Inr:
  assumes "collect f ts = Inr rs"
  shows "length rs = length ts \<and> (\<forall>i<length ts. f (ts ! i) = Inr (rs ! i))"
  using assms
proof (induction ts arbitrary: rs)
  case Nil
  then show ?case by simp
next
  case (Cons t ts)
  from Cons.prems obtain r rest where r: "f t = Inr r" and c: "collect f ts = Inr rest"
    and rs: "rs = r # rest"
    by (auto simp: and_then_eq_Inr)
  from Cons.IH [OF c] r rs show ?case by (auto simp: nth_Cons split: nat.splits)
qed

lemma call_joint_proper:
  assumes "proper_dist d"
  shows "call_sample_attr Experimental_sample_and_log_prob d sample_shape seed =
           Nest [dist_sample d sample_shape seed,
                 Leaf (dist_log_prob d (dist_sample d sample_shape seed))]"
  using assms by (simp add: call_sample_attr_def proper_dist_def)

lemma chain_result_joint:
  assumes "proper_chain mc"
    and "chain_result split_seed mc True sample_shape seed t = Inr (sd, r)"
  shows "\<exists>x lp. r = Nest [x, Leaf lp] \<and>
           chain_draw split_seed mc sample_shape seed t = Inr (sd, x) \<and>
           draw_lp split_seed mc sample_shape seed t = Inr lp \<and>
           pred_nest wf_tensor x \<and> wf_tensor lp"
  using assms(2)
proof (induction t arbitrary: sd r)
  case 0
  obtain prior_seed loop_seed
    where sp: "split_seed (Some ''markov_chain_sample'') seed = (prior_seed, loop_seed)"
    by (cases "split_seed (Some ''markov_chain_sample'') seed")
  have p: "proper_dist (initial_state_prior mc)"
    using assms(1) by (simp add: proper_chain_def)
  from 0 sp have "sd = loop_seed"
    and "r = Nest [dist_sample (initial_state_prior mc) sample_shape prior_seed,
        Leaf (dist_log_prob (initial_state_prior mc)
          (dist_sample (initial_state_prior mc) sample_shape prior_seed))]"
    by (simp_all add: call_joint_proper [OF p])
  with sp p show ?case by (simp add: proper_dist_def)
next
  case (Suc t)
  from Suc.prems obtain sd0 r0
    where r0: "chain_result split_seed mc True sample_shape seed t = Inr (sd0, r0)"
      and b: "make_sample_loop_body split_seed (transition_fn mc) Experimental_sample_and_log_prob
        (extract_sample_fn True) (sd0, r0) (int (Suc t)) = Inr (sd, r)"
    by (auto simp: and_then_eq_Inr)
  from Suc.IH [OF r0] obtain x0 lp0 where f: "r0 = Nest [x0, Leaf lp0]"
    and d0: "chain_draw split_seed mc sample_shape seed t = Inr (sd0, x0)"
    and w0: "pred_nest wf_tensor x0"
    by blast
  obtain step_seed seed' where sp: "split_seed None sd0 = (step_seed, seed')"
    by (cases "split_seed None sd0")
  from b f sp obtain d where tr: "transition_fn mc (scalar (int t)) x0 = Inr d"
    and res: "(sd, r) = (seed', call_sample_attr Experimental_sample_and_log_prob d [] step_seed)"
    by (auto simp: make_sample_loop_body_def extract_sample_fn_def and_then_eq_Inr)
  have p: "proper_dist d"
    using assms(1) w0 tr unfolding proper_chain_def by blast
  from res have sd: "sd = seed'"
    and r: "r = Nest [dist_sample d [] step_seed, Leaf (dist_log_prob d (dist_sample d [] step_seed))]"
    by (simp_all add: call_joint_proper [OF p])
  have dS: "chain_draw split_seed mc sample_shape seed (Suc t) = Inr (sd, dist_sample d [] step_seed)"
    using d0 sp tr sd by simp
  have "draw_lp split_seed mc sample_shape seed (Suc t) =
      Inr (dist_log_prob d (dist_sample d [] step_seed))"
    using d0 tr dS by (simp del: chain_draw.simps)
  with r dS p show ?case by (simp add: proper_dist_def del: chain_draw.simps draw_lp.simps)
qed

lemma map_structure_pair:
  assumes "map_structure f R = Inr (Nest [u, Leaf v])"
  shows "\<exists>A L. R = Nest [A, Leaf L] \<and> map_structure f A = Inr u \<and> f L = Inr v"
proof -
  from assms have "rel_nest (\<lambda>x y. f x = Inr y) R (Nest [u, Leaf v])"
    by (simp add: map_structure_rel(1))
  then obtain ns where R: "R = Nest ns"
    and l: "list_all2 (rel_nest (\<lambda>x y. f x = Inr y)) ns [u, Leaf v]"
    by (cases R) auto
  from l obtain A B where ns: "ns = [A, B]" and a: "rel_nest (\<lambda>x y. f x = Inr y) A u"
    and b: "rel_nest (\<lambda>x y. f x = Inr y) B (Leaf v)"
    by (auto simp: list_all2_Cons2)
  from b obtain L where "B = Leaf L" "f L = Inr v" by (cases B) auto
  with R ns a show ?thesis by (auto simp: map_structure_rel(1))
qed

lemma step_major_flatten:
  assumes "map_structure2 f a b = Inr c"
  shows "length (flatten c) = length (flatten a)"
proof -
  from assms obtain z where a: "a = map_nest fst z"
    and r: "rel_nest (\<lambda>p r. f (fst p) (snd p) = Inr r) z c"
    by (auto simp: map_structure2_Inr)
  from r have "length (flatten z) = length (flatten c)"
    by (auto dest: rel_nest_flatten list_all2_lengthD)
  with a show ?thesis by (simp add: flatten_map_nest)
qed

lemma sum_first:
  fixes f :: "nat \<Rightarrow> 'a :: comm_monoid_add"
  assumes "0 < n"
  shows "(\<Sum>t = 0..<n. f t) = f 0 + (\<Sum>t = 0..<n - 1. f (Suc t))"
proof -
  from assms obtain k where n: "n = Suc k" by (cases n) auto
  have "(\<Sum>t = 0..<Suc k. f t) = f 0 + (\<Sum>t = Suc 0..<Suc k. f t)"
    by (rule sum.atLeast_Suc_lessThan) simp
  also have "(\<Sum>t = Suc 0..<Suc k. f t) = (\<Sum>t = 0..<k. f (Suc t))"
    by (rule sum.shift_bounds_Suc_ivl)
  finally show ?thesis by (simp add: n)
qed


lemma example_chain_proper: "proper_chain (example_chain n r k v)"
proof -
  have "proper_dist example_prior"
    by (simp add: proper_dist_def example_prior_def leaf_map_def constant_tensor_def
        wf_tensor_def)
  moreover have "proper_dist d"
    if "pred_nest wf_tensor x" "example_transition (scalar t) x = Inr d" for t x d
  proof -
    from that obtain y where x: "x = Leaf y" and y: "wf_tensor y"
      by (cases x) (auto simp: example_transition_def)
    from that(2) show ?thesis
      unfolding x using y
      by (auto simp: example_transition_def proper_dist_def leaf_map_def scalar_def
          example_step_sample_def example_step_log_prob_def wf_tensor_def)
  qed
  ultimately show ?thesis unfolding proper_chain_def example_chain_sel by blast
qed

lemma tf_range_steps:
  assumes "0 < n"
  shows "tf_range 0 (int n - 1) = Inr (Tensor [n - 1] (map int [0..<n - 1]))"
proof -
  have "[0..int n - 1 - 1] = map int [0..<n - 1]"
    using upto_map_int [of 0 "n - 1"] assms by (simp add: of_nat_diff)
  with assms show ?thesis by (simp add: tf_range_def trange_def Let_def)
qed

lemma tslice_rows:
  assumes "wf_tensor x" "shape x = n # rest" "a + k \<le> n"
  shows "\<exists>u. tslice (int a) (int (a + k)) x = Inr u \<and> wf_tensor u \<and> shape u = k # rest \<and>
           (\<forall>i<k. tindex i u = tindex (a + i) x)"
proof -
  let ?m = "prod_list rest"
  let ?u = "Tensor (k # rest) (take (k * ?m) (drop (a * ?m) (elems x)))"
  have b: "slice_bound (int a) n = a" "slice_bound (int (a + k)) n = a + k"
    using assms(3) by (simp_all add: slice_bound_def)
  then have l: "slice_len (int a) (int (a + k)) n = k" by (simp add: slice_len_def)
  have u: "tslice (int a) (int (a + k)) x = Inr ?u"
    unfolding tslice_def assms(2) list.case l b ..
  have len: "length (elems x) = n * ?m" using assms(1,2) by (simp add: wf_tensor_def)
  have "a * ?m + k * ?m \<le> n * ?m"
    using assms(3) by (metis add_mult_distrib mult_le_mono1)
  then have wf: "wf_tensor ?u" using len by (simp add: wf_tensor_def)
  have "tindex i ?u = tindex (a + i) x" if i: "i < k" for i
  proof -
    have "i * ?m + ?m \<le> k * ?m"
      using i by (metis Suc_leI mult_Suc mult_le_mono1 add.commute)
    then have "take ?m (drop (i * ?m) (take (k * ?m) (drop (a * ?m) (elems x)))) =
        take ?m (drop ((a + i) * ?m) (elems x))"
      by (simp add: drop_take add_mult_distrib min_def add.commute)
    with i assms(2,3) show ?thesis by (simp add: tindex_def)
  qed
  with u wf show ?thesis by auto
qed

lemma is_rows_tslice:
  assumes "pred_nest wf_tensor X" "leading_extent n X" "a + k \<le> n"
  shows "\<exists>A. map_structure (tslice (int a) (int (a + k))) X = Inr A \<and> is_rows A X a k"
proof -
  obtain A where A: "map_structure (tslice (int a) (int (a + k))) X = Inr A"
    using map_structure_tslice [OF assms(2)] by blast
  then have "rel_nest (\<lambda>x u. tslice (int a) (int (a + k)) x = Inr u) X A"
    by (simp add: map_structure_rel)
  moreover have "pred_nest (\<lambda>x. wf_tensor x \<and> shape x \<noteq> [] \<and> hd (shape x) = n) X"
    using assms(1,2) by (auto simp: leading_extent_def nest.pred_set)
  ultimately have "rel_nest (\<lambda>x u. (wf_tensor x \<and> shape x \<noteq> [] \<and> hd (shape x) = n) \<and>
      tslice (int a) (int (a + k)) x = Inr u) X A"
    by (rule rel_nest_pred_left)
  then have "rel_nest (\<lambda>x u. wf_tensor u \<and> shape u = k # tl (shape x) \<and>
      (\<forall>i<k. tindex i u = tindex (a + i) x)) X A"
  proof (rule nest.rel_mono_strong)
    fix x u
    assume "(wf_tensor x \<and> shape x \<noteq> [] \<and> hd (shape x) = n) \<and>
      tslice (int a) (int (a + k)) x = Inr u"
    then have w: "wf_tensor x" and s: "shape x = n # tl (shape x)"
      and t: "tslice (int a) (int (a + k)) x = Inr u"
      by (cases "shape x"; simp)+
    from tslice_rows [OF w s assms(3)] t
    show "wf_tensor u \<and> shape u = k # tl (shape x) \<and> (\<forall>i<k. tindex i u = tindex (a + i) x)"
      by auto
  qed
  then have "is_rows A X a k"
    unfolding is_rows_def by (subst nest.rel_flip [symmetric]) (simp add: conversep_iff [abs_def])
  with A show ?thesis by blast
qed

lemma tensor_rows_unique:
  assumes "wf_tensor u" "wf_tensor v" "shape u = k # rest" "shape v = k # rest"
    and "\<forall>i<k. tindex i u = tindex i v"
  shows "u = v"
proof -
  let ?m = "prod_list rest"
  have lu: "length (elems u) = k * ?m" and lv: "length (elems v) = k * ?m"
    using assms(1-4) by (simp_all add: wf_tensor_def)
  have "elems u ! j = elems v ! j" if j: "j < k * ?m" for j
  proof -
    from j have m: "0 < ?m" by (cases "?m = 0") auto
    let ?t = "j div ?m" and ?r = "j mod ?m"
    have t: "?t < k" using j m by (simp add: less_mult_imp_div_less)
    have r: "?r < ?m" using m by simp
    have "rows u ! ?t = rows v ! ?t"
      using assms(5) t tindex_rows [OF assms(3) t] tindex_rows [OF assms(4) t] by simp
    then have "rows u ! ?t ! ?r = rows v ! ?t ! ?r" by simp
    then have "elems u ! (?t * ?m + ?r) = elems v ! (?t * ?m + ?r)"
      by (simp only: rows_nth_nth [OF assms(1,3) t r] rows_nth_nth [OF assms(2,4) t r])
    then show ?thesis by simp
  qed
  then have "elems u = elems v" using lu lv by (intro nth_equalityI) simp_all
  with assms(3,4) show ?thesis by (cases u; cases v) simp
qed

lemma is_rows_unique:
  assumes "is_rows A X a k" "is_rows B X a k"
  shows "A = B"
proof -
  let ?P = "\<lambda>u x. wf_tensor u \<and> shape u = k # tl (shape x) \<and>
      (\<forall>i<k. tindex i u = tindex (a + i) x)"
  have "rel_nest ?P A X" "rel_nest (conversep ?P) X B"
    using assms by (simp_all add: is_rows_def nest.rel_conversep)
  then have "rel_nest (?P OO conversep ?P) A B"
    by (auto simp: nest.rel_compp)
  then have "rel_nest (=) A B"
  proof (rule nest.rel_mono_strong)
    fix u v assume "(?P OO conversep ?P) u v"
    then obtain x where "?P u x" "?P v x" by auto
    then show "u = v" by (intro tensor_rows_unique [of u v k "tl (shape x)"]) simp_all
  qed
  then show ?thesis by (simp add: nest.rel_eq)
qed

lemma vectorized_lps_rows:
  assumes "vectorizes transition X n A B s" "pred_nest wf_tensor X" "leading_extent n X" "0 < n"
  shows "map_structure (tslice 0 (int n - 1)) X = Inr A \<and>
         map_structure (tslice 1 (int n)) X = Inr B \<and>
         (\<exists>d. transition (Tensor [n - 1] (map int [0..<n - 1])) A = Inr d \<and>
              vectorized_lps transition X n = Inr (dist_log_prob d B) \<and>
              wf_tensor (dist_log_prob d B) \<and> shape (dist_log_prob d B) = (n - 1) # s \<and>
              (\<forall>t<n - 1. stepwise_lp transition X t = tindex t (dist_log_prob d B)))"
proof -
  from assms(1) have rA: "is_rows A X 0 (n - 1)" and rB: "is_rows B X 1 (n - 1)"
    by (simp_all add: vectorizes_def)
  from assms(1) obtain d where d: "transition (Tensor [n - 1] (map int [0..<n - 1])) A = Inr d"
    and law: "wf_tensor (dist_log_prob d B)" "shape (dist_log_prob d B) = (n - 1) # s"
      "\<forall>t<n - 1. stepwise_lp transition X t = tindex t (dist_log_prob d B)"
    by (auto simp: vectorizes_def split: sum.splits)
  have "0 + (n - 1) \<le> n" by simp
  from is_rows_tslice [OF assms(2,3) this] obtain A'
    where "map_structure (tslice (int 0) (int (0 + (n - 1)))) X = Inr A'" "is_rows A' X 0 (n - 1)"
    by blast
  with rA assms(4) have A: "map_structure (tslice 0 (int n - 1)) X = Inr A"
    by (simp add: is_rows_unique [of A' X 0 "n - 1" A] of_nat_diff)
  have "1 + (n - 1) \<le> n" using assms(4) by simp
  from is_rows_tslice [OF assms(2,3) this] obtain B'
    where "map_structure (tslice (int 1) (int (1 + (n - 1)))) X = Inr B'" "is_rows B' X 1 (n - 1)"
    by blast
  with rB assms(4) have B: "map_structure (tslice 1 (int n)) X = Inr B"
    by (simp add: is_rows_unique [of B' X 1 "n - 1" B])
  have "vectorized_lps transition X n = Inr (dist_log_prob d B)"
    unfolding vectorized_lps_def tf_range_steps [OF assms(4)] A B and_then_Inr d ..
  with A B d law show ?thesis by blast
qed





lemma draws_rel_deterministic:
  assumes "deterministic_split split" "deterministic_draw draw"
    and "draws_rel split draw mc seed previous steps r"
    and "draws_rel split draw mc seed previous steps r'"
  shows "r = r'"
  using assms(3,4)
proof (induction arbitrary: r' rule: draws_rel.induct)
  case (finished seed previous)
  then show ?case by (auto elim: draws_rel_NilE)
next
  case (failed seed step_seed seed' step previous e steps)
  from failed.prems show ?case
  proof (rule draws_rel_ConsE)
    fix s1 s2 e'
    assume "transition_fn mc (scalar (step - 1)) previous = Inl e'" "r' = Inl e'"
    with failed.hyps show ?thesis by simp
  next
    fix s1 s2 d x rest
    assume "transition_fn mc (scalar (step - 1)) previous = Inr d"
    with failed.hyps show ?thesis by simp
  qed
next
  case (stepped seed step_seed seed' step previous d x steps rest)
  from stepped.prems show ?case
  proof (rule draws_rel_ConsE)
    fix s1 s2 e'
    assume "transition_fn mc (scalar (step - 1)) previous = Inl e'"
    with stepped.hyps show ?thesis by simp
  next
    fix s1 s2 d' x' rest'
    assume s: "split None (Some seed) (s1, s2)"
      and t: "transition_fn mc (scalar (step - 1)) previous = Inr d'"
      and x': "draw d' [] (Some s1) x'"
      and r: "draws_rel split draw mc s2 x' steps rest'"
      and r': "r' = and_then rest' (\<lambda>xs. Inr (x' # xs))"
    from s stepped.hyps(1) assms(1) have seeds: "(s1, s2) = (step_seed, seed')"
      unfolding deterministic_split_def by blast
    from t stepped.hyps(2) have d: "d' = d" by simp
    from x' stepped.hyps(3) seeds d assms(2) have x: "x' = x"
      unfolding deterministic_draw_def by blast
    from r seeds x have "rest = rest'" by (intro stepped.IH) simp
    with x r' show ?thesis by simp
  qed
qed

lemma sample_rel_deterministic:
  assumes "deterministic_split split" "deterministic_draw draw"
    and "sample_rel split draw mc sample_shape (Some seed) r"
    and "sample_rel split draw mc sample_shape (Some seed) r'"
  shows "r = r'"
  using assms(3)
proof (cases rule: sample_rel.cases)
  case (refused prior_seed loop_seed x0 e)
  from assms(4) show ?thesis
  proof (cases rule: sample_rel.cases)
    case r': (refused prior_seed' loop_seed' x0' e')
    with refused show ?thesis by simp
  next
    case r': (run prior_seed' loop_seed' x0' steps outs')
    with refused show ?thesis by simp
  qed
next
  case (run prior_seed loop_seed x0 steps outs)
  from assms(4) show ?thesis
  proof (cases rule: sample_rel.cases)
    case r': (refused prior_seed' loop_seed' x0' e')
    with run show ?thesis by simp
  next
    case r': (run prior_seed' loop_seed' x0' steps' outs')
    from run(2) r'(2) assms(1) have s: "(prior_seed', loop_seed') = (prior_seed, loop_seed)"
      unfolding deterministic_split_def by blast
    from run(3) r'(3) s assms(2) have x: "x0' = x0"
      unfolding deterministic_draw_def by blast
    from run(4) r'(4) have st: "steps' = steps" by simp
    from run(5) r'(5) s x st have "outs = outs'"
      by (intro draws_rel_deterministic [OF assms(1,2)]) simp_all
    with run(1) r'(1) x show ?thesis by simp
  qed
qed

lemma draws_rel_scan_steps:
  "draws_rel (split_graph split_seed) draw_graph mc seed previous steps
     (and_then (scan_steps (make_sample_loop_body split_seed (transition_fn mc) Sample
                  (extract_sample_fn False)) (seed, previous) steps)
        (\<lambda>outs. Inr (map snd outs)))"
proof (induction steps arbitrary: seed previous)
  case Nil
  then show ?case by (simp add: draws_rel.finished)
next
  case (Cons step steps)
  obtain step_seed seed' where sp: "split_seed None seed = (step_seed, seed')"
    by (cases "split_seed None seed")
  then have g: "split_graph split_seed None (Some seed) (step_seed, seed')"
    by (simp add: split_graph_def)
  let ?body = "make_sample_loop_body split_seed (transition_fn mc) Sample (extract_sample_fn False)"
  show ?case
  proof (cases "transition_fn mc (scalar (step - 1)) previous")
    case (Inl e)
    then have "?body (seed, previous) step = Inl e"
      by (simp add: make_sample_loop_body_def extract_sample_fn_def sp)
    moreover have "draws_rel (split_graph split_seed) draw_graph mc seed previous (step # steps)
        (Inl e)"
      using g Inl by (rule draws_rel.failed)
    ultimately show ?thesis by simp
  next
    case (Inr d)
    let ?x = "dist_sample d [] step_seed"
    have b: "?body (seed, previous) step = Inr (seed', ?x)"
      using Inr by (simp add: make_sample_loop_body_def extract_sample_fn_def sp
          call_sample_attr_def)
    have dr: "draw_graph d [] (Some step_seed) ?x" by (simp add: draw_graph_def)
    have "draws_rel (split_graph split_seed) draw_graph mc seed previous (step # steps)
        (and_then (and_then (scan_steps ?body (seed', ?x) steps) (\<lambda>outs. Inr (map snd outs)))
           (\<lambda>xs. Inr (?x # xs)))"
      using g Inr dr Cons.IH by (rule draws_rel.stepped)
    then show ?thesis by (simp add: b and_then_assoc)
  qed
qed

lemma sample_rel_graph:
  assumes "split_graph split_seed (Some ''markov_chain_sample'') seed'
             (split_seed (Some ''markov_chain_sample'') seed)"
  shows "sample_rel (split_graph split_seed) draw_graph mc sample_shape seed'
           (sample_n split_seed mc sample_shape seed)"
proof -
  obtain prior_seed loop_seed
    where sp: "split_seed (Some ''markov_chain_sample'') seed = (prior_seed, loop_seed)"
    by (cases "split_seed (Some ''markov_chain_sample'') seed")
  with assms
  have g: "split_graph split_seed (Some ''markov_chain_sample'') seed' (prior_seed, loop_seed)"
    by simp
  let ?x0 = "dist_sample (initial_state_prior mc) sample_shape prior_seed"
  have dr: "draw_graph (initial_state_prior mc) sample_shape (Some prior_seed) ?x0"
    by (simp add: draw_graph_def)
  let ?body = "make_sample_loop_body split_seed (transition_fn mc) Sample (extract_sample_fn False)"
  show ?thesis
  proof (cases "tf_range 1 (num_steps mc)")
    case (Inl e)
    have "sample_rel (split_graph split_seed) draw_graph mc sample_shape seed' (Inl e)"
      using g dr Inl by (rule sample_rel.refused)
    moreover have "sample_n split_seed mc sample_shape seed = Inl e"
      using Inl by (simp add: sample_n_def sample_and_log_prob_helper_def sp Let_def)
    ultimately show ?thesis by simp
  next
    case (Inr steps)
    let ?outs = "and_then (scan_steps ?body (loop_seed, ?x0) (elems steps))
        (\<lambda>outs. Inr (map snd outs))"
    have "sample_rel (split_graph split_seed) draw_graph mc sample_shape seed'
        (and_then ?outs (\<lambda>xs. and_then (stack_draws (?x0 # xs)) (\<lambda>stacked.
           map_structure2 (\<lambda>x axis. move_dimension x 0 axis) stacked (step_axes mc))))"
      using g dr Inr draws_rel_scan_steps by (rule sample_rel.run)
    moreover have "sample_n split_seed mc sample_shape seed =
        and_then ?outs (\<lambda>xs. and_then (stack_draws (?x0 # xs)) (\<lambda>stacked.
           map_structure2 (\<lambda>x axis. move_dimension x 0 axis) stacked (step_axes mc)))"
      using Inr
      by (simp add: sample_n_def sample_and_log_prob_helper_def sp tf_scan_def Let_def
          call_sample_attr_def extract_sample_fn_def extract_lp_fn_def and_then_assoc)
    ultimately show ?thesis by simp
  qed
qed

lemma sample_rel_sample_n:
  "sample_rel (split_graph split_seed) draw_graph mc sample_shape (Some seed)
     (sample_n split_seed mc sample_shape seed)"
  by (rule sample_rel_graph) (simp add: split_graph_def)

lemma sample_rel_unseeded:
  "sample_rel (split_graph split_seed) draw_graph mc sample_shape None
     (sample_n split_seed mc sample_shape seed)"
  by (rule sample_rel_graph) (auto simp: split_graph_def)

lemma deterministic_split_graph: "deterministic_split (split_graph split_seed)"
  by (simp add: deterministic_split_def split_graph_def)

lemma deterministic_draw_graph: "deterministic_draw draw_graph"
  by (simp add: deterministic_draw_def draw_graph_def)

section \<open>The claims\<close>

text \<open>
  Claim C8, as amended. The step count is checked only under \<open>validate_args\<close>. Then a
  chain with \<open>num_steps < 1\<close> given as a fixed value is refused at construction, with the
  error of the assertion \<open>num_steps >= 1\<close>; given as a reference, it is constructed, and
  each later \<open>sample\<close> or \<open>log_prob\<close> fails with that error. Without \<open>validate_args\<close>
  the construction succeeds whatever the step count.
\<close>

theorem num_steps_validation:
  "MarkovChain_init prior tr n n_is_ref use_kahan validate =
     (if validate \<and> \<not> n_is_ref \<and> n < 1
      then Inl (InvalidArgumentError ''Argument `num_steps` must be at least 1.'')
      else Inr \<lparr>initial_state_prior = prior, transition_fn = tr, num_steps = n,
                num_steps_is_ref = n_is_ref, experimental_use_kahan_sum = use_kahan,
                validate_args = validate\<rparr>) \<and>
   (validate_args mc \<and> num_steps_is_ref mc \<and> num_steps mc < 1 \<longrightarrow>
      Distribution_sample split_seed mc sample_shape seed =
        Inl (InvalidArgumentError ''Argument `num_steps` must be at least 1.'') \<and>
      Distribution_log_prob static_shape mc x =
        Inl (InvalidArgumentError ''Argument `num_steps` must be at least 1.''))"
  by (simp add: MarkovChain_init_def Distribution_sample_def Distribution_log_prob_def
      parameter_control_dependencies_def assert_greater_equal_def Let_def)

text \<open>
  The claim as stated fails: with the default \<open>validate_args = False\<close>, a chain of zero
  steps is constructed without error.
\<close>

theorem num_steps_unvalidated_counterexample:
  "MarkovChain_init example_prior example_transition 0 False False False =
     Inr (example_chain 0 False False False)"
  by (simp add: MarkovChain_init_def parameter_control_dependencies_def example_chain_def)

theorem num_steps_validation_witness:
  "MarkovChain_init example_prior example_transition 0 False False True =
     Inl (InvalidArgumentError ''Argument `num_steps` must be at least 1.'') \<and>
   MarkovChain_init example_prior example_transition 0 True False True =
     Inr (example_chain 0 True False True) \<and>
   Distribution_sample example_split (example_chain 0 True False True) [] 7 =
     Inl (InvalidArgumentError ''Argument `num_steps` must be at least 1.'') \<and>
   Distribution_log_prob eager_static (example_chain 0 True False True) (Leaf (Tensor [1] [7])) =
     Inl (InvalidArgumentError ''Argument `num_steps` must be at least 1.'')"
  using num_steps_validation [of example_prior example_transition 0 False False True
      "example_chain 0 True False True" example_split "[]" 7 eager_static "Leaf (Tensor [1] [7])"]
    num_steps_validation [of example_prior example_transition 0 True False True
      "example_chain 0 True False True" example_split "[]" 7 eager_static "Leaf (Tensor [1] [7])"]
  by (simp add: example_chain_def)

text \<open>
  Claim C7 at a prior whose log-density is a scalar and a transition whose log-density has
  the batch shape \<open>[2]\<close>, under \<open>validate_args\<close>. When the static shapes are known,
  \<open>log_prob\<close> raises the \<open>ValueError\<close>. When they are not, the runtime assertion is made,
  but it compares the shape vectors \<open>[]\<close> and \<open>[2]\<close> under broadcasting, which leaves
  nothing to compare: the assertion holds, and \<open>log_prob\<close> returns the broadcast sum, of
  shape \<open>[2]\<close>, where the claim has it fail with the shape error.
\<close>

theorem log_prob_shape_unchecked:
  "validate_args (wide_chain True) \<and>
   log_prob_parts (wide_chain True) (Leaf (Tensor [2] [1, 2])) =
     Inr (Tensor [] [5], Tensor [1, 2] [1, 1]) \<and>
   sum_fn (wide_chain True) (Tensor [1, 2] [1, 1]) = Inr (Tensor [2] [1, 1]) \<and>
   log_prob eager_static (wide_chain True) (Leaf (Tensor [2] [1, 2])) =
     Inl (ValueError shape_message) \<and>
   assert_same_shape unknown_static (Tensor [] [5]) (Tensor [2] [1, 1 :: int]) shape_message True =
     Inr [assert_equal (tf_shape (Tensor [] [5 :: int])) (tf_shape (Tensor [2] [1, 1 :: int]))
            shape_message] \<and>
   assert_equal (tf_shape (Tensor [] [5 :: int])) (tf_shape (Tensor [2] [1, 1 :: int]))
     shape_message = Inr () \<and>
   log_prob unknown_static (wide_chain True) (Leaf (Tensor [2] [1, 2])) =
     Inr (Tensor [2] [6, 6])"
proof -
  have parts: "log_prob_parts (wide_chain True) (Leaf (Tensor [2] [1, 2])) =
      Inr (Tensor [] [5], Tensor [1, 2] [1, 1])"
    by (simp add: wide_chain_def log_prob_parts_def step_axes_def example_prior_def
        map_structure2_def move_dimension_def axis_to_front_def axis_from_front_def
        to_front_def from_front_def swap_blocks_def tindex_def tslice_def slice_len_def
        slice_bound_def trange_def tf_range_def wide_transition_def leaf_map_def
        constant_tensor_def upt_rec [of 0] upt_rec [of 1] numeral_2_eq_2)
  have sum: "sum_fn (wide_chain True) (Tensor [1, 2] [1, 1]) = Inr (Tensor [2] [1, 1])"
    by (simp add: sum_fn_def wide_chain_def reduce_sum_def rows_def numeral_2_eq_2)
  have add: "tensor_add (Tensor [] [5]) (Tensor [2] [1, 1 :: int]) = Inr (Tensor [2] [6, 6])"
    by (simp add: tensor_add_def tensor_binop_def broadcast_shapes_def broadcast_pos_def
        upt_rec [of 0] upt_rec [of 1] numeral_2_eq_2)
  have eq: "assert_equal (tf_shape (Tensor [] [5 :: int])) (tf_shape (Tensor [2] [1, 1 :: int]))
      shape_message = Inr ()"
    by (simp add: assert_equal_def tf_shape_def tensor_binop_def broadcast_shapes_def)
  have same: "assert_same_shape unknown_static (Tensor [] [5]) (Tensor [2] [1, 1 :: int])
      shape_message True =
      Inr [assert_equal (tf_shape (Tensor [] [5 :: int])) (tf_shape (Tensor [2] [1, 1 :: int]))
             shape_message]"
    by (simp add: assert_same_shape_def unknown_static_def is_compatible_with_def
        is_fully_defined_def)
  have v: "validate_args (wide_chain True)" by (simp add: wide_chain_def)
  have lp: "log_prob static_shape (wide_chain True) (Leaf (Tensor [2] [1, 2])) =
      and_then (assert_same_shape static_shape (Tensor [] [5]) (Tensor [2] [1, 1]) shape_message
                  True)
        (\<lambda>assertions. and_then (control_dependencies assertions)
           (\<lambda>_. tensor_add (Tensor [] [5]) (Tensor [2] [1, 1])))" for static_shape
    using v by (simp only: log_prob_def parts and_then_Inr prod.case sum)
  have static: "log_prob eager_static (wide_chain True) (Leaf (Tensor [2] [1, 2])) =
      Inl (ValueError shape_message)"
    by (simp add: lp assert_same_shape_def eager_static_def is_compatible_with_def)
  have "log_prob unknown_static (wide_chain True) (Leaf (Tensor [2] [1, 2])) =
      Inr (Tensor [2] [6, 6])"
    by (simp only: lp same and_then_Inr eq control_dependencies.simps add)
  with v parts sum static same eq show ?thesis by simp
qed

text \<open>
  Claim C10. For a trajectory of one step, \<open>log_prob_parts\<close> still calls the transition
  function, once, on the empty range of step indices and on slices of extent 0 along the
  leading axis, and evaluates the log-density of the result at slices of extent 0. A
  transition function that fails on such arguments makes \<open>log_prob\<close> fail with its error.
  When it returns a log-density of extent 0 whose remaining shape is the prior's, the
  reduction of that log-density is the tensor of zeros, and \<open>log_prob\<close> is the prior
  log-density of the single step.
\<close>

theorem single_step_log_prob:
  fixes mc :: "('a :: {monoid_add, minus}, 's) markov_chain"
  assumes "step_major mc x = Inr X" and "leading_extent 1 X" and "flatten X \<noteq> []"
  shows "\<exists>x0 previous current.
           map_structure (tindex 0) X = Inr x0 \<and>
           map_structure (tslice 0 0) X = Inr previous \<and> leading_extent 0 previous \<and>
           map_structure (tslice 1 1) X = Inr current \<and> leading_extent 0 current \<and>
           trange 0 0 = Tensor [0] [] \<and>
           log_prob_parts mc x =
             and_then (transition_fn mc (trange 0 0) previous) (\<lambda>d.
               Inr (dist_log_prob (initial_state_prior mc) x0, dist_log_prob d current)) \<and>
           (\<forall>e. transition_fn mc (trange 0 0) previous = Inl e \<longrightarrow>
                  log_prob static_shape mc x = Inl e) \<and>
           (\<forall>d. transition_fn mc (trange 0 0) previous = Inr d \<and>
                  shape (dist_log_prob d current) =
                    0 # shape (dist_log_prob (initial_state_prior mc) x0) \<and>
                  wf_tensor (dist_log_prob (initial_state_prior mc) x0) \<and>
                  sound_static static_shape \<longrightarrow>
                  sum_fn mc (dist_log_prob d current) =
                    Inr (zeros (shape (dist_log_prob (initial_state_prior mc) x0))) \<and>
                  log_prob static_shape mc x = Inr (dist_log_prob (initial_state_prior mc) x0))"
proof -
  obtain x0 where x0: "map_structure (tindex 0) X = Inr x0"
    using map_structure_tindex [OF assms(2), of 0] by auto
  obtain previous where p: "map_structure (tslice 0 0) X = Inr previous"
    and pe: "leading_extent (slice_len 0 0 1) previous"
    using map_structure_tslice [OF assms(2), of 0 0] by auto
  obtain current where c: "map_structure (tslice 1 1) X = Inr current"
    and ce: "leading_extent (slice_len 1 1 1) current"
    using map_structure_tslice [OF assms(2), of 1 1] by auto
  let ?p = "dist_log_prob (initial_state_prior mc) x0"
  have parts: "log_prob_parts mc x =
      and_then (transition_fn mc (trange 0 0) previous) (\<lambda>d. Inr (?p, dist_log_prob d current))"
    using log_prob_parts_step_major [OF assms] x0 p c
    by (simp add: vectorized_lps_def and_then_assoc tf_range_def)
  have fails: "log_prob static_shape mc x = Inl e"
    if "transition_fn mc (trange 0 0) previous = Inl e" for e
    using that parts by (intro log_prob_Inl) simp
  have succeeds: "sum_fn mc (dist_log_prob d current) = Inr (zeros (shape ?p)) \<and>
      log_prob static_shape mc x = Inr ?p"
    if d: "transition_fn mc (trange 0 0) previous = Inr d"
      and s: "shape (dist_log_prob d current) = 0 # shape ?p"
      and w: "wf_tensor ?p" and st: "sound_static static_shape" for d
  proof -
    have sum: "sum_fn mc (dist_log_prob d current) = Inr (zeros (shape ?p))"
      using s by (rule sum_fn_empty)
    have "log_prob static_shape mc x = tensor_add ?p (zeros (shape ?p))"
      using parts d sum st by (intro log_prob_Inr) (simp_all add: zeros_def)
    with sum w show ?thesis by (simp add: tensor_add_zeros)
  qed
  from x0 p pe c ce parts fails succeeds show ?thesis
    by (simp add: slice_len_def slice_bound_def trange_def)
qed

theorem single_step_log_prob_witness:
  "step_major (example_chain 1 False False False) (Leaf (Tensor [1] [7])) = Inr (Leaf (Tensor [1] [7])) \<and>
   leading_extent 1 (Leaf (Tensor [1] [7 :: int])) \<and> flatten (Leaf (Tensor [1] [7 :: int])) \<noteq> [] \<and>
   log_prob_parts (example_chain 1 False False False) (Leaf (Tensor [1] [7])) =
     Inr (Tensor [] [35], Tensor [0] []) \<and>
   log_prob eager_static (example_chain 1 False False False) (Leaf (Tensor [1] [7])) =
     Inr (Tensor [] [35]) \<and>
   step_major strict_chain (Leaf (Tensor [1] [7])) = Inr (Leaf (Tensor [1] [7])) \<and>
   log_prob eager_static strict_chain (Leaf (Tensor [1] [7])) =
     Inl (CollaboratorError ''no step to take'')"
proof -
  let ?x = "Leaf (Tensor [1] [7 :: int])"
  have h1: "step_major (example_chain 1 False False False) ?x = Inr ?x"
    by (simp add: engine_defs example_defs)
  have h1': "step_major strict_chain ?x = Inr ?x"
    by (simp add: engine_defs example_defs strict_chain_def)
  have h2: "leading_extent 1 ?x" by (simp add: leading_extent_def)
  have h3: "flatten ?x \<noteq> []" by simp
  have i: "map_structure (tindex 0) ?x = Inr (Leaf (Tensor [] [7]))"
    "map_structure (tslice 0 0) ?x = Inr (Leaf (Tensor [0] []))"
    "map_structure (tslice 1 1) ?x = Inr (Leaf (Tensor [0] []))"
    by (simp_all add: engine_defs)
  have t: "transition_fn (example_chain 1 False False False) (trange 0 0) (Leaf (Tensor [0] [])) =
      example_transition (Tensor [0] []) (Leaf (Tensor [0] []))"
    "transition_fn strict_chain (trange 0 0) (Leaf (Tensor [0] [])) =
      Inl (CollaboratorError ''no step to take'')"
    by (simp_all add: example_chain_def strict_chain_def strict_transition_def trange_def)
  have w: "wf_tensor (Tensor [] [35 :: int])" by (simp add: wf_tensor_def)
  have e: "example_transition (Tensor [0] []) (Leaf (Tensor [0] [])) = Inr d \<Longrightarrow>
      dist_log_prob d (Leaf (Tensor [0] [])) = Tensor [0] []" for d
    by (auto simp: example_defs)
  have p: "dist_log_prob (initial_state_prior (example_chain 1 False False False))
      (Leaf (Tensor [] [7])) = Tensor [] [35]"
    "dist_log_prob (initial_state_prior strict_chain) (Leaf (Tensor [] [7])) = Tensor [] [35]"
    by (simp_all add: example_defs strict_chain_def)
  have d: "\<exists>d. example_transition (Tensor [0] []) (Leaf (Tensor [0] [])) = Inr d"
    by (simp add: example_defs)
  have "log_prob_parts (example_chain 1 False False False) ?x = Inr (Tensor [] [35], Tensor [0] []) \<and>
      log_prob eager_static (example_chain 1 False False False) ?x = Inr (Tensor [] [35])"
    using single_step_log_prob [OF h1 h2 h3, of eager_static, unfolded i] w sound_static_eager d
    by (auto simp: t p e)
  moreover have "log_prob eager_static strict_chain ?x = Inl (CollaboratorError ''no step to take'')"
    using single_step_log_prob [OF h1' h2 h3, of eager_static, unfolded i]
    by (simp add: t)
  ultimately show ?thesis using h1 h1' h2 h3 by simp
qed

text \<open>
  Claim C9. \<open>log_prob\<close> does not read the configured \<open>num_steps\<close>: its result is the same
  for every value of it. The number of steps that it uses is the extent of the first
  flattened leaf of the trajectory along its step axis. The public operation checks the
  trajectory against \<open>num_steps\<close> only under \<open>validate_args\<close>: without it, it is the method
  \<open>log_prob\<close>, so that a trajectory of any extent is evaluated as a chain of that many steps;
  with it, the extents of all leaves along their step axes are compared with \<open>num_steps\<close>
  and the operation fails with the error of the assertion when one of them differs.
\<close>

theorem log_prob_step_count:
  "log_prob static_shape (mc\<lparr>num_steps := k\<rparr>) x = log_prob static_shape mc x \<and>
   (\<not> validate_args mc \<longrightarrow>
      Distribution_log_prob static_shape mc x = log_prob static_shape mc x \<and>
      Distribution_log_prob static_shape (mc\<lparr>num_steps := k\<rparr>) x =
        Distribution_log_prob static_shape mc x) \<and>
   (step_major mc x = Inr X \<and> flatten x = l # ls \<and> flatten (step_axes mc) = ax # axs \<and>
    shape_at l ax = Inr (int n) \<longrightarrow>
      log_prob_parts mc x =
        and_then (map_structure (tindex 0) X) (\<lambda>x0.
        and_then (vectorized_lps (transition_fn mc) X n) (\<lambda>lps.
        Inr (dist_log_prob (initial_state_prior mc) x0, lps)))) \<and>
   (validate_args mc \<and> \<not> (num_steps_is_ref mc \<and> num_steps mc < 1) \<and>
    map_structure2 shape_at x (step_axes mc) = Inr extents \<longrightarrow>
      Distribution_log_prob static_shape mc x =
        (if \<forall>e\<in>set (flatten extents). e = num_steps mc then log_prob static_shape mc x
         else Inl (InvalidArgumentError ''Input shape does not match the expected num_steps.'')))"
proof (intro conjI impI)
  have parts: "log_prob_parts (mc\<lparr>num_steps := k\<rparr>) x = log_prob_parts mc x"
    by (simp add: log_prob_parts_def step_axes_def)
  have sum: "sum_fn (mc\<lparr>num_steps := k\<rparr>) = sum_fn mc"
    by (simp add: sum_fn_def)
  show same: "log_prob static_shape (mc\<lparr>num_steps := k\<rparr>) x = log_prob static_shape mc x"
    by (simp add: log_prob_def parts sum)
  {
    assume v: "\<not> validate_args mc"
    then show "Distribution_log_prob static_shape mc x = log_prob static_shape mc x"
      by (simp add: Distribution_log_prob_def parameter_control_dependencies_def
          sample_control_dependencies_def)
    from v show "Distribution_log_prob static_shape (mc\<lparr>num_steps := k\<rparr>) x =
        Distribution_log_prob static_shape mc x"
      by (simp add: Distribution_log_prob_def parameter_control_dependencies_def
          sample_control_dependencies_def same)
  }
  {
    assume a: "step_major mc x = Inr X \<and> flatten x = l # ls \<and> flatten (step_axes mc) = ax # axs \<and>
      shape_at l ax = Inr (int n)"
    then obtain t ts where f: "flatten X = t # ts" and m: "move_dimension l ax 0 = Inr t"
      using step_major_first_leaf by blast
    from m a have "shape t \<noteq> []" "hd (shape t) = n"
      using shape_axis_to_0 [OF m] by auto
    then obtain rest where "shape t = n # rest" by (cases "shape t") auto
    with a f show "log_prob_parts mc x =
        and_then (map_structure (tindex 0) X) (\<lambda>x0.
        and_then (vectorized_lps (transition_fn mc) X n) (\<lambda>lps.
        Inr (dist_log_prob (initial_state_prior mc) x0, lps)))"
      by (intro log_prob_parts_first_leaf) auto
  }
  {
    assume a: "validate_args mc \<and> \<not> (num_steps_is_ref mc \<and> num_steps mc < 1) \<and>
      map_structure2 shape_at x (step_axes mc) = Inr extents"
    then have "control_dependencies (parameter_control_dependencies mc False) = Inr ()"
      by (auto simp: parameter_control_dependencies_def assert_greater_equal_def)
    with a show "Distribution_log_prob static_shape mc x =
        (if \<forall>e\<in>set (flatten extents). e = num_steps mc then log_prob static_shape mc x
         else Inl (InvalidArgumentError ''Input shape does not match the expected num_steps.''))"
      by (simp add: Distribution_log_prob_def sample_control_dependencies_def
          control_dependencies_assert_equal)
  }
qed

theorem log_prob_step_count_witness:
  "step_major (example_chain 3 False False False) (Leaf (Tensor [2] [1, 4])) =
     Inr (Leaf (Tensor [2] [1, 4])) \<and>
   shape_at (Tensor [2] [1, 4 :: int]) (- 1) = Inr (int 2) \<and>
   log_prob_parts (example_chain 3 False False False) (Leaf (Tensor [2] [1, 4])) =
     Inr (Tensor [] [5], Tensor [1] [2]) \<and>
   Distribution_log_prob eager_static (example_chain 3 False False False) (Leaf (Tensor [2] [1, 4])) =
     Inr (Tensor [] [7]) \<and>
   Distribution_log_prob eager_static (example_chain 3 False False True) (Leaf (Tensor [2] [1, 4])) =
     Inl (InvalidArgumentError ''Input shape does not match the expected num_steps.'')"
proof -
  let ?x = "Leaf (Tensor [2] [1, 4 :: int])"
  let ?mc = "example_chain 3 False False False"
  have sm: "step_major (example_chain 3 False False v) ?x = Inr ?x" for v
    by (simp add: engine_defs example_defs)
  have at: "shape_at (Tensor [2] [1, 4 :: int]) (- 1) = Inr (int 2)"
    by (simp add: shape_at_def)
  have ax: "flatten (step_axes (example_chain 3 False False v)) = [- 1]" for v
    by (simp add: step_axes_def example_defs)
  have vec: "vectorized_lps example_transition ?x 2 = Inr (Tensor [1] [2])"
    by (simp add: vectorized_lps_def engine_defs example_defs tf_range_def)
  have i0: "map_structure (tindex 0) ?x = Inr (Leaf (Tensor [] [1]))"
    by (simp add: engine_defs)
  have pl: "dist_log_prob example_prior (Leaf (Tensor [] [1])) = Tensor [] [5]"
    by (simp add: example_defs)
  have parts: "log_prob_parts ?mc ?x = Inr (Tensor [] [5], Tensor [1] [2])"
    using log_prob_step_count [where static_shape = eager_static and mc = ?mc and k = 0 and x = ?x
        and X = ?x and l = "Tensor [2] [1, 4]" and ls = "[]" and ax = "- 1" and axs = "[]" and n = 2
        and extents = "Leaf 2"]
      sm [of False] at ax [of False]
    by (simp add: vec example_chain_sel pl tindex_def)
  have "sum_fn ?mc (Tensor [1] [2]) = Inr (Tensor [] [2])"
    by (simp add: sum_fn_def example_chain_sel reduce_sum_def rows_def)
  with parts have lp: "log_prob eager_static ?mc ?x = Inr (Tensor [] [7])"
    by (simp add: log_prob_def assert_same_shape_def eager_static_def is_compatible_with_def
        example_chain_sel tensor_add_def tensor_binop_def)
  have off: "Distribution_log_prob eager_static ?mc ?x = Inr (Tensor [] [7])"
    using log_prob_step_count [where static_shape = eager_static and mc = ?mc and k = 0 and x = ?x
        and X = ?x and l = "Tensor [2] [1, 4]" and ls = "[]" and ax = "- 1" and axs = "[]" and n = 2
        and extents = "Leaf 2"]
    by (simp add: lp example_chain_sel)
  have ext: "map_structure2 shape_at ?x (step_axes (example_chain 3 False False True)) = Inr (Leaf 2)"
    by (simp add: map_structure2_def step_axes_def example_defs shape_at_def)
  have on: "Distribution_log_prob eager_static (example_chain 3 False False True) ?x =
      Inl (InvalidArgumentError ''Input shape does not match the expected num_steps.'')"
    using log_prob_step_count [where static_shape = eager_static
        and mc = "example_chain 3 False False True" and k = 0 and x = ?x
        and X = ?x and l = "Tensor [2] [1, 4]" and ls = "[]" and ax = "- 1" and axs = "[]" and n = 2
        and extents = "Leaf 2"] ext
    by (simp add: example_chain_sel)
  from sm [of False] at parts off on show ?thesis by simp
qed

text \<open>
  Claim C1, in exact arithmetic (the elements form a commutative group, in which the
  plain and the compensated sum agree). Let \<open>X\<close> be the trajectory \<open>x\<close> with the step axis
  of each leaf moved to the front, well formed and of extent \<open>n \<ge> 1\<close>, and let \<open>x\<^sub>0\<close> be
  its slice at step 0. Let \<open>A\<close> hold the slices \<open>x\<^sub>0 .. x\<^sub>n\<^sub>-\<^sub>2\<close> and \<open>B\<close> the slices
  \<open>x\<^sub>1 .. x\<^sub>n\<^sub>-\<^sub>1\<close> of \<open>X\<close>, and let the transition function vectorize over them with the
  batch shape \<open>s\<close> of the prior's log-density. Then \<open>log_prob_parts\<close> makes one call of the
  transition function: its step argument is the vector of the \<open>n-1\<close> steps \<open>0 .. n-2\<close>,
  its state argument \<open>x[:n-1]\<close> is \<open>A\<close>, and the log-density of the result is taken at
  \<open>x[1:n]\<close>, which is \<open>B\<close>. And each element of \<open>log_prob(x)\<close> is the element of the
  prior's log-density of \<open>x\<^sub>0\<close> plus the sum over \<open>t = 1 .. n-1\<close> of the elements of
  \<open>transition(t-1, x\<^sub>t\<^sub>-\<^sub>1).log_prob(x\<^sub>t)\<close>.
\<close>

theorem log_prob_additivity:
  fixes mc :: "('a :: ab_group_add, 's) markov_chain"
  assumes "step_major mc x = Inr X" and "leading_extent n X" and "flatten X \<noteq> []" and "0 < n"
    and "pred_nest wf_tensor X"
    and "map_structure (tindex 0) X = Inr x0"
    and "vectorizes (transition_fn mc) X n A B s"
    and "wf_tensor (dist_log_prob (initial_state_prior mc) x0)"
    and "shape (dist_log_prob (initial_state_prior mc) x0) = s"
    and "sound_static static_shape"
  shows "tf_range 0 (int n - 1) = Inr (Tensor [n - 1] (map int [0..<n - 1])) \<and>
         map_structure (tslice 0 (int n - 1)) X = Inr A \<and>
         map_structure (tslice 1 (int n)) X = Inr B \<and>
         (\<exists>d. transition_fn mc (Tensor [n - 1] (map int [0..<n - 1])) A = Inr d \<and>
              log_prob_parts mc x =
                Inr (dist_log_prob (initial_state_prior mc) x0, dist_log_prob d B)) \<and>
         (\<exists>r. log_prob static_shape mc x = Inr r \<and> shape r = s \<and>
              length (elems r) = prod_list s \<and>
              (\<forall>j<prod_list s.
                 elems r ! j =
                   elems (dist_log_prob (initial_state_prior mc) x0) ! j +
                   (\<Sum>t = 1..<n.
                      elems (projr (stepwise_lp (transition_fn mc) X (t - 1))) ! j)))"
proof -
  let ?p = "dist_log_prob (initial_state_prior mc) x0"
  let ?m = "prod_list s"
  from vectorized_lps_rows [OF assms(7,5,2,4)] obtain d
    where A: "map_structure (tslice 0 (int n - 1)) X = Inr A"
      and B: "map_structure (tslice 1 (int n)) X = Inr B"
      and d: "transition_fn mc (Tensor [n - 1] (map int [0..<n - 1])) A = Inr d"
      and vec: "vectorized_lps (transition_fn mc) X n = Inr (dist_log_prob d B)"
      and wf: "wf_tensor (dist_log_prob d B)"
      and sh: "shape (dist_log_prob d B) = (n - 1) # s"
      and law: "\<forall>t<n - 1. stepwise_lp (transition_fn mc) X t = tindex t (dist_log_prob d B)"
    by blast
  let ?lps = "dist_log_prob d B"
  let ?q = "Tensor s (map (\<lambda>j. sum_list (map (\<lambda>row. row ! j) (rows ?lps))) [0..<?m])"
  have parts: "log_prob_parts mc x = Inr (?p, ?lps)"
    using log_prob_parts_step_major [OF assms(1,2,3)] assms(6) vec by simp
  have sum: "sum_fn mc ?lps = Inr ?q"
    using wf sh by (simp add: sum_fn_exact reduce_sum_elems)
  have "log_prob static_shape mc x = tensor_add ?p ?q"
    using parts sum assms(10) by (rule log_prob_Inr) (simp add: assms(9))
  then have lp: "log_prob static_shape mc x = Inr (Tensor s (map2 (+) (elems ?p) (elems ?q)))"
    using assms(9) by (simp add: tensor_add_def tensor_binop_same_shape)
  have lenp: "length (elems ?p) = ?m"
    using assms(8,9) by (simp add: wf_tensor_def)
  have step: "elems (projr (stepwise_lp (transition_fn mc) X t)) = rows ?lps ! t"
    if "t < n - 1" for t
    using law that sh by (simp add: tindex_rows)
  have "map2 (+) (elems ?p) (elems ?q) ! j =
      elems ?p ! j + (\<Sum>t = 1..<n. elems (projr (stepwise_lp (transition_fn mc) X (t - 1))) ! j)"
    if j: "j < ?m" for j
  proof -
    have "map (\<lambda>row. row ! j) (rows ?lps) = map (\<lambda>t. rows ?lps ! t ! j) [0..<n - 1]"
      using sh by (intro nth_equalityI) simp_all
    also have "\<dots> = map (\<lambda>t. elems (projr (stepwise_lp (transition_fn mc) X t)) ! j) [0..<n - 1]"
      by (simp add: step)
    finally have "sum_list (map (\<lambda>row. row ! j) (rows ?lps)) =
        (\<Sum>t = 1..<Suc (n - 1). elems (projr (stepwise_lp (transition_fn mc) X (t - 1))) ! j)"
      by (simp only: sum_list_rows)
    with j lenp assms(4) show ?thesis by simp
  qed
  with lp lenp have "\<exists>r. log_prob static_shape mc x = Inr r \<and> shape r = s \<and>
      length (elems r) = prod_list s \<and>
      (\<forall>j<prod_list s.
         elems r ! j = elems ?p ! j +
           (\<Sum>t = 1..<n. elems (projr (stepwise_lp (transition_fn mc) X (t - 1))) ! j))"
    by simp
  with tf_range_steps [OF assms(4)] A B d parts show ?thesis by blast
qed

theorem log_prob_additivity_witness:
  "step_major (example_chain 3 False False False) (Leaf (Tensor [3] [1, 4, 9])) =
     Inr (Leaf (Tensor [3] [1, 4, 9])) \<and>
   vectorizes example_transition (Leaf (Tensor [3] [1, 4, 9])) 3
     (Leaf (Tensor [2] [1, 4])) (Leaf (Tensor [2] [4, 9])) [] \<and>
   stepwise_lp example_transition (Leaf (Tensor [3] [1, 4, 9])) 0 = Inr (Tensor [] [2]) \<and>
   stepwise_lp example_transition (Leaf (Tensor [3] [1, 4, 9])) 1 = Inr (Tensor [] [0]) \<and>
   map_structure (tslice 0 2) (Leaf (Tensor [3] [1, 4, 9 :: int])) = Inr (Leaf (Tensor [2] [1, 4])) \<and>
   map_structure (tslice 1 3) (Leaf (Tensor [3] [1, 4, 9 :: int])) = Inr (Leaf (Tensor [2] [4, 9])) \<and>
   log_prob_parts (example_chain 3 False False False) (Leaf (Tensor [3] [1, 4, 9])) =
     Inr (Tensor [] [5], Tensor [2] [2, 0]) \<and>
   (\<exists>r. log_prob eager_static (example_chain 3 False False False) (Leaf (Tensor [3] [1, 4, 9])) =
          Inr r \<and> shape r = [] \<and> elems r ! 0 = 7)"
proof -
  let ?X = "Leaf (Tensor [3] [1, 4, 9 :: int])"
  let ?A = "Leaf (Tensor [2] [1, 4 :: int])"
  let ?B = "Leaf (Tensor [2] [4, 9 :: int])"
  let ?mc = "example_chain 3 False False False"
  have h1: "step_major ?mc ?X = Inr ?X"
    by (simp add: engine_defs example_defs)
  have h2: "leading_extent 3 ?X" by (simp add: leading_extent_def)
  have h3: "flatten ?X \<noteq> []" by simp
  have h4: "pred_nest wf_tensor ?X" by (simp add: wf_tensor_def)
  have h5: "map_structure (tindex 0) ?X = Inr (Leaf (Tensor [] [1]))"
    by (simp add: engine_defs)
  have s0: "stepwise_lp example_transition ?X 0 = Inr (Tensor [] [2])"
    by (simp add: stepwise_lp_def engine_defs example_defs scalar_def)
  have s1: "stepwise_lp example_transition ?X 1 = Inr (Tensor [] [0])"
    by (simp add: stepwise_lp_def engine_defs example_defs scalar_def)
  have rA: "is_rows ?A ?X 0 (3 - 1)"
    by (simp add: is_rows_def wf_tensor_def tindex_def less_Suc_eq numeral_2_eq_2)
  have rB: "is_rows ?B ?X 1 (3 - 1)"
    by (simp add: is_rows_def wf_tensor_def tindex_def less_Suc_eq numeral_2_eq_2)
  have st: "Tensor [3 - 1] (map int [0..<3 - 1]) = Tensor [2] [0, 1]"
    by (simp add: upt_rec)
  have v: "vectorizes example_transition ?X 3 ?A ?B []"
  proof -
    obtain d where d: "example_transition (Tensor [2] [0, 1]) ?A = Inr d"
      by (simp add: example_defs)
    then have lp: "dist_log_prob d ?B = Tensor [2] [2, 0]"
      by (auto simp: example_defs)
    have law: "\<forall>t<3 - 1. stepwise_lp example_transition ?X t = tindex t (Tensor [2] [2, 0])"
      using s0 s1 by (simp add: tindex_def less_Suc_eq numeral_2_eq_2)
    show ?thesis
      unfolding vectorizes_def st using rA rB law by (simp add: d lp wf_tensor_def)
  qed
  then have h7: "vectorizes (transition_fn ?mc) ?X 3 ?A ?B []"
    by (simp add: example_chain_sel)
  have pl': "dist_log_prob example_prior (Leaf (Tensor [] [1])) = Tensor [] [5]"
    by (simp add: example_defs)
  then have pl: "dist_log_prob (initial_state_prior ?mc) (Leaf (Tensor [] [1])) = Tensor [] [5]"
    by (simp add: example_chain_sel)
  have h8: "wf_tensor (dist_log_prob (initial_state_prior ?mc) (Leaf (Tensor [] [1])))"
    by (simp add: pl wf_tensor_def)
  have h9: "shape (dist_log_prob (initial_state_prior ?mc) (Leaf (Tensor [] [1]))) = []"
    by (simp add: pl)
  have sum: "(\<Sum>t = 1..<3. elems (projr (stepwise_lp example_transition ?X (t - 1))) ! 0) = 2"
    using s0 s1 by (simp add: numeral_3_eq_3)
  have lp: "dist_log_prob d ?B = Tensor [2] [2, 0]"
    if "example_transition (Tensor [2] [0, 1]) ?A = Inr d" for d
    using that by (auto simp: example_defs)
  note th = log_prob_additivity [OF h1 h2 h3 _ h4 h5 h7 h8 h9 sound_static_eager,
      unfolded st example_chain_sel pl']
  from th have sl: "map_structure (tslice 0 2) ?X = Inr ?A" "map_structure (tslice 1 3) ?X = Inr ?B"
    by simp_all
  from th lp have parts: "log_prob_parts ?mc ?X = Inr (Tensor [] [5], Tensor [2] [2, 0])"
    by auto
  from th sum have "\<exists>r. log_prob eager_static ?mc ?X = Inr r \<and> shape r = [] \<and> elems r ! 0 = 7"
    by auto
  with h1 v s0 s1 sl parts show ?thesis by blast
qed



text \<open>
  Claim C2. For a chain of one step at least, \<open>sample\<close> runs the recurrence
  \<open>chain_draw\<close> of the spec for the steps \<open>0 .. num_steps-1\<close>: the seed is split into the
  prior seed and the loop seed, \<open>x\<^sub>0\<close> is drawn from the prior with the prior seed, and
  each later \<open>x\<^sub>t\<close> is drawn from \<open>transition(t-1, x\<^sub>t\<^sub>-\<^sub>1)\<close> with the step seed that the
  split of the loop seed gives next to the new loop seed. The draws are stacked, leaf by
  leaf, and the leading axis of each leaf is moved to the step axis of the leaf, which is
  \<open>-(1 + event rank of the leaf)\<close>. The stack of well-formed draws has the draw \<open>x\<^sub>t\<close> at
  the index \<open>t\<close> of its leading axis, whose extent is the number of draws. A chain of
  less than one step has no sample: the range \<open>1 .. num_steps-1\<close> of the loop is refused.
\<close>

theorem sample_recurrence:
  "(1 \<le> num_steps mc \<longrightarrow>
      sample_n split_seed mc sample_shape seed =
        and_then (collect (chain_draw split_seed mc sample_shape seed)
                    [0..<nat (num_steps mc)]) (\<lambda>draws.
        and_then (stack_draws (map snd draws)) (\<lambda>stacked.
        map_structure2 (\<lambda>x axis. move_dimension x 0 axis) stacked (step_axes mc)))) \<and>
   (num_steps mc < 1 \<longrightarrow>
      sample_n split_seed mc sample_shape seed =
        Inl (InvalidArgumentError ''Requires start <= limit when delta > 0'')) \<and>
   step_axes mc =
     map_nest (\<lambda>event_shape. - (1 + int (length event_shape)))
       (dist_event_shape_tensor (initial_state_prior mc)) \<and>
   (stack_draws xs = Inr stacked \<and> (\<forall>x\<in>set xs. pred_nest wf_tensor x) \<longrightarrow>
      is_stack stacked xs)"
proof (intro conjI impI)
  show "sample_n split_seed mc sample_shape seed =
      and_then (collect (chain_draw split_seed mc sample_shape seed)
                  [0..<nat (num_steps mc)]) (\<lambda>draws.
      and_then (stack_draws (map snd draws)) (\<lambda>stacked.
      map_structure2 (\<lambda>x axis. move_dimension x 0 axis) stacked (step_axes mc)))"
    if "1 \<le> num_steps mc"
    using that by (rule sample_n_collect)
  show "sample_n split_seed mc sample_shape seed =
      Inl (InvalidArgumentError ''Requires start <= limit when delta > 0'')"
    if "num_steps mc < 1"
    using that by (rule sample_n_invalid)
  show "step_axes mc =
      map_nest (\<lambda>event_shape. - (1 + int (length event_shape)))
        (dist_event_shape_tensor (initial_state_prior mc))"
    by (simp add: step_axes_def nest.map_comp comp_def)
  show "is_stack stacked xs"
    if "stack_draws xs = Inr stacked \<and> (\<forall>x\<in>set xs. pred_nest wf_tensor x)"
    using that by (auto intro: is_stack_stack_draws)
qed

theorem sample_recurrence_witness:
  "1 \<le> num_steps (example_chain 3 False False False) \<and>
   collect (chain_draw example_split (example_chain 3 False False False) [] 2) [0..<3] =
     Inr [(8, Leaf (Tensor [] [7])), (18, Leaf (Tensor [] [24])), (38, Leaf (Tensor [] [61]))] \<and>
   stack_draws [Leaf (Tensor [] [7]), Leaf (Tensor [] [24]), Leaf (Tensor [] [61 :: int])] =
     Inr (Leaf (Tensor [3] [7, 24, 61])) \<and>
   sample_n example_split (example_chain 3 False False False) [] 2 =
     Inr (Leaf (Tensor [3] [7, 24, 61])) \<and>
   is_stack (Leaf (Tensor [3] [7, 24, 61]))
     [Leaf (Tensor [] [7]), Leaf (Tensor [] [24]), Leaf (Tensor [] [61 :: int])] \<and>
   num_steps (example_chain 0 False False False) < 1 \<and>
   sample_n example_split (example_chain 0 False False False) [] 2 =
     Inl (InvalidArgumentError ''Requires start <= limit when delta > 0'')"
proof -
  let ?mc = "example_chain 3 False False False"
  let ?xs = "[Leaf (Tensor [] [7]), Leaf (Tensor [] [24]), Leaf (Tensor [] [61 :: int])]"
  have d: "collect (chain_draw example_split ?mc [] 2) [0..<3] =
      Inr [(8, Leaf (Tensor [] [7])), (18, Leaf (Tensor [] [24])), (38, Leaf (Tensor [] [61]))]"
    by (simp add: eval_nat_numeral upt_rec example_defs scalar_def)
  have s: "stack_draws ?xs = Inr (Leaf (Tensor [3] [7, 24, 61]))"
    by (simp add: map_structure2_def tconcat0_def expand_dims0_def empty_stack_def)
  have m: "map_structure2 (\<lambda>x axis. move_dimension x 0 axis) (Leaf (Tensor [3] [7, 24, 61 :: int]))
      (step_axes ?mc) = Inr (Leaf (Tensor [3] [7, 24, 61]))"
    by (simp add: engine_defs example_defs)
  have w: "\<forall>x\<in>set ?xs. pred_nest wf_tensor x" by (simp add: wf_tensor_def)
  note th = sample_recurrence [where split_seed = example_split and mc = ?mc
      and sample_shape = "[]" and seed = 2 and xs = ?xs
      and stacked = "Leaf (Tensor [3] [7, 24, 61])"]
  have one: "1 \<le> num_steps ?mc" by (simp add: example_chain_sel)
  have n: "[0..<nat (num_steps ?mc)] = [0..<3]"
    by (simp add: example_chain_sel)
  from th [THEN conjunct1, THEN mp, OF one]
  have a: "sample_n example_split ?mc [] 2 = Inr (Leaf (Tensor [3] [7, 24, 61]))"
    by (simp only: n d and_then_Inr list.map snd_conv s m)
  from th [THEN conjunct2, THEN conjunct2, THEN conjunct2] s w
  have b: "is_stack (Leaf (Tensor [3] [7, 24, 61])) ?xs" by blast
  have zero: "num_steps (example_chain 0 False False False) < 1"
    by (simp add: example_chain_sel)
  from sample_recurrence [where split_seed = example_split
      and mc = "example_chain 0 False False False" and sample_shape = "[]" and seed = 2,
      THEN conjunct2, THEN conjunct1, THEN mp, OF zero]
  have c: "sample_n example_split (example_chain 0 False False False) [] 2 =
      Inl (InvalidArgumentError ''Requires start <= limit when delta > 0'')" .
  from one d s a b zero c show ?thesis by blast
qed

text \<open>
  Claim C5. Let \<open>num_steps = 1\<close>. The loop of the sampler runs over the empty range, and
  \<open>sample\<close> is the prior's sample, drawn with the prior seed of the split, with a new axis
  of extent 1 moved to the step axis of each leaf: there is no call of the transition
  function and no further split. When \<open>sample\<close> returns and the prior's sample is well
  formed, each leaf of the result has the elements of the prior's sample, and moving the
  step axis to the front and taking the slice at step 0 gives the prior's sample back.
  For a trajectory \<open>x\<close> of one step whose transition log-density, of extent 0, has the
  shape of the prior's behind its leading axis, \<open>log_prob(x)\<close> is the prior's log-density
  of the single step.
\<close>

theorem single_step_chain:
  fixes mc :: "('a :: {monoid_add, minus}, 's) markov_chain"
  assumes "num_steps mc = 1"
  shows "elems (trange 1 (num_steps mc)) = [] \<and>
         sample_n split_seed mc sample_shape seed =
           map_structure2 (\<lambda>x axis. move_dimension (expand_dims0 x) 0 axis)
             (dist_sample (initial_state_prior mc) sample_shape
                (fst (split_seed (Some ''markov_chain_sample'') seed)))
             (step_axes mc) \<and>
         (sample_n split_seed mc sample_shape seed = Inr r \<and>
          pred_nest wf_tensor
            (dist_sample (initial_state_prior mc) sample_shape
               (fst (split_seed (Some ''markov_chain_sample'') seed))) \<longrightarrow>
            rel_nest (\<lambda>a b. elems b = elems a)
              (dist_sample (initial_state_prior mc) sample_shape
                 (fst (split_seed (Some ''markov_chain_sample'') seed))) r \<and>
            (\<exists>X. step_major mc r = Inr X \<and> leading_extent 1 X \<and>
               map_structure (tindex 0) X =
                 Inr (dist_sample (initial_state_prior mc) sample_shape
                        (fst (split_seed (Some ''markov_chain_sample'') seed))))) \<and>
         (step_major mc x = Inr X \<and> leading_extent 1 X \<and> flatten X \<noteq> [] \<and>
          map_structure (tindex 0) X = Inr x1 \<and>
          vectorized_lps (transition_fn mc) X 1 = Inr lps \<and>
          shape lps = 0 # shape (dist_log_prob (initial_state_prior mc) x1) \<and>
          wf_tensor (dist_log_prob (initial_state_prior mc) x1) \<and>
          sound_static static_shape \<longrightarrow>
            log_prob static_shape mc x = Inr (dist_log_prob (initial_state_prior mc) x1))"
proof (intro conjI impI)
  let ?x0 = "dist_sample (initial_state_prior mc) sample_shape
      (fst (split_seed (Some ''markov_chain_sample'') seed))"
  show "elems (trange 1 (num_steps mc)) = []"
    using assms by (simp add: trange_def)
  have draw: "chain_draw split_seed mc sample_shape seed 0 =
      Inr (snd (split_seed (Some ''markov_chain_sample'') seed), ?x0)"
    by (simp add: case_prod_beta)
  have one: "1 \<le> num_steps mc" using assms by simp
  have "[0..<nat (num_steps mc)] = [0]" using assms by simp
  then have "sample_n split_seed mc sample_shape seed =
      and_then (stack_draws [?x0]) (\<lambda>stacked.
        map_structure2 (\<lambda>x axis. move_dimension x 0 axis) stacked (step_axes mc))"
    unfolding sample_n_collect [OF one]
    by (simp only: collect.simps draw and_then_Inr list.map snd_conv)
  then show sample: "sample_n split_seed mc sample_shape seed =
      map_structure2 (\<lambda>x axis. move_dimension (expand_dims0 x) 0 axis) ?x0 (step_axes mc)"
    by (simp only: stack_draws_single and_then_Inr map_structure2_map_left)
  {
    assume a: "sample_n split_seed mc sample_shape seed = Inr r \<and> pred_nest wf_tensor ?x0"
    with sample have "map_structure2 (\<lambda>x axis. move_dimension (expand_dims0 x) 0 axis) ?x0
        (step_axes mc) = Inr r"
      by simp
    then obtain z where x0: "?x0 = map_nest fst z"
      and rel: "rel_nest (\<lambda>p r. move_dimension (expand_dims0 (fst p)) 0 (snd p) = Inr r) z r"
      unfolding map_structure2_Inr by blast
    have "pred_nest (\<lambda>p. wf_tensor (fst p)) z"
      using a by (simp add: x0 nest.pred_map comp_def)
    with rel have "rel_nest (\<lambda>p r. wf_tensor (fst p) \<and>
        move_dimension (expand_dims0 (fst p)) 0 (snd p) = Inr r) z r"
      by (rule rel_nest_pred_left)
    then have "rel_nest (\<lambda>p b. elems b = elems (fst p)) z r"
      by (rule nest.rel_mono_strong) (auto intro: elems_move_expand)
    then show "rel_nest (\<lambda>a b. elems b = elems a) ?x0 r"
      by (simp add: x0 nest.rel_map)
    have mv: "map_structure2 (\<lambda>x axis. move_dimension x 0 axis) (map_nest expand_dims0 ?x0)
        (step_axes mc) = Inr r"
      using a sample by (simp add: map_structure2_map_left)
    have wf: "pred_nest wf_tensor (map_nest expand_dims0 ?x0)"
      using a by (simp add: nest.pred_map comp_def wf_expand_dims0)
    have "step_major mc r = Inr (map_nest expand_dims0 ?x0)"
      unfolding step_major_def using mv wf by (rule step_major_roundtrip)
    moreover have "leading_extent 1 (map_nest expand_dims0 ?x0)"
      by (simp add: leading_extent_def nest.pred_map comp_def expand_dims0_def nest.pred_True)
    moreover have "map_structure (tindex 0) (map_nest expand_dims0 ?x0) = Inr ?x0"
      using a by (intro map_structure_tindex_expand) simp
    ultimately show "\<exists>X. step_major mc r = Inr X \<and> leading_extent 1 X \<and>
        map_structure (tindex 0) X = Inr ?x0"
      by blast
  }
  {
    let ?p = "dist_log_prob (initial_state_prior mc) x1"
    assume a: "step_major mc x = Inr X \<and> leading_extent 1 X \<and> flatten X \<noteq> [] \<and>
      map_structure (tindex 0) X = Inr x1 \<and>
      vectorized_lps (transition_fn mc) X 1 = Inr lps \<and>
      shape lps = 0 # shape ?p \<and> wf_tensor ?p \<and> sound_static static_shape"
    then have parts: "log_prob_parts mc x = Inr (?p, lps)"
      using log_prob_parts_step_major [of mc x X 1] by simp
    have sum: "sum_fn mc lps = Inr (zeros (shape ?p))"
      using a by (intro sum_fn_empty) simp
    have "log_prob static_shape mc x = tensor_add ?p (zeros (shape ?p))"
      using parts sum by (rule log_prob_Inr) (use a in \<open>simp_all add: zeros_def\<close>)
    with a show "log_prob static_shape mc x = Inr ?p"
      by (simp add: tensor_add_zeros)
  }
qed

theorem single_step_chain_witness:
  "num_steps (example_chain 1 False False False) = 1 \<and>
   sample_n example_split (example_chain 1 False False False) [2] 2 =
     Inr (Leaf (Tensor [2, 1] [7, 7])) \<and>
   dist_sample example_prior [2] (fst (example_split (Some ''markov_chain_sample'') 2)) =
     Leaf (Tensor [2] [7, 7]) \<and>
   (\<exists>X. step_major (example_chain 1 False False False) (Leaf (Tensor [2, 1] [7, 7])) = Inr X \<and>
      leading_extent 1 X \<and> map_structure (tindex 0) X = Inr (Leaf (Tensor [2] [7, 7]))) \<and>
   log_prob eager_static (example_chain 1 False False False) (Leaf (Tensor [1] [7])) =
     Inr (Tensor [] [35])"
proof -
  let ?mc = "example_chain 1 False False False"
  have n: "num_steps ?mc = 1" by (simp add: example_chain_sel)
  have x0: "dist_sample (initial_state_prior ?mc) [2]
      (fst (example_split (Some ''markov_chain_sample'') 2)) = Leaf (Tensor [2] [7, 7])"
    by (simp add: example_chain_sel example_defs numeral_2_eq_2)
  have x0': "dist_sample example_prior [2] (fst (example_split (Some ''markov_chain_sample'') 2)) =
      Leaf (Tensor [2] [7, 7])"
    using x0 by (simp add: example_chain_sel)
  have mv: "map_structure2 (\<lambda>x axis. move_dimension (expand_dims0 x) 0 axis)
      (Leaf (Tensor [2] [7, 7 :: int])) (step_axes ?mc) = Inr (Leaf (Tensor [2, 1] [7, 7]))"
    by (simp add: engine_defs example_defs expand_dims0_def upt_rec [of 0] upt_rec [of 1]
        numeral_2_eq_2)
  note th = single_step_chain [OF n, where split_seed = example_split and sample_shape = "[2]"
      and seed = 2 and r = "Leaf (Tensor [2, 1] [7, 7])" and static_shape = eager_static
      and x = "Leaf (Tensor [1] [7])" and X = "Leaf (Tensor [1] [7])"
      and ?x1.0 = "Leaf (Tensor [] [7])" and lps = "Tensor [0] []"]
  from th [THEN conjunct2, THEN conjunct1]
  have s: "sample_n example_split ?mc [2] 2 = Inr (Leaf (Tensor [2, 1] [7, 7]))"
    by (simp only: x0 mv)
  have w: "pred_nest wf_tensor (Leaf (Tensor [2] [7, 7 :: int]))" by (simp add: wf_tensor_def)
  from th [THEN conjunct2, THEN conjunct2, THEN conjunct1] s w
  have r: "\<exists>X. step_major ?mc (Leaf (Tensor [2, 1] [7, 7])) = Inr X \<and> leading_extent 1 X \<and>
      map_structure (tindex 0) X = Inr (Leaf (Tensor [2] [7, 7]))"
    by (simp only: x0)
  have h: "step_major ?mc (Leaf (Tensor [1] [7])) = Inr (Leaf (Tensor [1] [7])) \<and>
      leading_extent 1 (Leaf (Tensor [1] [7 :: int])) \<and> flatten (Leaf (Tensor [1] [7 :: int])) \<noteq> [] \<and>
      map_structure (tindex 0) (Leaf (Tensor [1] [7 :: int])) = Inr (Leaf (Tensor [] [7])) \<and>
      vectorized_lps (transition_fn ?mc) (Leaf (Tensor [1] [7])) 1 = Inr (Tensor [0] []) \<and>
      shape (Tensor [0] [] :: int tensor) =
        0 # shape (dist_log_prob (initial_state_prior ?mc) (Leaf (Tensor [] [7]))) \<and>
      wf_tensor (dist_log_prob (initial_state_prior ?mc) (Leaf (Tensor [] [7]))) \<and>
      sound_static (eager_static :: int tensor \<Rightarrow> tshape)"
    by (simp add: engine_defs example_defs vectorized_lps_def wf_tensor_def sound_static_eager
        tf_range_def)
  have "log_prob eager_static ?mc (Leaf (Tensor [1] [7])) =
      Inr (dist_log_prob (initial_state_prior ?mc) (Leaf (Tensor [] [7])))"
    using th [THEN conjunct2, THEN conjunct2, THEN conjunct2, THEN mp, OF h] .
  then have l: "log_prob eager_static ?mc (Leaf (Tensor [1] [7])) = Inr (Tensor [] [35])"
    by (simp add: example_chain_sel example_defs)
  from n s x0' r l show ?thesis by blast
qed

text \<open>
  Claim C6. Let \<open>sample\<close> be run over a seed-splitting collaborator that is a relation,
  deterministic when it is given a seed, and over distributions whose \<open>sample\<close> is a
  function of the seed that it is given, and arbitrary without a seed. Then two runs of
  \<open>sample\<close> with one sample shape and one seed have one outcome, the same trajectory or
  the same error: every seed that \<open>sample\<close> hands to a collaborator comes from the seed
  that it was given. The same holds when the distributions are relations too, whose calls
  with a seed have one outcome at most. Over the collaborators of the functional model
  the runs of \<open>sample\<close> with a seed are the one that \<open>sample_n\<close> computes.
\<close>

theorem sample_deterministic:
  "(deterministic_split split \<and>
    sample_rel split draw_graph mc sample_shape (Some seed) r \<and>
    sample_rel split draw_graph mc sample_shape (Some seed) r' \<longrightarrow> r = r') \<and>
   (deterministic_split split \<and> deterministic_draw draw \<and>
    sample_rel split draw mc sample_shape (Some seed) r \<and>
    sample_rel split draw mc sample_shape (Some seed) r' \<longrightarrow> r = r') \<and>
   (sample_rel (split_graph split_seed) draw_graph mc sample_shape (Some seed) r \<longleftrightarrow>
      r = sample_n split_seed mc sample_shape seed)"
proof (intro conjI impI iffI)
  show "r = r'"
    if "deterministic_split split \<and>
      sample_rel split draw_graph mc sample_shape (Some seed) r \<and>
      sample_rel split draw_graph mc sample_shape (Some seed) r'"
    using that deterministic_draw_graph by (auto intro: sample_rel_deterministic)
  show "r = r'"
    if "deterministic_split split \<and> deterministic_draw draw \<and>
      sample_rel split draw mc sample_shape (Some seed) r \<and>
      sample_rel split draw mc sample_shape (Some seed) r'"
    using that by (auto intro: sample_rel_deterministic)
  show "r = sample_n split_seed mc sample_shape seed"
    if "sample_rel (split_graph split_seed) draw_graph mc sample_shape (Some seed) r"
    using deterministic_split_graph deterministic_draw_graph that sample_rel_sample_n
    by (rule sample_rel_deterministic)
  show "sample_rel (split_graph split_seed) draw_graph mc sample_shape (Some seed) r"
    if "r = sample_n split_seed mc sample_shape seed"
    using that by (simp add: sample_rel_sample_n)
qed

theorem sample_deterministic_witness:
  "deterministic_split (split_graph example_split) \<and>
   deterministic_draw (draw_graph :: (int, nat) draw_rel) \<and>
   sample_rel (split_graph example_split) draw_graph (example_chain 3 False False False) []
     (Some 2) (Inr (Leaf (Tensor [3] [7, 24, 61]))) \<and>
   \<not> sample_rel (split_graph example_split) draw_graph (example_chain 3 False False False) []
     (Some 2) (Inr (Leaf (Tensor [3] [10, 33, 82]))) \<and>
   sample_rel (split_graph example_split) draw_graph (example_chain 3 False False False) []
     None (Inr (Leaf (Tensor [3] [7, 24, 61]))) \<and>
   sample_rel (split_graph example_split) draw_graph (example_chain 3 False False False) []
     None (Inr (Leaf (Tensor [3] [10, 33, 82])))"
proof -
  let ?mc = "example_chain 3 False False False"
  have one: "1 \<le> num_steps ?mc" by (simp add: example_chain_sel)
  have n: "[0..<nat (num_steps ?mc)] = [0..<3]"
    by (simp add: example_chain_sel)
  have m: "map_structure2 (\<lambda>x axis. move_dimension x 0 axis) (Leaf (Tensor [3] es))
      (step_axes ?mc) = Inr (Leaf (Tensor [3] es))" for es :: "int list"
    by (simp add: engine_defs example_defs)
  have d2: "collect (chain_draw example_split ?mc [] 2) [0..<3] =
      Inr [(8, Leaf (Tensor [] [7])), (18, Leaf (Tensor [] [24])), (38, Leaf (Tensor [] [61]))]"
    by (simp add: eval_nat_numeral upt_rec example_defs scalar_def)
  have s2: "stack_draws [Leaf (Tensor [] [7]), Leaf (Tensor [] [24]), Leaf (Tensor [] [61 :: int])] =
      Inr (Leaf (Tensor [3] [7, 24, 61]))"
    by (simp add: map_structure2_def tconcat0_def expand_dims0_def empty_stack_def)
  have v2: "sample_n example_split ?mc [] 2 = Inr (Leaf (Tensor [3] [7, 24, 61]))"
    unfolding sample_n_collect [OF one] by (simp only: n d2 and_then_Inr list.map snd_conv s2 m)
  have d3: "collect (chain_draw example_split ?mc [] 3) [0..<3] =
      Inr [(11, Leaf (Tensor [] [10])), (24, Leaf (Tensor [] [33])), (50, Leaf (Tensor [] [82]))]"
    by (simp add: eval_nat_numeral upt_rec example_defs scalar_def)
  have s3: "stack_draws [Leaf (Tensor [] [10]), Leaf (Tensor [] [33]), Leaf (Tensor [] [82 :: int])] =
      Inr (Leaf (Tensor [3] [10, 33, 82]))"
    by (simp add: map_structure2_def tconcat0_def expand_dims0_def empty_stack_def)
  have v3: "sample_n example_split ?mc [] 3 = Inr (Leaf (Tensor [3] [10, 33, 82]))"
    unfolding sample_n_collect [OF one] by (simp only: n d3 and_then_Inr list.map snd_conv s3 m)
  have g: "deterministic_split (split_graph example_split)"
    by (rule deterministic_split_graph)
  have h: "deterministic_draw (draw_graph :: (int, nat) draw_rel)"
    by (rule deterministic_draw_graph)
  note th = sample_deterministic [where split = "split_graph example_split"
      and draw = draw_graph and split_seed = example_split and mc = ?mc
      and sample_shape = "[]" and seed = 2
      and r = "Inr (Leaf (Tensor [3] [7, 24, 61]))"
      and r' = "Inr (Leaf (Tensor [3] [10, 33, 82]))"]
  from th [THEN conjunct2, THEN conjunct2] v2
  have a: "sample_rel (split_graph example_split) draw_graph ?mc [] (Some 2)
      (Inr (Leaf (Tensor [3] [7, 24, 61])))"
    by simp
  from th [THEN conjunct2, THEN conjunct1] g h a
  have b': "\<not> sample_rel (split_graph example_split) draw_graph ?mc [] (Some 2)
      (Inr (Leaf (Tensor [3] [10, 33, 82])))"
    by auto
  from th [THEN conjunct1] g a
  have b: "\<not> sample_rel (split_graph example_split) draw_graph ?mc [] (Some 2)
      (Inr (Leaf (Tensor [3] [10, 33, 82])))"
    by auto
  have u2: "sample_rel (split_graph example_split) draw_graph ?mc [] None
      (Inr (Leaf (Tensor [3] [7, 24, 61])))"
    using sample_rel_unseeded [of example_split ?mc "[]" 2] by (simp only: v2)
  have u3: "sample_rel (split_graph example_split) draw_graph ?mc [] None
      (Inr (Leaf (Tensor [3] [10, 33, 82])))"
    using sample_rel_unseeded [of example_split ?mc "[]" 3] by (simp only: v3)
  from g h a b u2 u3 show ?thesis by blast
qed

text \<open>
  Claim C4, in exact arithmetic (the elements form a commutative group; round-off is not
  modelled). Let the joint sample-and-log-prob operation return the trajectory \<open>x\<close> and
  the log-density \<open>lp\<close>, for a chain that is proper and a state that has a leaf at least.
  Let \<open>X\<close> be \<open>x\<close> with the step axis in front, let \<open>A\<close> hold its slices
  \<open>x\<^sub>0 .. x\<^sub>n\<^sub>-\<^sub>2\<close> and \<open>B\<close> its slices \<open>x\<^sub>1 .. x\<^sub>n\<^sub>-\<^sub>1\<close>, and let the transition function
  vectorize over them with the batch shape of the prior's log-density. Then \<open>log_prob\<close>
  of the returned trajectory is the returned log-density.
\<close>

theorem sample_and_log_prob_consistent:
  fixes mc :: "('a :: ab_group_add, 's) markov_chain"
  assumes run: "sample_and_log_prob split_seed mc sample_shape seed = Inr (x, lp)"
    and leaf: "flatten x \<noteq> []"
    and proper: "proper_chain mc"
    and vec: "\<forall>X. step_major mc x = Inr X \<longrightarrow>
               vectorizes (transition_fn mc) X (nat (num_steps mc)) A B s"
    and prior: "shape (dist_log_prob (initial_state_prior mc)
                  (dist_sample (initial_state_prior mc) sample_shape
                     (fst (split_seed (Some ''markov_chain_sample'') seed)))) = s"
    and sound: "sound_static static_shape"
  shows "log_prob static_shape mc x = Inr lp"
proof -
  let ?n = "nat (num_steps mc)"
  let ?m = "prod_list s"
  let ?draw = "chain_draw split_seed mc sample_shape seed"
  let ?X = "\<lambda>t. snd (projr (?draw t))"
  let ?L = "\<lambda>t. projr (draw_lp split_seed mc sample_shape seed t)"
  note draw_lp.simps [simp del] chain_draw.simps [simp del]
  have one: "1 \<le> num_steps mc"
  proof (rule ccontr)
    assume "\<not> 1 \<le> num_steps mc"
    then have "num_steps mc < 1" by simp
    from sample_helper_invalid [OF this] run show False
      by (simp add: sample_and_log_prob_def)
  qed
  then have n: "0 < ?n" by simp
  \<comment> \<open>the run of the helper\<close>
  from run obtain rs R S where rs: "collect (chain_result split_seed mc True sample_shape seed)
      [0..<?n] = Inr rs"
    and R: "stack_draws (map snd rs) = Inr R"
    and S: "pair_part0 R = Inr S"
    and lp: "and_then (pair_part1 R) (sum_fn mc) = Inr lp"
    and x: "map_structure2 (\<lambda>x axis. move_dimension x 0 axis) S (step_axes mc) = Inr x"
    unfolding sample_and_log_prob_def sample_helper_collect [OF one]
    by (auto simp: and_then_eq_Inr extract_sample_fn_def extract_lp_fn_def)
  from collect_Inr [OF rs] have len: "length rs = ?n"
    and res: "\<And>t. t < ?n \<Longrightarrow>
      chain_result split_seed mc True sample_shape seed t = Inr (rs ! t)"
    by (simp_all del: upt_Suc)
  \<comment> \<open>the results are the draws of the recurrence, with their log-densities\<close>
  have form: "snd (rs ! t) = Nest [?X t, Leaf (?L t)] \<and> pred_nest wf_tensor (?X t) \<and>
      wf_tensor (?L t) \<and> ?draw t = Inr (fst (rs ! t), ?X t) \<and>
      draw_lp split_seed mc sample_shape seed t = Inr (?L t)" if "t < ?n" for t
  proof -
    have "chain_result split_seed mc True sample_shape seed t = Inr (fst (rs ! t), snd (rs ! t))"
      using res [OF that] by simp
    from chain_result_joint [OF proper this] show ?thesis by auto
  qed
  have wf: "\<forall>r\<in>set (map snd rs). pred_nest wf_tensor r"
  proof
    fix r assume "r \<in> set (map snd rs)"
    then obtain t where "t < ?n" "r = snd (rs ! t)"
      using len by (auto simp: in_set_conv_nth)
    with form [of t] show "pred_nest wf_tensor r" by simp
  qed
  have st: "is_stack R (map snd rs)" using R wf by (rule is_stack_stack_draws)
  \<comment> \<open>the stack is the pair of the stacked samples and the stacked log-densities\<close>
  have "map_structure (tindex 0) R = Inr (Nest [?X 0, Leaf (?L 0)])"
    using st n len form [of 0] by (simp add: is_stack_def)
  then obtain S' L where RS: "R = Nest [S', Leaf L]"
    by (blast dest: map_structure_pair)
  with S have RSL: "R = Nest [S, Leaf L]" by simp
  from lp RSL have sumL: "sum_fn mc L = Inr lp" by simp
  have idx: "map_structure (tindex t) S = Inr (?X t) \<and> tindex t L = Inr (?L t)" if "t < ?n" for t
  proof -
    have "map_structure (tindex t) R = Inr (Nest [?X t, Leaf (?L t)])"
      using st that len form [of t] by (simp add: is_stack_def)
    then show ?thesis unfolding RSL by (auto simp: and_then_eq_Inr)
  qed
  have pr: "pred_nest (\<lambda>a. wf_tensor a \<and> shape a \<noteq> [] \<and> hd (shape a) = ?n) S"
    and wL: "wf_tensor L" and sL: "shape L \<noteq> []" and hL: "hd (shape L) = ?n"
    using st len unfolding is_stack_def RSL by simp_all
  have wS: "pred_nest wf_tensor S" and eS: "leading_extent ?n S"
    using pr by (simp_all add: nest.pred_set leading_extent_def)
  \<comment> \<open>the trajectory, step axis first, is the stack of the samples\<close>
  have sm: "step_major mc x = Inr S"
    unfolding step_major_def using x wS by (rule step_major_roundtrip)
  have "length (flatten x) = length (flatten S)" using x by (rule step_major_flatten)
  with leaf have fS: "flatten S \<noteq> []" by auto
  from vec sm have "vectorizes (transition_fn mc) S ?n A B s" by blast
  from vectorized_lps_rows [OF this wS eS n]
  obtain T where T: "vectorized_lps (transition_fn mc) S ?n = Inr T"
    and wT: "wf_tensor T" and sT: "shape T = (?n - 1) # s"
    and step: "\<And>t. t < ?n - 1 \<Longrightarrow> stepwise_lp (transition_fn mc) S t = tindex t T"
    by blast
  \<comment> \<open>the prior's log-density of the first step, and the shape of the stack\<close>
  have d0: "?draw 0 = Inr (snd (split_seed (Some ''markov_chain_sample'') seed),
      dist_sample (initial_state_prior mc) sample_shape
        (fst (split_seed (Some ''markov_chain_sample'') seed)))"
    by (simp add: chain_draw.simps case_prod_beta)
  then have L0: "?L 0 = dist_log_prob (initial_state_prior mc) (?X 0)"
    by (simp add: draw_lp.simps)
  have s0: "shape (?L 0) = s" using prior d0 by (simp add: draw_lp.simps)
  have i0: "tindex 0 L = Inr (?L 0)" using idx [OF n] by simp
  obtain s' where s': "shape L = ?n # s'" using sL hL by (cases "shape L") auto
  from i0 s' have "shape (?L 0) = s'"
    by (auto simp: tindex_def split: if_splits dest: arg_cong [where f = shape, OF sym])
  with s0 s' have shL: "shape L = ?n # s" by simp
  have parts: "log_prob_parts mc x = Inr (?L 0, T)"
    using log_prob_parts_step_major [OF sm eS fS] idx [OF n] T L0 by simp
  \<comment> \<open>slice by slice, the vectorized log-densities are those of the later draws\<close>
  have later: "tindex t T = tindex (Suc t) L" if t: "t < ?n - 1" for t
  proof -
    from t have t1: "t < ?n" and t2: "Suc t < ?n" by simp_all
    from form [OF t1] form [OF t2] have dt: "?draw t = Inr (fst (rs ! t), ?X t)"
      and dS: "?draw (Suc t) = Inr (fst (rs ! Suc t), ?X (Suc t))"
      and lS: "draw_lp split_seed mc sample_shape seed (Suc t) = Inr (?L (Suc t))"
      by simp_all
    from lS dt dS obtain d where "transition_fn mc (scalar (int t)) (?X t) = Inr d"
      and "?L (Suc t) = dist_log_prob d (?X (Suc t))"
      by (auto simp: draw_lp.simps and_then_eq_Inr)
    then have "stepwise_lp (transition_fn mc) S t = Inr (?L (Suc t))"
      using idx [OF t1] idx [OF t2] by (simp add: stepwise_lp_def)
    with step [OF t] idx [OF t2] show ?thesis by simp
  qed
  \<comment> \<open>the two sums\<close>
  have sumT: "sum_fn mc T =
      Inr (Tensor s (map (\<lambda>j. \<Sum>t = 0..<?n - 1. elems T ! (t * ?m + j)) [0..<?m]))"
    using wT sT by (simp add: sum_fn_exact reduce_sum_closed)
  have lpL: "lp = Tensor s (map (\<lambda>j. \<Sum>t = 0..<?n. elems L ! (t * ?m + j)) [0..<?m])"
    using sumL wL shL by (simp add: sum_fn_exact reduce_sum_closed)
  have "log_prob static_shape mc x =
      tensor_add (?L 0) (Tensor s (map (\<lambda>j. \<Sum>t = 0..<?n - 1. elems T ! (t * ?m + j)) [0..<?m]))"
    using parts sumT sound by (rule log_prob_Inr) (simp add: s0)
  then have lpx: "log_prob static_shape mc x =
      Inr (Tensor s (map2 (+) (elems (?L 0))
        (map (\<lambda>j. \<Sum>t = 0..<?n - 1. elems T ! (t * ?m + j)) [0..<?m])))"
    using s0 by (simp add: tensor_add_def tensor_binop_same_shape)
  have w0: "wf_tensor (?L 0)" using form [OF n] by simp
  then have len0: "length (elems (?L 0)) = ?m" using s0 by (simp add: wf_tensor_def)
  have el: "elems (?L 0) ! j + (\<Sum>t = 0..<?n - 1. elems T ! (t * ?m + j)) =
      (\<Sum>t = 0..<?n. elems L ! (t * ?m + j))" if j: "j < ?m" for j
  proof -
    have row: "elems L ! (t * ?m + j) = rows L ! t ! j" if "t < ?n" for t
      using wL shL that j by (simp add: rows_nth_nth)
    have rowT: "elems T ! (t * ?m + j) = rows T ! t ! j" if "t < ?n - 1" for t
      using wT sT that j by (simp add: rows_nth_nth)
    have "Inr (?L 0) = (Inr (Tensor s (rows L ! 0)) :: error + 'a tensor)"
      using idx [OF n] tindex_rows [OF shL n] by simp
    then have "?L 0 = Tensor s (rows L ! 0)" by (simp only: sum.inject)
    then have "elems (?L 0) = rows L ! 0" by (simp only: tensor.sel)
    then have first: "elems (?L 0) ! j = elems L ! (0 * ?m + j)"
      using row [OF n] by simp
    have rr: "rows T ! t = rows L ! Suc t" if t: "t < ?n - 1" for t
    proof -
      from t have "Suc t < ?n" by simp
      then have "tindex (Suc t) L = Inr (Tensor s (rows L ! Suc t))"
        using shL by (intro tindex_rows)
      moreover have "tindex t T = Inr (Tensor s (rows T ! t))"
        using sT t by (intro tindex_rows)
      ultimately show ?thesis using later [OF t] by simp
    qed
    have "elems T ! (t * ?m + j) = elems L ! (Suc t * ?m + j)" if t: "t < ?n - 1" for t
    proof -
      from t have "Suc t < ?n" by simp
      from row [OF this] rowT [OF t] rr [OF t]
      show ?thesis by (simp only:)
    qed
    then have "(\<Sum>t = 0..<?n - 1. elems T ! (t * ?m + j)) =
        (\<Sum>t = 0..<?n - 1. elems L ! (Suc t * ?m + j))"
      by (intro sum.cong refl) (simp only: atLeastLessThan_iff)
    with first show ?thesis
      using sum_first [OF n, of "\<lambda>t. elems L ! (t * ?m + j)"] by simp
  qed
  have "map2 (+) (elems (?L 0)) (map (\<lambda>j. \<Sum>t = 0..<?n - 1. elems T ! (t * ?m + j)) [0..<?m]) =
      map (\<lambda>j. \<Sum>t = 0..<?n. elems L ! (t * ?m + j)) [0..<?m]"
    using len0 el by (intro nth_equalityI) simp_all
  with lpx lpL show ?thesis by simp
qed

theorem sample_and_log_prob_consistent_witness:
  "sample_and_log_prob example_split (example_chain 3 False False False) [] 2 =
     Inr (Leaf (Tensor [3] [7, 24, 61]), Tensor [] [57]) \<and>
   proper_chain (example_chain 3 False False False) \<and>
   step_major (example_chain 3 False False False) (Leaf (Tensor [3] [7, 24, 61])) =
     Inr (Leaf (Tensor [3] [7, 24, 61])) \<and>
   vectorizes example_transition (Leaf (Tensor [3] [7, 24, 61])) 3
     (Leaf (Tensor [2] [7, 24])) (Leaf (Tensor [2] [24, 61])) [] \<and>
   log_prob eager_static (example_chain 3 False False False) (Leaf (Tensor [3] [7, 24, 61])) =
     Inr (Tensor [] [57])"
proof -
  let ?mc = "example_chain 3 False False False"
  let ?x = "Leaf (Tensor [3] [7, 24, 61 :: int])"
  let ?A = "Leaf (Tensor [2] [7, 24 :: int])"
  let ?B = "Leaf (Tensor [2] [24, 61 :: int])"
  let ?rs = "[(8 :: nat, Nest [Leaf (Tensor [] [7 :: int]), Leaf (Tensor [] [35])]),
      (18, Nest [Leaf (Tensor [] [24]), Leaf (Tensor [] [10])]),
      (38, Nest [Leaf (Tensor [] [61]), Leaf (Tensor [] [12])])]"
  have rs: "collect (chain_result example_split ?mc True [] 2) [0..<3] = Inr ?rs"
    by (simp add: eval_nat_numeral upt_rec example_defs scalar_def make_sample_loop_body_def
        call_sample_attr_def extract_sample_fn_def)
  have st: "stack_draws [Nest [Leaf (Tensor [] [7 :: int]), Leaf (Tensor [] [35])],
      Nest [Leaf (Tensor [] [24]), Leaf (Tensor [] [10])],
      Nest [Leaf (Tensor [] [61]), Leaf (Tensor [] [12])]] =
      Inr (Nest [?x, Leaf (Tensor [3] [35, 10, 12])])"
    by (simp add: map_structure2_def tconcat0_def expand_dims0_def empty_stack_def)
  have sum: "sum_fn ?mc (Tensor [3] [35, 10, 12]) = Inr (Tensor [] [57])"
    by (simp add: sum_fn_def example_chain_sel reduce_sum_def rows_def upt_rec numeral_3_eq_3)
  have m: "map_structure2 (\<lambda>x axis. move_dimension x 0 axis) ?x (step_axes ?mc) = Inr ?x"
    by (simp add: engine_defs example_defs)
  have one: "1 \<le> num_steps ?mc" by (simp add: example_chain_sel)
  have n: "nat (num_steps ?mc) = 3" by (simp add: example_chain_sel)
  have run: "sample_and_log_prob example_split ?mc [] 2 = Inr (?x, Tensor [] [57])"
    unfolding sample_and_log_prob_def sample_helper_collect [OF one] n
    by (simp only: rs and_then_Inr list.map snd_conv st extract_sample_fn_def
        extract_lp_fn_def if_True pair_part0.simps pair_part1.simps sum m)
  have leaf: "flatten ?x \<noteq> []" by simp
  have sm: "step_major ?mc ?x = Inr ?x" by (simp add: engine_defs example_defs)
  have s0: "stepwise_lp example_transition ?x 0 = Inr (Tensor [] [10])"
    by (simp add: stepwise_lp_def engine_defs example_defs scalar_def)
  have s1: "stepwise_lp example_transition ?x 1 = Inr (Tensor [] [12])"
    by (simp add: stepwise_lp_def engine_defs example_defs scalar_def)
  have rA: "is_rows ?A ?x 0 (3 - 1)"
    by (simp add: is_rows_def wf_tensor_def tindex_def less_Suc_eq numeral_2_eq_2)
  have rB: "is_rows ?B ?x 1 (3 - 1)"
    by (simp add: is_rows_def wf_tensor_def tindex_def less_Suc_eq numeral_2_eq_2)
  have steps: "Tensor [3 - 1] (map int [0..<3 - 1]) = Tensor [2] [0, 1]"
    by (simp add: upt_rec)
  have v: "vectorizes example_transition ?x 3 ?A ?B []"
  proof -
    obtain d where d: "example_transition (Tensor [2] [0, 1]) ?A = Inr d"
      by (simp add: example_defs)
    then have lp: "dist_log_prob d ?B = Tensor [2] [10, 12]"
      by (auto simp: example_defs)
    have law: "\<forall>t<3 - 1. stepwise_lp example_transition ?x t = tindex t (Tensor [2] [10, 12])"
      using s0 s1 by (simp add: tindex_def less_Suc_eq numeral_2_eq_2)
    show ?thesis
      unfolding vectorizes_def steps using rA rB law by (simp add: d lp wf_tensor_def)
  qed
  then have v': "\<forall>X. step_major ?mc ?x = Inr X \<longrightarrow>
      vectorizes (transition_fn ?mc) X (nat (num_steps ?mc)) ?A ?B []"
    unfolding n by (simp add: sm example_chain_sel)
  have prior: "shape (dist_log_prob (initial_state_prior ?mc)
      (dist_sample (initial_state_prior ?mc) []
         (fst (example_split (Some ''markov_chain_sample'') 2)))) = []"
    by (simp add: example_defs)
  from sample_and_log_prob_consistent [OF run leaf example_chain_proper v' prior
      sound_static_eager] run example_chain_proper [of 3 False False False] sm v
  show ?thesis by simp
qed

end
